theory Spec2Isabelle
  imports Complex_Main "HOL-Library.Sublist"
begin

section \<open>The worksheet engine of XlsxWriter (worksheet.py)\<close>

text \<open>
  A shallow embedding of the cell store, the typed write methods, the two row
  serialisers, the date model and the criteria parsers of the \<open>Worksheet\<close> class.
  Python identifiers with a leading underscore lose it (\<open>_check_dimensions\<close> is
  \<open>check_dimensions\<close>). Python integers are \<open>int\<close>, Python floats are read as
  \<open>real\<close>, a \<open>str\<close> is a \<open>string\<close> of 8-bit characters and the regular
  expression classes \<open>\s\<close>, \<open>\w\<close> are the ASCII ones. A method that mutates
  \<open>self\<close> takes the worksheet and returns the new one; a method that can raise
  returns \<open>Raise e\<close> together with the worksheet as the exception leaves it.
\<close>

subsection \<open>Python strings\<close>

definition startswith :: "string \<Rightarrow> string \<Rightarrow> bool" where
  "startswith s p = prefix p s"

definition endswith :: "string \<Rightarrow> string \<Rightarrow> bool" where
  "endswith s p = suffix p s"

text \<open>
  \<open>s.replace(old, new)\<close> for a non-empty \<open>old\<close>: the occurrences are found left to
  right and do not overlap. The counter is the number of characters of a matched
  occurrence that are still to be skipped.
\<close>

fun replace_from :: "string \<Rightarrow> string \<Rightarrow> nat \<Rightarrow> string \<Rightarrow> string" where
  "replace_from old new k [] = []"
| "replace_from old new (Suc k) (c # cs) = replace_from old new k cs"
| "replace_from old new 0 (c # cs) =
     (if prefix old (c # cs) then new @ replace_from old new (length old - 1) cs
      else c # replace_from old new 0 cs)"

definition replace :: "string \<Rightarrow> string \<Rightarrow> string \<Rightarrow> string" where
  "replace s old new = replace_from old new 0 s"

definition ord :: "char \<Rightarrow> nat" where
  "ord c = of_char c"

text \<open>
  The characters that \<open>\s\<close> and \<open>strip()\<close> take as whitespace in a text of
  Python 3, among the characters up to 255: the six of ASCII, the four separators
  \<open>0x1C\<close> to \<open>0x1F\<close>, the next line character \<open>0x85\<close> and the no-break space
  \<open>0xA0\<close>.
\<close>

definition is_space :: "char \<Rightarrow> bool" where
  "is_space c = (c = CHR '' '' \<or> (9 \<le> ord c \<and> ord c \<le> 13) \<or> (28 \<le> ord c \<and> ord c \<le> 31)
                 \<or> ord c = 133 \<or> ord c = 160)"

definition is_digit :: "char \<Rightarrow> bool" where
  "is_digit c = (48 \<le> ord c \<and> ord c \<le> 57)"

definition is_hex :: "char \<Rightarrow> bool" where
  "is_hex c = (is_digit c \<or> (65 \<le> ord c \<and> ord c \<le> 70) \<or> (97 \<le> ord c \<and> ord c \<le> 102))"

definition is_word :: "char \<Rightarrow> bool" where
  "is_word c = (is_digit c \<or> (65 \<le> ord c \<and> ord c \<le> 90) \<or> (97 \<le> ord c \<and> ord c \<le> 122)
                \<or> c = CHR ''_'')"

definition lower_char :: "char \<Rightarrow> char" where
  "lower_char c = (if 65 \<le> ord c \<and> ord c \<le> 90 then char_of (ord c + 32) else c)"

definition lower :: "string \<Rightarrow> string" where
  "lower s = map lower_char s"

text \<open>\<open>str(n)\<close> and \<open>"%d" % n\<close> for an integer.\<close>

fun digits_of_nat :: "nat \<Rightarrow> string" where
  "digits_of_nat n =
     (if n < 10 then [''0123456789'' ! n]
      else digits_of_nat (n div 10) @ [''0123456789'' ! (n mod 10)])"

definition str_int :: "int \<Rightarrow> string" where
  "str_int i = (if i < 0 then CHR ''-'' # digits_of_nat (nat (- i)) else digits_of_nat (nat i))"

datatype py_error = IndexError | ValueError | TypeError | KeyError

datatype outcome = Return int | Raise py_error

subsection \<open>Formats, cells and the XML writer\<close>

text \<open>
  The \<open>Format\<close> class is declared in another file. A format is kept as what the
  worksheet reads from it: the style index that \<open>_get_xf_index()\<close> returns and the
  \<open>rPr\<close> font run that \<open>_write_font\<close> renders from its font properties.
\<close>

record format =
  xf_index :: int
  font_xml :: string

text \<open>
  The cached value of a formula is tagged by what \<open>float(value)\<close> does with it:
  \<open>CNumeric\<close> when the conversion succeeds, \<open>CText\<close> when it raises ValueError.
\<close>

datatype cached = CNumeric real | CText string

text \<open>
  The \<open>string\<close> field of a String cell holds the shared string index in buffered
  mode and the text itself in optimisation mode.
\<close>

datatype string_ref = SharedIndex nat | InlineText string

datatype cell =
    String string_ref "format option"
  | Number real "format option"
  | Blank "format option"
  | Formula string "format option" cached
  | ArrayFormula string "format option" cached string

fun cell_format_of :: "cell \<Rightarrow> format option" where
  "cell_format_of (String _ f) = f"
| "cell_format_of (Number _ f) = f"
| "cell_format_of (Blank f) = f"
| "cell_format_of (Formula _ f _) = f"
| "cell_format_of (ArrayFormula _ f _ _) = f"

datatype attr_value = AInt int | AStr string | ANum real

type_synonym attributes = "(string \<times> attr_value) list"

text \<open>
  The XML writer is another file of the library. Its output is kept as the sequence of
  the calls made on it, one constructor for each method the worksheet calls.
\<close>

datatype xml =
    StartTag string attributes
  | StartTagUnencoded string attributes
  | EmptyTag string attributes
  | EmptyTagUnencoded string attributes
  | EndTag string
  | DataElement string string attributes
  | ValueElement cached
  | NumberElement real attributes
  | StringElement string_ref attributes
  | InlineString string bool attributes
  | RichInlineString string attributes
  | FormulaElement string cached attributes

text \<open>The list \<open>[height, cell_format, hidden, level, collapsed]\<close> that \<open>set_row\<close> stores.\<close>

record row_properties =
  rp_height :: "real option"
  rp_format :: "format option"
  rp_hidden :: bool
  rp_level :: int
  rp_collapsed :: bool

record hyperlink =
  hl_link_type :: int
  hl_url :: string
  hl_str :: "string option"
  hl_tip :: "string option"

datatype handle = SheetFile | RowDataFile

text \<open>
  The three classes of the \<open>datetime\<close> module that \<open>_is_supported_datetime\<close>
  accepts. \<open>Datetime year month day hour minute second microsecond\<close>.
\<close>

datatype datetime = Datetime int int int int int int int

datatype date_arg =
    DatetimeObj datetime
  | DateObj int int int
  | TimeObj int int int int

subsection \<open>The worksheet\<close>

text \<open>
  The fields of \<open>Worksheet.__init__\<close> that the modelled methods read or write. The
  two dictionaries of dictionaries (\<open>table\<close>, \<open>hyperlinks\<close>) are
  \<open>defaultdict(dict)\<close>: a missing row reads as the empty dictionary. The file
  handles are kept in a store, since \<open>_initialize\<close> aliases \<open>fh\<close> to the row data
  file in optimisation mode.
\<close>

record worksheet =
  optimization :: int
  previous_row :: int
  dim_rowmin :: "int option"
  dim_rowmax :: "int option"
  dim_colmin :: "int option"
  dim_colmax :: "int option"
  table :: "int \<Rightarrow> (int \<rightharpoonup> cell)"
  set_rows :: "int \<rightharpoonup> row_properties"
  comments :: "int \<rightharpoonup> (int \<rightharpoonup> string)"
  col_formats :: "int \<rightharpoonup> format"
  row_spans :: "int \<rightharpoonup> string"
  merge :: "(int \<times> int \<times> int \<times> int) list"
  hlink_count :: int
  hyperlinks :: "int \<Rightarrow> (int \<rightharpoonup> hyperlink)"
  str_table :: "string list"
  default_row_height :: real
  excel_version :: int
  date_1904 :: bool
  epoch :: datetime
  fh :: handle
  files :: "handle \<Rightarrow> xml list"

definition xls_rowmax :: int where
  "xls_rowmax = 1048576"

definition xls_colmax :: int where
  "xls_colmax = 16384"

definition xls_strmax :: nat where
  "xls_strmax = 32767"

definition Worksheet_init :: worksheet where
  "Worksheet_init =
     \<lparr> optimization = 0, previous_row = 0,
       dim_rowmin = None, dim_rowmax = None, dim_colmin = None, dim_colmax = None,
       table = (\<lambda>_. Map.empty), set_rows = Map.empty, comments = Map.empty,
       col_formats = Map.empty, row_spans = Map.empty, merge = [],
       hlink_count = 0, hyperlinks = (\<lambda>_. Map.empty), str_table = [],
       default_row_height = 15, excel_version = 2007, date_1904 = False,
       epoch = Datetime 1899 12 31 0 0 0 0,
       fh = SheetFile, files = (\<lambda>_. []) \<rparr>"

text \<open>
  \<open>_initialize(init_data)\<close>: the mode flag, the epoch flag and the shared string
  table come from the workbook; in optimisation mode \<open>fh\<close> is the row data file.
\<close>

definition initialize :: "int \<Rightarrow> bool \<Rightarrow> string list \<Rightarrow> worksheet \<Rightarrow> worksheet" where
  "initialize opt d1904 strs s =
     (let s1 = s\<lparr>str_table := strs, optimization := opt, date_1904 := d1904\<rparr>;
          s2 = (if date_1904 s1 then s1\<lparr>epoch := Datetime 1904 1 1 0 0 0 0\<rparr> else s1)
      in if optimization s2 = 1 then s2\<lparr>fh := RowDataFile\<rparr> else s2)"

definition xml_write :: "xml list \<Rightarrow> worksheet \<Rightarrow> worksheet" where
  "xml_write evs s = s\<lparr>files := (files s)(fh s := files s (fh s) @ evs)\<rparr>"

subsection \<open>Bounds check\<close>

definition check_dimensions :: "int \<Rightarrow> int \<Rightarrow> bool \<Rightarrow> bool \<Rightarrow> worksheet \<Rightarrow> int \<times> worksheet" where
  "check_dimensions row col ignore_row ignore_col s =
     (if row \<ge> xls_rowmax \<or> col \<ge> xls_colmax then (-1, s)
      else if (\<not> ignore_row \<and> \<not> ignore_col \<and> optimization s = 1) \<and> row < previous_row s
      then (-1, s)
      else
        let s1 = (if \<not> ignore_row
                  then s\<lparr>dim_rowmin := (case dim_rowmin s of None \<Rightarrow> Some row
                                          | Some m \<Rightarrow> if row < m then Some row else Some m),
                          dim_rowmax := (case dim_rowmax s of None \<Rightarrow> Some row
                                          | Some m \<Rightarrow> if row > m then Some row else Some m)\<rparr>
                  else s);
            s2 = (if \<not> ignore_col
                  then s1\<lparr>dim_colmin := (case dim_colmin s1 of None \<Rightarrow> Some col
                                           | Some m \<Rightarrow> if col < m then Some col else Some m),
                           dim_colmax := (case dim_colmax s1 of None \<Rightarrow> Some col
                                           | Some m \<Rightarrow> if col > m then Some col else Some m)\<rparr>
                  else s1)
        in (0, s2))"

subsection \<open>Coordinate helper and shared strings\<close>

text \<open>
  Modelled from the spec: \<open>xl_rowcol_to_cell\<close> of the coordinate helpers (utility.py,
  not part of this file), the conversion of a zero-indexed row and column into A1
  notation: the column in letters \<open>A..Z, AA..\<close>, then the row counted from one.
\<close>

fun col_letters :: "nat \<Rightarrow> string" where
  "col_letters n =
     (if n = 0 then []
      else col_letters ((n - 1) div 26) @ [''ABCDEFGHIJKLMNOPQRSTUVWXYZ'' ! ((n - 1) mod 26)])"

definition xl_rowcol_to_cell :: "int \<Rightarrow> int \<Rightarrow> string" where
  "xl_rowcol_to_cell row col = col_letters (nat (col + 1)) @ str_int (row + 1)"

text \<open>
  Modelled from the spec: \<open>_get_shared_string_index\<close> of the shared string table
  (sharedstrings.py), which interns a text to an integer index: a known text keeps its
  index, a new one gets the next index.
\<close>

fun index_of :: "'a \<Rightarrow> 'a list \<Rightarrow> nat" where
  "index_of x [] = 0"
| "index_of x (y # ys) = (if x = y then 0 else Suc (index_of x ys))"

definition get_shared_string_index :: "string \<Rightarrow> string list \<Rightarrow> nat \<times> string list" where
  "get_shared_string_index string strs =
     (if string \<in> set strs then (index_of string strs, strs)
      else (length strs, strs @ [string]))"

subsection \<open>Row and cell elements\<close>

definition write_row :: "worksheet \<Rightarrow> int \<Rightarrow> string option \<Rightarrow> row_properties option \<Rightarrow> bool \<Rightarrow> xml" where
  "write_row s row spans properties empty_row =
     (let hgt0 = (case properties of Some p \<Rightarrow> rp_height p | None \<Rightarrow> None);
          cell_format = (case properties of Some p \<Rightarrow> rp_format p | None \<Rightarrow> None);
          hid = (case properties of Some p \<Rightarrow> rp_hidden p | None \<Rightarrow> False);
          lev = (case properties of Some p \<Rightarrow> rp_level p | None \<Rightarrow> 0);
          coll = (case properties of Some p \<Rightarrow> rp_collapsed p | None \<Rightarrow> False);
          hgt = (case hgt0 of None \<Rightarrow> default_row_height s | Some h \<Rightarrow> h);
          xf = (case cell_format of Some f \<Rightarrow> xf_index f | None \<Rightarrow> 0);
          attributes =
            [(''r'', AInt (row + 1))]
            @ (case spans of Some sp \<Rightarrow> if sp = [] then [] else [(''spans'', AStr sp)] | None \<Rightarrow> [])
            @ (if xf = 0 then [] else [(''s'', AInt xf)])
            @ (case cell_format of Some f \<Rightarrow> [(''customFormat'', AInt 1)] | None \<Rightarrow> [])
            @ (if hgt = 15 then [] else [(''ht'', ANum hgt)])
            @ (if hid then [(''hidden'', AInt 1)] else [])
            @ (if hgt = 15 then [] else [(''customHeight'', AInt 1)])
            @ (if lev = 0 then [] else [(''outlineLevel'', AInt lev)])
            @ (if coll then [(''collapsed'', AInt 1)] else [])
            @ (if excel_version s = 2010 then [(''x14ac:dyDescent'', AStr ''0.25'')] else [])
      in if empty_row then EmptyTagUnencoded ''row'' attributes
         else StartTagUnencoded ''row'' attributes)"

text \<open>
  The two substitutions that escape an in-line string:
  \<open>re.sub('(_x[0-9a-fA-F]{4}_)', r'_x005F\1', string)\<close>, whose counter is the number
  of characters of a matched group still to be copied, and the control characters
  \<open>[\x00-\x08\x0B-\x1F]\<close> rewritten as \<open>"_x%04X_" % ord(c)\<close>.
\<close>

definition is_x_escape :: "string \<Rightarrow> bool" where
  "is_x_escape cs =
     (case cs of
        a # b # h1 # h2 # h3 # h4 # e # _ \<Rightarrow>
          a = CHR ''_'' \<and> b = CHR ''x'' \<and> is_hex h1 \<and> is_hex h2 \<and> is_hex h3 \<and> is_hex h4
          \<and> e = CHR ''_''
      | _ \<Rightarrow> False)"

fun escape_x_from :: "nat \<Rightarrow> string \<Rightarrow> string" where
  "escape_x_from k [] = []"
| "escape_x_from (Suc k) (c # cs) = c # escape_x_from k cs"
| "escape_x_from 0 (c # cs) =
     (if is_x_escape (c # cs) then ''_x005F'' @ c # escape_x_from 6 cs
      else c # escape_x_from 0 cs)"

definition escape_control_char :: "char \<Rightarrow> string" where
  "escape_control_char c =
     (if ord c \<le> 8 \<or> (11 \<le> ord c \<and> ord c \<le> 31)
      then ''_x00'' @ [''0123456789ABCDEF'' ! (ord c div 16), ''0123456789ABCDEF'' ! (ord c mod 16)]
           @ ''_''
      else [c])"

definition escape_inline :: "string \<Rightarrow> string" where
  "escape_inline string = concat (map escape_control_char (escape_x_from 0 string))"

text \<open>
  The in-line string element of optimisation mode: a text that starts with \<open><r>\<close>
  and ends with \<open></r>\<close> (\<open>$\<close> also matches before a final newline) is written as
  a rich string, any other with the flag that preserves outer whitespace.
\<close>

definition inline_string_element :: "string \<Rightarrow> attributes \<Rightarrow> xml" where
  "inline_string_element string attributes =
     (let string1 = escape_inline string in
      if startswith string1 ''<r>''
         \<and> (endswith string1 ''</r>'' \<or> endswith string1 (''</r>'' @ [CHR 0x0A]))
      then RichInlineString string1 attributes
      else InlineString string1
             (string1 \<noteq> [] \<and> (is_space (hd string1) \<or> is_space (last string1))) attributes)"

text \<open>
  \<open>_write_cell\<close>. The style index is the cell's own format, else the row's, else
  the column's. In optimisation mode the substitutions need a text: a shared string
  index there raises TypeError, before anything of the cell is written. \<open>cell_xml\<close>
  is that exception or the elements of the cell, \<open>write_cell\<close> writes them.
\<close>

definition cell_xml :: "worksheet \<Rightarrow> int \<Rightarrow> int \<Rightarrow> cell \<Rightarrow> py_error + xml list" where
  "cell_xml s row col c =
     (let cell_range = xl_rowcol_to_cell row col;
          attributes =
            [(''r'', AStr cell_range)]
            @ (case cell_format_of c of
                 Some f \<Rightarrow> [(''s'', AInt (xf_index f))]
               | None \<Rightarrow>
                   (case (case set_rows s row of Some p \<Rightarrow> rp_format p | None \<Rightarrow> None) of
                      Some row_xf \<Rightarrow> [(''s'', AInt (xf_index row_xf))]
                    | None \<Rightarrow>
                        (case col_formats s col of
                           Some col_xf \<Rightarrow> [(''s'', AInt (xf_index col_xf))]
                         | None \<Rightarrow> [])))
      in case c of
           Number number _ \<Rightarrow> Inr [NumberElement number attributes]
         | String string _ \<Rightarrow>
             (if optimization s = 0 then Inr [StringElement string attributes]
              else (case string of
                      SharedIndex _ \<Rightarrow> Inl TypeError
                    | InlineText txt \<Rightarrow> Inr [inline_string_element txt attributes]))
         | Formula formula _ v \<Rightarrow>
             Inr [FormulaElement formula v
                    (attributes @ (case v of CNumeric _ \<Rightarrow> [] | CText _ \<Rightarrow> [(''t'', AStr ''str'')]))]
         | ArrayFormula formula _ v rng \<Rightarrow>
             Inr [StartTag ''c''
                    (attributes @ (case v of CNumeric _ \<Rightarrow> [] | CText _ \<Rightarrow> [(''t'', AStr ''str'')])),
                  DataElement ''f'' formula [(''t'', AStr ''array''), (''ref'', AStr rng)],
                  ValueElement v,
                  EndTag ''c'']
         | Blank _ \<Rightarrow> Inr [EmptyTag ''c'' attributes])"

definition write_cell :: "int \<Rightarrow> int \<Rightarrow> cell \<Rightarrow> worksheet \<Rightarrow> py_error option \<times> worksheet" where
  "write_cell row col c s =
     (case cell_xml s row col c of
        Inl e \<Rightarrow> (Some e, s)
      | Inr elements \<Rightarrow> (None, xml_write elements s))"

text \<open>
  The loop \<open>for col_num in range(self.dim_colmin, self.dim_colmax + 1)\<close> of both
  serialisers; \<open>range\<close> raises TypeError on a bound that is still \<open>None\<close>.
\<close>

definition col_range :: "worksheet \<Rightarrow> int list option" where
  "col_range s =
     (case dim_colmin s of None \<Rightarrow> None
      | Some lo \<Rightarrow> (case dim_colmax s of None \<Rightarrow> None | Some hi \<Rightarrow> Some [lo..hi]))"

fun write_cells :: "int \<Rightarrow> int list \<Rightarrow> worksheet \<Rightarrow> py_error option \<times> worksheet" where
  "write_cells row_num [] s = (None, s)"
| "write_cells row_num (col_num # cols) s =
     (case table s row_num col_num of
        None \<Rightarrow> write_cells row_num cols s
      | Some col_ref \<Rightarrow>
          (case write_cell row_num col_num col_ref s of
             (Some e, s1) \<Rightarrow> (Some e, s1)
           | (None, s1) \<Rightarrow> write_cells row_num cols s1))"

subsection \<open>The streaming serialiser\<close>

text \<open>
  \<open>_write_single_row\<close>: the row held in memory is written out and the table is
  reset. A row that has only attributes or comments reads \<open>self.set_rows[row_num]\<close>,
  which is the empty dictionary (no properties) when the row was never set.
\<close>

definition write_single_row :: "int \<Rightarrow> worksheet \<Rightarrow> py_error option \<times> worksheet" where
  "write_single_row current_row_num s =
     (let row_num = previous_row s;
          s1 = s\<lparr>previous_row := current_row_num\<rparr>
      in if set_rows s1 row_num \<noteq> None \<or> comments s1 row_num \<noteq> None
            \<or> table s1 row_num \<noteq> Map.empty
         then
           (if table s1 row_num \<noteq> Map.empty
            then
              (let s2 = xml_write [write_row s1 row_num None (set_rows s1 row_num) False] s1
               in case col_range s2 of
                    None \<Rightarrow> (Some TypeError, s2)
                  | Some cols \<Rightarrow>
                      (case write_cells row_num cols s2 of
                         (Some e, s3) \<Rightarrow> (Some e, s3)
                       | (None, s3) \<Rightarrow>
                           (None, (xml_write [EndTag ''row''] s3)\<lparr>table := (\<lambda>_. Map.empty)\<rparr>)))
            else
              (None, (xml_write [write_row s1 row_num None (set_rows s1 row_num) True] s1)
                       \<lparr>table := (\<lambda>_. Map.empty)\<rparr>))
         else (None, s1\<lparr>table := (\<lambda>_. Map.empty)\<rparr>))"

text \<open>
  The idiom of every typed write:
  \<open>if self.optimization and row > self.previous_row: self._write_single_row(row)\<close>.
\<close>

definition write_previous_row :: "int \<Rightarrow> worksheet \<Rightarrow> py_error option \<times> worksheet" where
  "write_previous_row row s =
     (if optimization s \<noteq> 0 \<and> row > previous_row s then write_single_row row s else (None, s))"

definition store_cell :: "int \<Rightarrow> int \<Rightarrow> cell \<Rightarrow> worksheet \<Rightarrow> worksheet" where
  "store_cell row col c s = s\<lparr>table := (table s)(row := (table s row)(col \<mapsto> c))\<rparr>"

subsection \<open>Date model\<close>

text \<open>
  The calendar arithmetic of Python's \<open>datetime\<close> module, as the module defines it:
  the proleptic Gregorian ordinal of a date (\<open>_ymd2ord\<close>), the difference of two
  datetimes as a normalised \<open>timedelta\<close> and the ISO calendar triple.
\<close>

definition is_leap :: "int \<Rightarrow> bool" where
  "is_leap y = (y mod 4 = 0 \<and> (y mod 100 \<noteq> 0 \<or> y mod 400 = 0))"

definition days_before_year :: "int \<Rightarrow> int" where
  "days_before_year y = (y - 1) * 365 + (y - 1) div 4 - (y - 1) div 100 + (y - 1) div 400"

definition days_in_month :: "int \<Rightarrow> int \<Rightarrow> int" where
  "days_in_month y m =
     (if m = 2 then (if is_leap y then 29 else 28)
      else if m = 4 \<or> m = 6 \<or> m = 9 \<or> m = 11 then 30 else 31)"

definition days_before_month :: "int \<Rightarrow> int \<Rightarrow> int" where
  "days_before_month y m =
     [0, 31, 59, 90, 120, 151, 181, 212, 243, 273, 304, 334] ! nat (m - 1)
     + (if m > 2 \<and> is_leap y then 1 else 0)"

definition ymd2ord :: "int \<Rightarrow> int \<Rightarrow> int \<Rightarrow> int" where
  "ymd2ord y m d = days_before_year y + days_before_month y m + d"

text \<open>The dates and times that the constructors of the module accept.\<close>

definition valid_date :: "int \<Rightarrow> int \<Rightarrow> int \<Rightarrow> bool" where
  "valid_date y m d = (1 \<le> y \<and> y \<le> 9999 \<and> 1 \<le> m \<and> m \<le> 12 \<and> 1 \<le> d \<and> d \<le> days_in_month y m)"

definition valid_time :: "int \<Rightarrow> int \<Rightarrow> int \<Rightarrow> int \<Rightarrow> bool" where
  "valid_time h mi sec us =
     (0 \<le> h \<and> h < 24 \<and> 0 \<le> mi \<and> mi < 60 \<and> 0 \<le> sec \<and> sec < 60 \<and> 0 \<le> us \<and> us < 1000000)"

definition isoweek1monday :: "int \<Rightarrow> int" where
  "isoweek1monday y =
     (let firstday = ymd2ord y 1 1;
          firstweekday = (firstday + 6) mod 7;
          week1monday = firstday - firstweekday
      in if firstweekday > 3 then week1monday + 7 else week1monday)"

definition isocalendar :: "datetime \<Rightarrow> int \<times> int \<times> int" where
  "isocalendar dt =
     (case dt of Datetime y m d _ _ _ _ \<Rightarrow>
        let today = ymd2ord y m d;
            week = (today - isoweek1monday y) div 7;
            wday = (today - isoweek1monday y) mod 7
        in if week < 0
           then (y - 1, (today - isoweek1monday (y - 1)) div 7 + 1,
                 (today - isoweek1monday (y - 1)) mod 7 + 1)
           else if week \<ge> 52 \<and> today \<ge> isoweek1monday (y + 1) then (y + 1, 1, wday + 1)
           else (y, week + 1, wday + 1))"

text \<open>\<open>a - b\<close> on datetimes: the fields \<open>(days, seconds, microseconds)\<close> of the timedelta.\<close>

definition datetime_sub :: "datetime \<Rightarrow> datetime \<Rightarrow> int \<times> int \<times> int" where
  "datetime_sub a b =
     (case a of Datetime y1 m1 d1 h1 mi1 s1 us1 \<Rightarrow>
      case b of Datetime y2 m2 d2 h2 mi2 s2 us2 \<Rightarrow>
        let us = us1 - us2;
            secs = (h1 * 3600 + mi1 * 60 + s1) - (h2 * 3600 + mi2 * 60 + s2) + us div 1000000;
            days = ymd2ord y1 m1 d1 - ymd2ord y2 m2 d2 + secs div 86400
        in (days, secs mod 86400, us mod 1000000))"

text \<open>
  \<open>_convert_date_time\<close>. A date becomes the datetime at its midnight, a time is
  combined with the date of the epoch.
\<close>

definition convert_date_time :: "worksheet \<Rightarrow> date_arg \<Rightarrow> real" where
  "convert_date_time s dt_obj =
     (let dt = (case dt_obj of
                  DatetimeObj d \<Rightarrow> d
                | DateObj y m d \<Rightarrow> Datetime y m d 0 0 0 0
                | TimeObj h mi sec us \<Rightarrow>
                    (case epoch s of Datetime y m d _ _ _ _ \<Rightarrow> Datetime y m d h mi sec us));
          delta = datetime_sub dt (epoch s);
          excel_time = real_of_int (fst delta)
                       + (real_of_int (fst (snd delta)) + real_of_int (snd (snd delta)) / 1000000)
                         / (60 * 60 * 24);
          excel_time1 = (if isocalendar dt = (1900, 1, 1) then excel_time - 1 else excel_time)
      in if \<not> date_1904 s \<and> excel_time1 > 59 then excel_time1 + 1 else excel_time1)"

text \<open>
  To state the serial of a date: the whole days from the date of the epoch to a date,
  and the order of two dates.
\<close>

definition days_since_epoch :: "worksheet \<Rightarrow> int \<Rightarrow> int \<Rightarrow> int \<Rightarrow> int" where
  "days_since_epoch s y m d =
     (case epoch s of Datetime ey em ed _ _ _ _ \<Rightarrow> ymd2ord y m d - ymd2ord ey em ed)"

definition date_before :: "int \<times> int \<times> int \<Rightarrow> int \<times> int \<times> int \<Rightarrow> bool" where
  "date_before a b =
     (case a of (y1, m1, d1) \<Rightarrow> case b of (y2, m2, d2) \<Rightarrow>
        y1 < y2 \<or> (y1 = y2 \<and> (m1 < m2 \<or> (m1 = m2 \<and> d1 < d2))))"

subsection \<open>Typed writes\<close>

definition write_string :: "int \<Rightarrow> int \<Rightarrow> string \<Rightarrow> format option \<Rightarrow> worksheet \<Rightarrow> outcome \<times> worksheet" where
  "write_string row col string cell_format s =
     (case check_dimensions row col False False s of
        (rc, s1) \<Rightarrow>
          if rc \<noteq> 0 then (Return (-1), s1)
          else
            let string1 = (if length string > xls_strmax then take xls_strmax string else string);
                str_error = (if length string > xls_strmax then -2 else 0);
                new_index = get_shared_string_index string1 (str_table s1);
                string_index = (if optimization s1 = 0 then SharedIndex (fst new_index)
                                else InlineText string1);
                s2 = (if optimization s1 = 0 then s1\<lparr>str_table := snd new_index\<rparr> else s1)
            in case write_previous_row row s2 of
                 (Some e, s3) \<Rightarrow> (Raise e, s3)
               | (None, s3) \<Rightarrow>
                   (Return str_error, store_cell row col (String string_index cell_format) s3))"

definition write_number :: "int \<Rightarrow> int \<Rightarrow> real \<Rightarrow> format option \<Rightarrow> worksheet \<Rightarrow> outcome \<times> worksheet" where
  "write_number row col number cell_format s =
     (case check_dimensions row col False False s of
        (rc, s1) \<Rightarrow>
          if rc \<noteq> 0 then (Return (-1), s1)
          else
            case write_previous_row row s1 of
              (Some e, s2) \<Rightarrow> (Raise e, s2)
            | (None, s2) \<Rightarrow> (Return 0, store_cell row col (Number number cell_format) s2))"

text \<open>The \<open>blank\<close> token is ignored: the model leaves the parameter out.\<close>

definition write_blank :: "int \<Rightarrow> int \<Rightarrow> format option \<Rightarrow> worksheet \<Rightarrow> outcome \<times> worksheet" where
  "write_blank row col cell_format s =
     (case cell_format of
        None \<Rightarrow> (Return 0, s)
      | Some f \<Rightarrow>
          (case check_dimensions row col False False s of
             (rc, s1) \<Rightarrow>
               if rc \<noteq> 0 then (Return (-1), s1)
               else
                 case write_previous_row row s1 of
                   (Some e, s2) \<Rightarrow> (Raise e, s2)
                 | (None, s2) \<Rightarrow> (Return 0, store_cell row col (Blank cell_format) s2)))"

definition write_datetime :: "int \<Rightarrow> int \<Rightarrow> date_arg \<Rightarrow> format option \<Rightarrow> worksheet \<Rightarrow> outcome \<times> worksheet" where
  "write_datetime row col date cell_format s =
     (case check_dimensions row col False False s of
        (rc, s1) \<Rightarrow>
          if rc \<noteq> 0 then (Return (-1), s1)
          else
            case write_previous_row row s1 of
              (Some e, s2) \<Rightarrow> (Raise e, s2)
            | (None, s2) \<Rightarrow>
                (Return 0, store_cell row col (Number (convert_date_time s2 date) cell_format) s2))"

text \<open>
  The loops that pad a range: \<open>f\<close> is called on every cell of the list, in order;
  its return value is dropped and its exception ends the loop.
\<close>

fun for_cells :: "(int \<times> int) list \<Rightarrow> (int \<Rightarrow> int \<Rightarrow> worksheet \<Rightarrow> outcome \<times> worksheet) \<Rightarrow> worksheet
                    \<Rightarrow> py_error option \<times> worksheet" where
  "for_cells [] f s = (None, s)"
| "for_cells ((row, col) # rest) f s =
     (case f row col s of
        (Raise e, s1) \<Rightarrow> (Some e, s1)
      | (Return _, s1) \<Rightarrow> for_cells rest f s1)"

text \<open>The cells of a range in row-major order, without its first cell.\<close>

definition range_cells :: "int \<Rightarrow> int \<Rightarrow> int \<Rightarrow> int \<Rightarrow> (int \<times> int) list" where
  "range_cells first_row first_col last_row last_col =
     filter (\<lambda>(row, col). row \<noteq> first_row \<or> col \<noteq> first_col)
       (List.product [first_row..last_row] [first_col..last_col])"

text \<open>
  The text of an array formula without its braces and its leading \<open>=\<close>; indexing
  the empty text raises IndexError.
\<close>

definition strip_array_formula :: "string \<Rightarrow> py_error + string" where
  "strip_array_formula formula =
     (if formula = [] then Inl IndexError
      else
        let formula1 = (if hd formula = CHR ''{'' then tl formula else formula)
        in if formula1 = [] then Inl IndexError
           else
             let formula2 = (if hd formula1 = CHR ''='' then tl formula1 else formula1)
             in if formula2 = [] then Inl IndexError
                else Inr (if last formula2 = CHR ''}'' then butlast formula2 else formula2))"

definition write_array_formula ::
  "int \<Rightarrow> int \<Rightarrow> int \<Rightarrow> int \<Rightarrow> string \<Rightarrow> format option \<Rightarrow> cached \<Rightarrow> worksheet \<Rightarrow> outcome \<times> worksheet" where
  "write_array_formula first_row0 first_col0 last_row0 last_col0 formula cell_format v s =
     (let first_row = (if first_row0 > last_row0 then last_row0 else first_row0);
          last_row = (if first_row0 > last_row0 then first_row0 else last_row0);
          first_col = (if first_col0 > last_col0 then last_col0 else first_col0);
          last_col = (if first_col0 > last_col0 then first_col0 else last_col0)
      in case check_dimensions last_row last_col False False s of
           (rc, s1) \<Rightarrow>
             if rc \<noteq> 0 then (Return (-1), s1)
             else
               let cell_range =
                     (if first_row = last_row \<and> first_col = last_col
                      then xl_rowcol_to_cell first_row first_col
                      else xl_rowcol_to_cell first_row first_col @ '':''
                           @ xl_rowcol_to_cell last_row last_col)
               in case strip_array_formula formula of
                    Inl e \<Rightarrow> (Raise e, s1)
                  | Inr formula3 \<Rightarrow>
                      (case write_previous_row first_row s1 of
                         (Some e, s2) \<Rightarrow> (Raise e, s2)
                       | (None, s2) \<Rightarrow>
                           let s3 = store_cell first_row first_col
                                      (ArrayFormula formula3 cell_format v cell_range) s2
                           in if optimization s3 = 0
                              then
                                (case for_cells
                                        (range_cells first_row first_col last_row last_col)
                                        (\<lambda>row col. write_number row col 0 cell_format) s3 of
                                   (Some e, s4) \<Rightarrow> (Raise e, s4)
                                 | (None, s4) \<Rightarrow> (Return 0, s4))
                              else (Return 0, s3)))"

definition write_formula :: "int \<Rightarrow> int \<Rightarrow> string \<Rightarrow> format option \<Rightarrow> cached \<Rightarrow> worksheet \<Rightarrow> outcome \<times> worksheet" where
  "write_formula row col formula cell_format v s =
     (case check_dimensions row col False False s of
        (rc, s1) \<Rightarrow>
          if rc \<noteq> 0 then (Return (-1), s1)
          else if startswith formula ''{'' \<and> endswith formula ''}''
          then write_array_formula row col row col formula cell_format v s1
          else
            let formula1 = (if startswith formula ''='' then dropWhile (\<lambda>c. c = CHR ''='') formula
                            else formula)
            in case write_previous_row row s1 of
                 (Some e, s2) \<Rightarrow> (Raise e, s2)
               | (None, s2) \<Rightarrow>
                   (Return 0, store_cell row col (Formula formula1 cell_format v) s2))"

subsection \<open>Hyperlinks\<close>

text \<open>The escapes of an ordinary URL, in the order of the source.\<close>

definition escape_url :: "string \<Rightarrow> string" where
  "escape_url u0 =
     (let u1 = replace u0 ''%'' ''%25'';
          u2 = replace u1 [CHR 0x22] ''%22'';
          u3 = replace u2 '' '' ''%20'';
          u4 = replace u3 ''<'' ''%3c'';
          u5 = replace u4 ''>'' ''%3e'';
          u6 = replace u5 ''['' ''%5b'';
          u7 = replace u6 '']'' ''%5d'';
          u8 = replace u7 ''^'' ''%5e'';
          u9 = replace u8 [CHR 0x60] ''%60'';
          u10 = replace u9 ''{'' ''%7b''
      in replace u10 ''}'' ''%7d'')"

text \<open>\<open>re.search('%[0-9a-fA-F]{2}', url)\<close>.\<close>

fun looks_escaped :: "string \<Rightarrow> bool" where
  "looks_escaped (a # b # c # cs) =
     ((a = CHR ''%'' \<and> is_hex b \<and> is_hex c) \<or> looks_escaped (b # c # cs))"
| "looks_escaped _ = False"

text \<open>
  The part of \<open>write_url\<close> between the string length check and the URL length
  check: the escaped URL, the location string and the final link type.
  \<open>url, url_str = url.split('#')\<close> raises ValueError when the URL has a second
  \<open>#\<close>.
\<close>

definition url_location :: "int \<Rightarrow> string \<Rightarrow> string \<Rightarrow> py_error + (string \<times> string option \<times> int)" where
  "url_location link_type u string =
     (if link_type = 1
      then Inr (if \<not> looks_escaped u then escape_url u else u, None, link_type)
      else if link_type = 3
      then
        (if CHR ''#'' \<in> set u \<and> count_list u (CHR ''#'') \<noteq> 1 then Inl ValueError
         else
           let u1 = (if CHR ''#'' \<in> set u then takeWhile (\<lambda>c. c \<noteq> CHR ''#'') u else u);
               url_str = (if CHR ''#'' \<in> set u then Some (tl (dropWhile (\<lambda>c. c \<noteq> CHR ''#'') u))
                          else None);
               u2 = (if (case u1 of a # b # _ \<Rightarrow> is_word a \<and> b = CHR '':'' | _ \<Rightarrow> False)
                        \<or> startswith u1 [CHR 0x5C]
                     then ''file:///'' @ u1 else u1);
               u3 = (if startswith u2 [CHR ''.'', CHR 0x5C] then drop 2 u2 else u2)
           in Inr (u3, url_str, 1))
      else Inr (u, Some string, link_type))"

text \<open>
  The start of \<open>write_url\<close>, before the bounds check: the link type, the URL
  without its \<open>internal:\<close> or \<open>external:\<close> scheme, and the string to display.
\<close>

definition url_display :: "string \<Rightarrow> string option \<Rightarrow> int \<times> string \<times> string" where
  "url_display url0 string0 =
     (let internal = startswith url0 ''internal:'';
          url1 = (if internal then replace url0 ''internal:'' [] else url0);
          external = startswith url1 ''external:'';
          url2 = (if external then replace url1 ''external:'' [] else url1);
          link_type = (if external then 3 else if internal then 2 else 1);
          string1 = (case string0 of None \<Rightarrow> url2 | Some x \<Rightarrow> x);
          url3 = (if link_type = 3 then replace url2 ''/'' [CHR 0x5C] else url2);
          string2 = (if link_type = 3 then replace string1 ''/'' [CHR 0x5C] else string1)
      in (link_type, url3, replace string2 ''mailto:'' []))"

definition write_url ::
  "int \<Rightarrow> int \<Rightarrow> string \<Rightarrow> format option \<Rightarrow> string option \<Rightarrow> string option \<Rightarrow> worksheet \<Rightarrow> outcome \<times> worksheet" where
  "write_url row col url0 cell_format string0 tip s =
     (case url_display url0 string0 of
        (link_type, url3, string) \<Rightarrow>
          case check_dimensions row col False False s of
           (rc, s1) \<Rightarrow>
             if rc \<noteq> 0 then (Return (-1), s1)
             else if length string > xls_strmax then (Return (-2), s1)
             else
               case url_location link_type url3 string of
                 Inl e \<Rightarrow> (Raise e, s1)
               | Inr (url, url_str, link_type1) \<Rightarrow>
                   if length url > 255 then (Return (-3), s1)
                   else
                     let s2 = s1\<lparr>hlink_count := hlink_count s1 + 1\<rparr>
                     in if hlink_count s2 > 65530 then (Return (-5), s2)
                        else
                          case (if optimization s2 = 1 \<and> row > previous_row s2
                                then write_single_row row s2 else (None, s2)) of
                            (Some e, s3) \<Rightarrow> (Raise e, s3)
                          | (None, s3) \<Rightarrow>
                              (case write_string row col string cell_format s3 of
                                 (Raise e, s4) \<Rightarrow> (Raise e, s4)
                               | (Return _, s4) \<Rightarrow>
                                   (Return 0,
                                    s4\<lparr>hyperlinks := (hyperlinks s4)
                                          (row := (hyperlinks s4 row)
                                             (col \<mapsto> \<lparr>hl_link_type = link_type1, hl_url = url,
                                                      hl_str = url_str, hl_tip = tip\<rparr>))\<rparr>)))"

subsection \<open>Rich strings\<close>

datatype rich_token = RFormat format | RString string

text \<open>
  \<open>Format()\<close>, the format of the fragments that have none: the font run of the
  default font.
\<close>

definition default_format :: format where
  \<open>default_format =
     \<lparr>xf_index = 0,
      font_xml = ''<rPr><sz val="11"/><color theme="1"/><rFont val="Calibri"/><family val="2"/><scheme val="minor"/></rPr>''\<rparr>\<close>

text \<open>
  The first loop of \<open>write_rich_string\<close>: \<open>None\<close> is the return of \<open>-3\<close> for two
  formats in a row, otherwise the fragments and the length of the text.
\<close>

fun rich_fragments :: "rich_token list \<Rightarrow> bool \<Rightarrow> nat \<Rightarrow> rich_token list \<Rightarrow> nat
                         \<Rightarrow> (rich_token list \<times> nat) option" where
  "rich_fragments [] previous_format pos fragments str_length = Some (fragments, str_length)"
| "rich_fragments (RString txt # rest) previous_format pos fragments str_length =
     rich_fragments rest False (pos + 1)
       (if previous_format then fragments @ [RString txt]
        else fragments @ [RFormat default_format, RString txt])
       (str_length + length txt)"
| "rich_fragments (RFormat f # rest) previous_format pos fragments str_length =
     (if previous_format \<and> pos > 0 then None
      else rich_fragments rest True (pos + 1) (fragments @ [RFormat f]) str_length)"

text \<open>
  Modelled from the spec: the generic XML writer and escaper (xmlwriter.py), here the
  text of a start tag, of an end tag and of a data element, whose data has
  \<open>&\<close>, \<open><\<close> and \<open>>\<close> escaped.
\<close>

definition escape_data :: "string \<Rightarrow> string" where
  "escape_data d = replace (replace (replace d ''&'' ''&amp;'') ''<'' ''&lt;'') ''>'' ''&gt;''"

definition rich_fragment_xml :: "rich_token \<Rightarrow> string" where
  \<open>rich_fragment_xml token =
     (case token of
        RFormat f \<Rightarrow> ''<r>'' @ font_xml f
      | RString txt \<Rightarrow>
          (if txt \<noteq> [] \<and> (is_space (hd txt) \<or> is_space (last txt))
           then ''<t xml:space="preserve">'' else ''<t>'')
          @ escape_data txt @ ''</t>'' @ ''</r>'')\<close>

text \<open>
  The part of \<open>write_rich_string\<close> between the bounds check and the store, which
  changes nothing of the worksheet: the outcome that ends the call there, or the
  markup of the string and the format of the cell.
\<close>

definition rich_string :: "rich_token list \<Rightarrow> outcome + string \<times> format option" where
  "rich_string args =
     (if args = [] then Inl (Raise IndexError)
      else
        let cell_format = (case last args of RFormat f \<Rightarrow> Some f | RString _ \<Rightarrow> None);
            tokens = (case last args of RFormat f \<Rightarrow> butlast args | RString _ \<Rightarrow> args)
        in case rich_fragments tokens True 0 [] 0 of
             None \<Rightarrow> Inl (Return (-3))
           | Some (fragments, str_length) \<Rightarrow>
               if fragments = [] then Inl (Raise IndexError)
               else
                 let string = (case hd fragments of RFormat _ \<Rightarrow> [] | RString _ \<Rightarrow> ''<r>'')
                              @ concat (map rich_fragment_xml fragments)
                 in if str_length > xls_strmax then Inl (Return (-2))
                    else Inr (string, cell_format))"

definition write_rich_string :: "int \<Rightarrow> int \<Rightarrow> rich_token list \<Rightarrow> worksheet \<Rightarrow> outcome \<times> worksheet" where
  "write_rich_string row col args s =
     (case check_dimensions row col False False s of
        (rc, s1) \<Rightarrow>
          if rc \<noteq> 0 then (Return (-1), s1)
          else
            case rich_string args of
              Inl ended \<Rightarrow> (ended, s1)
            | Inr (string, cell_format) \<Rightarrow>
                let new_index = get_shared_string_index string (str_table s1);
                    string_index = (if optimization s1 = 0 then SharedIndex (fst new_index)
                                    else InlineText string);
                    s2 = (if optimization s1 = 0 then s1\<lparr>str_table := snd new_index\<rparr>
                          else s1)
                in case write_previous_row row s2 of
                     (Some e, s3) \<Rightarrow> (Raise e, s3)
                   | (None, s3) \<Rightarrow>
                       (Return 0, store_cell row col (String string_index cell_format) s3))"

subsection \<open>The generic write and merged ranges\<close>

text \<open>
  The method \<open>write()\<close> is \<open>write_generic\<close> here. Its token is tagged by the checks that the method makes on it in
  order: \<open>None\<close>, a supported datetime object, a token that \<open>float()\<close> converts
  (\<open>TokNumeric\<close>, with the float), and a text on which \<open>float()\<close> raises ValueError.
\<close>

datatype token = TokNone | TokDatetime date_arg | TokNumeric real | TokText string

text \<open>\<open>re.match('[fh]tt?ps?://', token)\<close>.\<close>

definition is_web_url :: "string \<Rightarrow> bool" where
  "is_web_url txt =
     list_ex (\<lambda>p. prefix p txt)
       [a @ b @ c @ ''://''. a \<leftarrow> [''f'', ''h''], b \<leftarrow> [''tt'', ''t''], c \<leftarrow> [''ps'', ''p'']]"

definition write_generic :: "int \<Rightarrow> int \<Rightarrow> token \<Rightarrow> format option \<Rightarrow> worksheet \<Rightarrow> outcome \<times> worksheet" where
  "write_generic row col tok cell_format s =
     (case (case tok of TokNone \<Rightarrow> TokText [] | _ \<Rightarrow> tok) of
        TokDatetime d \<Rightarrow> write_datetime row col d cell_format s
      | TokNumeric x \<Rightarrow> write_number row col x cell_format s
      | TokNone \<Rightarrow> write_blank row col cell_format s
      | TokText txt \<Rightarrow>
          if txt = [] then write_blank row col cell_format s
          else if startswith txt ''='' then write_formula row col txt cell_format (CNumeric 0) s
          else if startswith txt ''{'' \<and> endswith txt ''}''
          then write_formula row col txt cell_format (CNumeric 0) s
          else if is_web_url txt then write_url row col txt cell_format None None s
          else if startswith txt ''mailto:'' then write_url row col txt cell_format None None s
          else if startswith txt ''internal:'' \<or> startswith txt ''external:''
          then write_url row col txt cell_format None None s
          else write_string row col txt cell_format s)"

text \<open>
  \<open>merge_range\<close> returns nothing: the result is the exception, if any, and the
  worksheet.
\<close>

definition merge_range ::
  "int \<Rightarrow> int \<Rightarrow> int \<Rightarrow> int \<Rightarrow> token \<Rightarrow> format option \<Rightarrow> worksheet \<Rightarrow> py_error option \<times> worksheet" where
  "merge_range first_row0 first_col0 last_row0 last_col0 data cell_format s =
     (if first_row0 = last_row0 \<and> first_col0 = last_col0 then (None, s)
      else
        let first_row = (if first_row0 > last_row0 then last_row0 else first_row0);
            last_row = (if first_row0 > last_row0 then first_row0 else last_row0);
            first_col = (if first_col0 > last_col0 then last_col0 else first_col0);
            last_col = (if first_col0 > last_col0 then first_col0 else last_col0)
        in case check_dimensions last_row first_col False False s of
             (rc, s1) \<Rightarrow>
               if rc \<noteq> 0 then (None, s1)
               else
                 let s2 = s1\<lparr>merge := merge s1 @ [(first_row, first_col, last_row, last_col)]\<rparr>
                 in case write_generic first_row first_col data cell_format s2 of
                      (Raise e, s3) \<Rightarrow> (Some e, s3)
                    | (Return _, s3) \<Rightarrow>
                        for_cells (range_cells first_row first_col last_row last_col)
                          (\<lambda>row col. write_blank row col cell_format) s3)"

subsection \<open>The buffered serialiser\<close>

text \<open>\<open>int(row_num / 16)\<close>: the quotient truncated towards zero.\<close>

definition span_index_of :: "int \<Rightarrow> int" where
  "span_index_of row_num = (if row_num \<ge> 0 then row_num div 16 else - ((- row_num) div 16))"

text \<open>
  \<open>_calculate_spans\<close>. The pair is \<open>(span_min, span_max)\<close>, absent while
  \<open>span_min\<close> is \<open>None\<close>. A row of the table that holds no cell leaves the pair as
  it is; the model takes the column range only for a row that has cells or comments.
\<close>

fun span_cols :: "(int \<rightharpoonup> 'a) \<Rightarrow> int list \<Rightarrow> (int \<times> int) option \<Rightarrow> (int \<times> int) option" where
  "span_cols d [] sp = sp"
| "span_cols d (col_num # cols) sp =
     span_cols d cols
       (if d col_num \<noteq> None
        then (case sp of
                None \<Rightarrow> Some (col_num, col_num)
              | Some (span_min, span_max) \<Rightarrow>
                  Some (if col_num < span_min then col_num else span_min,
                        if col_num > span_max then col_num else span_max))
        else sp)"

fun spans_loop :: "worksheet \<Rightarrow> int \<Rightarrow> int list \<Rightarrow> (int \<times> int) option \<Rightarrow> (int \<rightharpoonup> string)
                     \<Rightarrow> py_error + (int \<rightharpoonup> string)" where
  "spans_loop s rowmax [] sp spans = Inr spans"
| "spans_loop s rowmax (row_num # rows) sp spans =
     (if (table s row_num \<noteq> Map.empty \<or> comments s row_num \<noteq> None) \<and> col_range s = None
      then Inl TypeError
      else
        let cols = (case col_range s of Some cs \<Rightarrow> cs | None \<Rightarrow> []);
            sp1 = span_cols (table s row_num) cols sp;
            sp2 = (case comments s row_num of Some d \<Rightarrow> span_cols d cols sp1 | None \<Rightarrow> sp1)
        in if (row_num + 1) mod 16 = 0 \<or> row_num = rowmax
           then (case sp2 of
                   Some (span_min, span_max) \<Rightarrow>
                     spans_loop s rowmax rows None
                       (spans(span_index_of row_num \<mapsto>
                          str_int (span_min + 1) @ '':'' @ str_int (span_max + 1)))
                 | None \<Rightarrow> spans_loop s rowmax rows None spans)
           else spans_loop s rowmax rows sp2 spans)"

definition calculate_spans :: "worksheet \<Rightarrow> py_error option \<times> worksheet" where
  "calculate_spans s =
     (case dim_rowmin s of None \<Rightarrow> (Some TypeError, s)
      | Some lo \<Rightarrow>
          (case dim_rowmax s of None \<Rightarrow> (Some TypeError, s)
           | Some hi \<Rightarrow>
               (case spans_loop s hi [lo..hi] None Map.empty of
                  Inl e \<Rightarrow> (Some e, s)
                | Inr spans \<Rightarrow> (None, s\<lparr>row_spans := spans\<rparr>))))"

text \<open>The body of the loop of \<open>_write_rows\<close> over the rows of the dimension.\<close>

fun write_rows_loop :: "int list \<Rightarrow> worksheet \<Rightarrow> py_error option \<times> worksheet" where
  "write_rows_loop [] s = (None, s)"
| "write_rows_loop (row_num # rows) s =
     (if set_rows s row_num \<noteq> None \<or> comments s row_num \<noteq> None \<or> table s row_num \<noteq> Map.empty
      then
        (let span = row_spans s (span_index_of row_num)
         in if table s row_num \<noteq> Map.empty
            then
              (let s1 = xml_write [write_row s row_num span (set_rows s row_num) False] s
               in case col_range s1 of
                    None \<Rightarrow> (Some TypeError, s1)
                  | Some cols \<Rightarrow>
                      (case write_cells row_num cols s1 of
                         (Some e, s2) \<Rightarrow> (Some e, s2)
                       | (None, s2) \<Rightarrow> write_rows_loop rows (xml_write [EndTag ''row''] s2)))
            else
              write_rows_loop rows
                (xml_write [write_row s row_num span (set_rows s row_num) True] s))
      else write_rows_loop rows s)"

definition write_rows :: "worksheet \<Rightarrow> py_error option \<times> worksheet" where
  "write_rows s =
     (case calculate_spans s of
        (Some e, s1) \<Rightarrow> (Some e, s1)
      | (None, s1) \<Rightarrow>
          (case dim_rowmin s1 of None \<Rightarrow> (Some TypeError, s1)
           | Some lo \<Rightarrow>
               (case dim_rowmax s1 of None \<Rightarrow> (Some TypeError, s1)
                | Some hi \<Rightarrow> write_rows_loop [lo..hi] s1)))"

definition write_sheet_data :: "worksheet \<Rightarrow> py_error option \<times> worksheet" where
  "write_sheet_data s =
     (if dim_rowmin s = None then (None, xml_write [EmptyTag ''sheetData'' []] s)
      else
        case write_rows (xml_write [StartTag ''sheetData'' []] s) of
          (Some e, s1) \<Rightarrow> (Some e, s1)
        | (None, s1) \<Rightarrow> (None, xml_write [EndTag ''sheetData''] s1))"

text \<open>
  \<open>_write_optimized_sheet_data\<close>: the row data file is copied into the sheet file and
  removed.
\<close>

definition write_optimized_sheet_data :: "worksheet \<Rightarrow> worksheet" where
  "write_optimized_sheet_data s =
     (if dim_rowmin s = None then xml_write [EmptyTag ''sheetData'' []] s
      else
        let s1 = xml_write [StartTag ''sheetData'' []] s;
            s2 = xml_write (files s1 RowDataFile) s1;
            s3 = s2\<lparr>files := (files s2)(RowDataFile := [])\<rparr>
        in xml_write [EndTag ''sheetData''] s3)"

text \<open>
  Modelled from the spec: the step of the packager (packager.py) that closes a sheet.
  In streaming mode the row still held in memory is flushed with
  \<open>_write_single_row()\<close>, whose argument defaults to 0, the XML writer is set to the
  sheet file and the sheet data is assembled from the row data file ("appended to
  incrementally as rows flush, fully drained and removed exactly once at close"). In
  buffered mode the sheet data is written from the table.
\<close>

definition close_sheet_data :: "worksheet \<Rightarrow> py_error option \<times> worksheet" where
  "close_sheet_data s =
     (if optimization s = 1
      then (case write_single_row 0 s of
              (Some e, s1) \<Rightarrow> (Some e, s1)
            | (None, s1) \<Rightarrow> (None, write_optimized_sheet_data (s1\<lparr>fh := SheetFile\<rparr>)))
      else if optimization s = 0 then write_sheet_data (s\<lparr>fh := SheetFile\<rparr>)
      else (None, write_optimized_sheet_data (s\<lparr>fh := SheetFile\<rparr>)))"

subsection \<open>Autofilter criteria\<close>

text \<open>
  \<open>_extract_filter_tokens\<close>. The regular expression
  \<open>"(?:[^"]|"")*"|\S+\<close> is tried at every position. \<open>quoted_len\<close> is its first
  alternative after the opening quote: the count of the characters matched so far,
  and the match that backtracking falls back to (it ends at the first quote of the
  last doubled quote) when the text ends before a closing quote.
\<close>

fun quoted_len :: "string \<Rightarrow> nat \<Rightarrow> nat option \<Rightarrow> nat option" where
  "quoted_len [] n fallback = fallback"
| "quoted_len (c # cs) n fallback =
     (if c \<noteq> CHR 0x22 then quoted_len cs (n + 1) fallback
      else (case cs of
              [] \<Rightarrow> Some (n + 1)
            | d # ds \<Rightarrow> if d = CHR 0x22 then quoted_len ds (n + 2) (Some (n + 1))
                        else Some (n + 1)))"

function findall_tokens :: "string \<Rightarrow> string list" where
  "findall_tokens [] = []"
| "findall_tokens (c # cs) =
     (case (if c = CHR 0x22 then quoted_len cs 1 None else None) of
        Some n \<Rightarrow> take n (c # cs) # findall_tokens (drop (n - 1) cs)
      | None \<Rightarrow>
          if is_space c then findall_tokens cs
          else (c # takeWhile (\<lambda>x. \<not> is_space x) cs)
               # findall_tokens (dropWhile (\<lambda>x. \<not> is_space x) cs))"
  by pat_completeness auto
termination
  by (relation "measure length") (auto simp: le_imp_less_Suc length_dropWhile_le)

definition unquote_token :: "string \<Rightarrow> string" where
  "unquote_token token =
     (let token1 = (if startswith token [CHR 0x22] then tl token else token);
          token2 = (if endswith token1 [CHR 0x22] then butlast token1 else token1)
      in replace token2 [CHR 0x22, CHR 0x22] [CHR 0x22])"

definition extract_filter_tokens :: "string \<Rightarrow> string list" where
  "extract_filter_tokens expression =
     (if expression = [] then [] else map unquote_token (findall_tokens expression))"

text \<open>
  The elements of the list that the parser returns: an operator code, \<open>None\<close> for
  an unknown operator, or a text.
\<close>

datatype filter_value = FInt int | FNone | FStr string

definition operators :: "(string \<times> int) list" where
  "operators =
     [(''=='', 2), (''='', 2), (''=~'', 2), (''eq'', 2),
      (''!='', 5), (''!~'', 5), (''ne'', 5), (''<>'', 5),
      (''<'', 1), (''<='', 3), (''>'', 4), (''>='', 6)]"

text \<open>
  \<open>int(text)\<close>: decimal digits with an optional sign, surrounding whitespace
  stripped, and single underscores between the digits; any other text raises
  ValueError (\<open>None\<close>).
\<close>

fun digit_groups :: "string \<Rightarrow> bool" where
  "digit_groups [] = False"
| "digit_groups [c] = is_digit c"
| "digit_groups (c # d # cs) =
     (is_digit c \<and> (if d = CHR ''_'' then digit_groups cs else digit_groups (d # cs)))"

definition strip :: "string \<Rightarrow> string" where
  "strip txt = rev (dropWhile is_space (rev (dropWhile is_space txt)))"

definition int_of_string :: "string \<Rightarrow> int option" where
  "int_of_string txt =
     (let body0 = strip txt;
          body = (case body0 of c # cs \<Rightarrow> if c = CHR ''-'' \<or> c = CHR ''+'' then cs else body0
                  | [] \<Rightarrow> []);
          magnitude = foldl (\<lambda>acc c. acc * 10 + int (ord c - 48)) 0
                        (filter (\<lambda>c. c \<noteq> CHR ''_'') body)
      in if \<not> digit_groups body then None
         else Some (if startswith body0 ''-'' then - magnitude else magnitude))"

text \<open>
  \<open>_parse_filter_tokens\<close>. Its exceptions: IndexError for a missing token, ValueError
  of \<open>int()\<close> in a top or bottom expression, and TypeError in a top or bottom
  expression whose third token is neither \<open>items\<close> nor \<open>%\<close>: the message of that
  warning ends its format string with a bare \<open>%\<close>, for which the formatting has no
  argument; IndexError again for \<open>token[0]\<close> of an empty token.
\<close>

definition parse_filter_tokens :: "string \<Rightarrow> string list \<Rightarrow> py_error + filter_value list" where
  "parse_filter_tokens expression tokens =
     (if length tokens < 2 then Inl IndexError
      else if length tokens < 3 then Inl IndexError
      else
        let operator0 = map_of operators (tokens ! 1);
            token0 = tokens ! 2;
            top = startswith (lower (tokens ! 0)) ''top'' \<or> startswith (lower (tokens ! 0)) ''bottom''
        in case (if top then int_of_string (tokens ! 1) else Some 0) of
             None \<Rightarrow> Inl ValueError
           | Some v \<Rightarrow>
             if top \<and> lower token0 \<noteq> ''items'' \<and> lower token0 \<noteq> ''%'' then Inl TypeError
             else
             let operator1 =
                   (if top
                    then Some ((if lower (tokens ! 0) = ''top'' then 30 else 32)
                               + (if tokens ! 2 = ''%'' then 1 else 0))
                    else operator0);
                 token1 = (if top then str_int v else token0)
             in if operator1 = None \<and> tokens ! 0 \<noteq> [] \<and> token1 = [] then Inl IndexError
                else
                  let blanks = startswith (lower token1) ''blanks''
                               \<or> startswith (lower token1) ''nonblanks'';
                      token2 = (if blanks then lower token1 else token1);
                      operator2 =
                        (if blanks \<and> token2 \<noteq> ''blanks''
                         then (if operator1 = Some 5 then Some 2 else Some 5)
                         else operator1);
                      token3 =
                        (if blanks
                         then (if token2 = ''blanks''
                               then (if operator1 = Some 5 then '' '' else token2)
                               else (if operator1 = Some 5 then ''blanks'' else '' ''))
                         else token2);
                      operator3 =
                        (if operator2 = Some 2 \<and> (CHR ''*'' \<in> set token3 \<or> CHR ''?'' \<in> set token3)
                         then Some 22 else operator2)
                  in Inr [case operator3 of None \<Rightarrow> FNone | Some code \<Rightarrow> FInt code, FStr token3])"

definition parse_filter_expression :: "string \<Rightarrow> string list \<Rightarrow> py_error + filter_value list" where
  "parse_filter_expression expression tokens =
     (if length tokens = 7
      then
        (let conditional =
               (if startswith (tokens ! 3) ''and'' \<or> startswith (tokens ! 3) ''&&'' then FInt 0
                else if startswith (tokens ! 3) ''or'' \<or> startswith (tokens ! 3) ''||'' then FInt 1
                else FStr (tokens ! 3))
         in case parse_filter_tokens expression (take 3 tokens) of
              Inl e \<Rightarrow> Inl e
            | Inr expression_1 \<Rightarrow>
                (case parse_filter_tokens expression (drop 4 tokens) of
                   Inl e \<Rightarrow> Inl e
                 | Inr expression_2 \<Rightarrow> Inr (expression_1 @ [conditional] @ expression_2)))
      else parse_filter_tokens expression tokens)"

subsection \<open>Conditional formats: the synthesised formulas\<close>

text \<open>The two tables of \<open>conditional_format\<close> that rename the type and the criteria.\<close>

definition valid_type :: "(string \<times> string) list" where
  "valid_type =
     [(''cell'', ''cellIs''), (''date'', ''date''), (''time'', ''time''),
      (''average'', ''aboveAverage''), (''duplicate'', ''duplicateValues''),
      (''unique'', ''uniqueValues''), (''top'', ''top10''), (''bottom'', ''top10''),
      (''text'', ''text''), (''time_period'', ''timePeriod''),
      (''blanks'', ''containsBlanks''), (''no_blanks'', ''notContainsBlanks''),
      (''errors'', ''containsErrors''), (''no_errors'', ''notContainsErrors''),
      (''2_color_scale'', ''2_color_scale''), (''3_color_scale'', ''3_color_scale''),
      (''data_bar'', ''dataBar''), (''formula'', ''expression'')]"

definition criteria_type :: "(string \<times> string) list" where
  "criteria_type =
     [(''between'', ''between''), (''not between'', ''notBetween''),
      (''equal to'', ''equal''), (''='', ''equal''), (''=='', ''equal''),
      (''not equal to'', ''notEqual''), (''!='', ''notEqual''), (''<>'', ''notEqual''),
      (''greater than'', ''greaterThan''), (''>'', ''greaterThan''),
      (''less than'', ''lessThan''), (''<'', ''lessThan''),
      (''greater than or equal to'', ''greaterThanOrEqual''), (''>='', ''greaterThanOrEqual''),
      (''less than or equal to'', ''lessThanOrEqual''), (''<='', ''lessThanOrEqual''),
      (''containing'', ''containsText''), (''not containing'', ''notContains''),
      (''begins with'', ''beginsWith''), (''ends with'', ''endsWith''),
      (''yesterday'', ''yesterday''), (''today'', ''today''),
      (''last 7 days'', ''last7Days''), (''last week'', ''lastWeek''),
      (''this week'', ''thisWeek''), (''continue week'', ''continueWeek''),
      (''last month'', ''lastMonth''), (''this month'', ''thisMonth''),
      (''continue month'', ''continueMonth'')]"

text \<open>
  The formula that \<open>conditional_format\<close> stores in \<open>options['formula']\<close>, from the
  type and the criteria as the two tables renamed them, the value and the start cell
  of the range. \<open>None\<close> when no formula is synthesised; a text rule reads
  \<open>options['criteria']\<close> and \<open>options['value']\<close>, a time period rule
  \<open>options['criteria']\<close>, and a missing key raises KeyError.
\<close>

definition text_formula :: "string \<Rightarrow> string \<Rightarrow> string \<Rightarrow> string option" where
  \<open>text_formula criteria v start_cell =
     (if criteria = ''containsText''
      then Some (''NOT(ISERROR(SEARCH("'' @ v @ ''",'' @ start_cell @ '')))'')
      else if criteria = ''notContains''
      then Some (''ISERROR(SEARCH("'' @ v @ ''",'' @ start_cell @ ''))'')
      else if criteria = ''beginsWith''
      then Some (''LEFT('' @ start_cell @ '','' @ str_int (int (length v)) @ '')="'' @ v @ ''"'')
      else if criteria = ''endsWith''
      then Some (''RIGHT('' @ start_cell @ '','' @ str_int (int (length v)) @ '')="'' @ v @ ''"'')
      else None)\<close>

definition time_period_formula :: "string \<Rightarrow> string \<Rightarrow> string option" where
  "time_period_formula criteria start_cell =
     (if criteria = ''yesterday'' then Some (''FLOOR('' @ start_cell @ '',1)=TODAY()-1'')
      else if criteria = ''today'' then Some (''FLOOR('' @ start_cell @ '',1)=TODAY()'')
      else if criteria = ''tomorrow'' then Some (''FLOOR('' @ start_cell @ '',1)=TODAY()+1'')
      else if criteria = ''last7Days''
      then Some (''AND(TODAY()-FLOOR('' @ start_cell @ '',1)<=6,FLOOR('' @ start_cell
                 @ '',1)<=TODAY())'')
      else if criteria = ''lastWeek''
      then Some (''AND(TODAY()-ROUNDDOWN('' @ start_cell @ '',0)>=(WEEKDAY(TODAY())),''
                 @ ''TODAY()-ROUNDDOWN('' @ start_cell @ '',0)<(WEEKDAY(TODAY())+7))'')
      else if criteria = ''thisWeek''
      then Some (''AND(TODAY()-ROUNDDOWN('' @ start_cell @ '',0)<=WEEKDAY(TODAY())-1,''
                 @ ''ROUNDDOWN('' @ start_cell @ '',0)-TODAY()<=7-WEEKDAY(TODAY()))'')
      else if criteria = ''continueWeek''
      then Some (''AND(ROUNDDOWN('' @ start_cell @ '',0)-TODAY()>(7-WEEKDAY(TODAY())),''
                 @ ''ROUNDDOWN('' @ start_cell @ '',0)-TODAY()<(15-WEEKDAY(TODAY())))'')
      else if criteria = ''lastMonth''
      then Some (''AND(MONTH('' @ start_cell @ '')=MONTH(TODAY())-1,OR(YEAR('' @ start_cell
                 @ '')=YEAR('' @ ''TODAY()),AND(MONTH('' @ start_cell
                 @ '')=1,YEAR(A1)=YEAR(TODAY())-1)))'')
      else if criteria = ''thisMonth''
      then Some (''AND(MONTH('' @ start_cell @ '')=MONTH(TODAY()),YEAR('' @ start_cell
                 @ '')=YEAR(TODAY()))'')
      else if criteria = ''continueMonth''
      then Some (''AND(MONTH('' @ start_cell @ '')=MONTH(TODAY())+1,OR(YEAR('' @ start_cell
                 @ '')=YEAR('' @ ''TODAY()),AND(MONTH('' @ start_cell @ '')=12,YEAR('' @ start_cell
                 @ '')=YEAR(TODAY())+1)))'')
      else None)"

definition synthesise_formula ::
  "string \<Rightarrow> string option \<Rightarrow> string option \<Rightarrow> string \<Rightarrow> py_error + string option" where
  "synthesise_formula typ criteria v start_cell =
     (if typ = ''text''
      then (case criteria of None \<Rightarrow> Inl KeyError
            | Some c \<Rightarrow>
                if c = ''containsText'' \<or> c = ''notContains'' \<or> c = ''beginsWith'' \<or> c = ''endsWith''
                then (case v of None \<Rightarrow> Inl KeyError | Some x \<Rightarrow> Inr (text_formula c x start_cell))
                else Inr None)
      else if typ = ''timePeriod''
      then (case criteria of None \<Rightarrow> Inl KeyError
            | Some c \<Rightarrow> Inr (time_period_formula c start_cell))
      else if typ = ''containsBlanks'' then Inr (Some (''LEN(TRIM('' @ start_cell @ ''))=0''))
      else if typ = ''notContainsBlanks'' then Inr (Some (''LEN(TRIM('' @ start_cell @ ''))>0''))
      else if typ = ''containsErrors'' then Inr (Some (''ISERROR('' @ start_cell @ '')''))
      else if typ = ''notContainsErrors'' then Inr (Some (''NOT(ISERROR('' @ start_cell @ ''))''))
      else Inr None)"

text \<open>
  The path of \<open>conditional_format\<close> from its arguments to the formula: the two
  corners of the range are checked against the bounds, without storing them (the call
  returns \<open>-1\<close> for a corner out of bounds, here \<open>Inr None\<close> as no formula is
  stored), the type must be a key of the first table (the call returns \<open>-2\<close>
  otherwise, \<open>Inr None\<close> again), the criteria is renamed when it is a key of the
  second, the range is put in order and its first cell is the start cell.
\<close>

definition conditional_format_formula ::
  "int \<Rightarrow> int \<Rightarrow> int \<Rightarrow> int \<Rightarrow> string \<Rightarrow> string option \<Rightarrow> string option \<Rightarrow> worksheet
     \<Rightarrow> py_error + string option" where
  "conditional_format_formula first_row0 first_col0 last_row0 last_col0 typ criteria v s =
     (if fst (check_dimensions first_row0 first_col0 True True s) \<noteq> 0 then Inr None
      else if fst (check_dimensions last_row0 last_col0 True True s) \<noteq> 0 then Inr None
      else
      case map_of valid_type typ of
        None \<Rightarrow> Inr None
      | Some typ1 \<Rightarrow>
          let criteria1 = (case criteria of None \<Rightarrow> None
                           | Some c \<Rightarrow> (case map_of criteria_type c of None \<Rightarrow> Some c
                                        | Some c1 \<Rightarrow> Some c1));
              first_row = (if first_row0 > last_row0 then last_row0 else first_row0);
              first_col = (if first_col0 > last_col0 then last_col0 else first_col0);
              start_cell = xl_rowcol_to_cell first_row first_col
          in synthesise_formula typ1 criteria1 v start_cell)"

subsection \<open>Calls as data\<close>

text \<open>
  The typed write methods as one datatype of calls, to state a property of every typed
  write and of a sequence of writes. \<open>op_row\<close> and \<open>op_col\<close> are the row and the
  column that the call checks against the bounds: for an array formula the last row
  and the last column of its range, once the range is put in order.
\<close>

datatype write_op =
    WriteString int int string "format option"
  | WriteNumber int int real "format option"
  | WriteBlank int int "format option"
  | WriteFormula int int string "format option" cached
  | WriteArrayFormula int int int int string "format option" cached
  | WriteDatetime int int date_arg "format option"
  | WriteUrl int int string "format option" "string option" "string option"
  | WriteRichString int int "rich_token list"

fun apply_write :: "write_op \<Rightarrow> worksheet \<Rightarrow> outcome \<times> worksheet" where
  "apply_write (WriteString row col string cell_format) s = write_string row col string cell_format s"
| "apply_write (WriteNumber row col number cell_format) s = write_number row col number cell_format s"
| "apply_write (WriteBlank row col cell_format) s = write_blank row col cell_format s"
| "apply_write (WriteFormula row col formula cell_format v) s =
     write_formula row col formula cell_format v s"
| "apply_write (WriteArrayFormula first_row first_col last_row last_col formula cell_format v) s =
     write_array_formula first_row first_col last_row last_col formula cell_format v s"
| "apply_write (WriteDatetime row col date cell_format) s = write_datetime row col date cell_format s"
| "apply_write (WriteUrl row col u cell_format string tip) s =
     write_url row col u cell_format string tip s"
| "apply_write (WriteRichString row col args) s = write_rich_string row col args s"

fun op_row :: "write_op \<Rightarrow> int" where
  "op_row (WriteString row _ _ _) = row"
| "op_row (WriteNumber row _ _ _) = row"
| "op_row (WriteBlank row _ _) = row"
| "op_row (WriteFormula row _ _ _ _) = row"
| "op_row (WriteArrayFormula first_row _ last_row _ _ _ _) = max first_row last_row"
| "op_row (WriteDatetime row _ _ _) = row"
| "op_row (WriteUrl row _ _ _ _ _) = row"
| "op_row (WriteRichString row _ _) = row"

fun op_col :: "write_op \<Rightarrow> int" where
  "op_col (WriteString _ col _ _) = col"
| "op_col (WriteNumber _ col _ _) = col"
| "op_col (WriteBlank _ col _) = col"
| "op_col (WriteFormula _ col _ _ _) = col"
| "op_col (WriteArrayFormula _ first_col _ last_col _ _ _) = max first_col last_col"
| "op_col (WriteDatetime _ col _ _) = col"
| "op_col (WriteUrl _ col _ _ _ _) = col"
| "op_col (WriteRichString _ col _) = col"

text \<open>A call of \<open>write_blank\<close> that passes no format.\<close>

fun blank_without_format :: "write_op \<Rightarrow> bool" where
  "blank_without_format (WriteBlank _ _ None) = True"
| "blank_without_format _ = False"

text \<open>A call of \<open>write_string\<close>.\<close>

fun is_write_string :: "write_op \<Rightarrow> bool" where
  "is_write_string (WriteString _ _ _ _) = True"
| "is_write_string _ = False"

text \<open>A call of \<open>write_url\<close>, and a call of \<open>write_rich_string\<close>.\<close>

fun is_write_url :: "write_op \<Rightarrow> bool" where
  "is_write_url (WriteUrl _ _ _ _ _ _) = True"
| "is_write_url _ = False"

fun is_write_rich_string :: "write_op \<Rightarrow> bool" where
  "is_write_rich_string (WriteRichString _ _ _) = True"
| "is_write_rich_string _ = False"

text \<open>
  The table of a worksheet in optimisation mode holds texts: no String cell holds a
  shared string index.
\<close>

definition inline_strings :: "worksheet \<Rightarrow> bool" where
  "inline_strings s = (\<forall>row col i f. table s row col \<noteq> Some (String (SharedIndex i) f))"

text \<open>
  The elements of the cells of a row over a range of columns, and the elements that
  \<open>_write_single_row\<close> writes for the row held in memory, when nothing raises.
\<close>

definition cells_xml :: "worksheet \<Rightarrow> int \<Rightarrow> int list \<Rightarrow> xml list" where
  "cells_xml s row_num cols =
     concat (map (\<lambda>col_num. case table s row_num col_num of
                               None \<Rightarrow> []
                             | Some col_ref \<Rightarrow>
                                 (case cell_xml s row_num col_num col_ref of
                                    Inl _ \<Rightarrow> [] | Inr elements \<Rightarrow> elements)) cols)"

definition single_row_xml :: "worksheet \<Rightarrow> xml list" where
  "single_row_xml s =
     (let row_num = previous_row s
      in if table s row_num \<noteq> Map.empty
         then [write_row s row_num None (set_rows s row_num) False]
              @ cells_xml s row_num (case col_range s of Some cols \<Rightarrow> cols | None \<Rightarrow> [])
              @ [EndTag ''row'']
         else if set_rows s row_num \<noteq> None \<or> comments s row_num \<noteq> None
         then [write_row s row_num None (set_rows s row_num) True]
         else [])"

text \<open>
  The worksheet after the row held in memory is written out and the table is reset,
  as \<open>_write_single_row\<close> leaves it when nothing raises.
\<close>

definition flushed :: "int \<Rightarrow> worksheet \<Rightarrow> worksheet" where
  "flushed current_row_num s =
     (xml_write (single_row_xml s) s)\<lparr>previous_row := current_row_num, table := (\<lambda>_. Map.empty)\<rparr>"

text \<open>
  The worksheet after the idiom that writes the previous row, when nothing raises.
\<close>

definition after_previous_row :: "int \<Rightarrow> worksheet \<Rightarrow> worksheet" where
  "after_previous_row row s =
     (if optimization s \<noteq> 0 \<and> row > previous_row s then flushed row s else s)"

text \<open>
  A call that targets the cells of one row: every typed write but an array formula
  over several rows. \<open>anchor_col\<close> is the column of the cell that the call stores: for
  an array formula the first column of its range, once the range is put in order.
\<close>

fun single_row_op :: "write_op \<Rightarrow> bool" where
  "single_row_op (WriteArrayFormula first_row _ last_row _ _ _ _) = (first_row = last_row)"
| "single_row_op _ = True"

fun anchor_col :: "write_op \<Rightarrow> int" where
  "anchor_col (WriteArrayFormula _ first_col _ last_col _ _ _) = min first_col last_col"
| "anchor_col w = op_col w"

text \<open>
  The results with which a typed write has stored its cell: 0, and for
  \<open>write_string\<close> also -2; \<open>write_blank\<close> without a format returns 0 and stores
  nothing.
\<close>

fun accepted :: "write_op \<Rightarrow> outcome \<Rightarrow> bool" where
  "accepted (WriteString _ _ _ _) out = (out = Return 0 \<or> out = Return (-2))"
| "accepted (WriteBlank _ _ None) out = False"
| "accepted _ out = (out = Return 0)"

text \<open>The table holds cells of the current row \<open>previous_row\<close> only.\<close>

definition one_row_retained :: "worksheet \<Rightarrow> bool" where
  "one_row_retained s = (\<forall>row. row \<noteq> previous_row s \<longrightarrow> table s row = Map.empty)"

section \<open>Properties\<close>

subsection \<open>The bounds check\<close>

lemma check_dimensions_out_of_bounds:
  "row \<ge> xls_rowmax \<or> col \<ge> xls_colmax \<Longrightarrow> check_dimensions row col ir ic s = (-1, s)"
  by (auto simp: check_dimensions_def)

lemma check_dimensions_buffered:
  "row < xls_rowmax \<Longrightarrow> col < xls_colmax \<Longrightarrow> optimization s \<noteq> 1
   \<Longrightarrow> fst (check_dimensions row col False False s) = 0"
  by (auto simp: check_dimensions_def Let_def)

lemma check_dimensions_frame:
  "check_dimensions row col ir ic s = (rc, s1) \<Longrightarrow>
     table s1 = table s \<and> optimization s1 = optimization s \<and> previous_row s1 = previous_row s
     \<and> hyperlinks s1 = hyperlinks s \<and> str_table s1 = str_table s \<and> files s1 = files s
     \<and> fh s1 = fh s \<and> merge s1 = merge s \<and> hlink_count s1 = hlink_count s
     \<and> set_rows s1 = set_rows s \<and> comments s1 = comments s \<and> col_formats s1 = col_formats s"
  by (auto simp: check_dimensions_def Let_def split: if_splits)

subsection \<open>The XML writer and the cells of a row\<close>

lemma check_dimensions_again:
  "check_dimensions row col False False s = (0, s1) \<Longrightarrow>
   fst (check_dimensions row col False False s1) = 0"
  by (auto simp: check_dimensions_def Let_def split: if_splits)

lemma check_dimensions_result:
  "fst (check_dimensions row col ir ic s) = 0 \<or> check_dimensions row col ir ic s = (-1, s)"
  by (auto simp: check_dimensions_def Let_def)

lemma check_dimensions_col_range:
  "check_dimensions row col False False s = (0, s1) \<Longrightarrow> col_range s1 \<noteq> None"
  by (auto simp: check_dimensions_def Let_def col_range_def split: if_splits option.splits)

lemma xml_write_fields [simp]:
  "table (xml_write evs s) = table s" "set_rows (xml_write evs s) = set_rows s"
  "comments (xml_write evs s) = comments s" "col_formats (xml_write evs s) = col_formats s"
  "optimization (xml_write evs s) = optimization s" "previous_row (xml_write evs s) = previous_row s"
  "dim_rowmin (xml_write evs s) = dim_rowmin s" "dim_rowmax (xml_write evs s) = dim_rowmax s"
  "dim_colmin (xml_write evs s) = dim_colmin s" "dim_colmax (xml_write evs s) = dim_colmax s"
  "fh (xml_write evs s) = fh s" "str_table (xml_write evs s) = str_table s"
  "hyperlinks (xml_write evs s) = hyperlinks s" "merge (xml_write evs s) = merge s"
  "hlink_count (xml_write evs s) = hlink_count s"
  "default_row_height (xml_write evs s) = default_row_height s"
  "excel_version (xml_write evs s) = excel_version s" "row_spans (xml_write evs s) = row_spans s"
  "files (xml_write evs s) = (files s)(fh s := files s (fh s) @ evs)"
  by (simp_all add: xml_write_def)

lemma xml_write_append: "xml_write b (xml_write a s) = xml_write (a @ b) s"
  by (simp add: xml_write_def)

lemma xml_write_Nil [simp]: "xml_write [] s = s"
  by (simp add: xml_write_def)

lemma cell_xml_cong:
  assumes "set_rows s' = set_rows s" "col_formats s' = col_formats s"
    "optimization s' = optimization s"
  shows "cell_xml s' row col c = cell_xml s row col c"
  unfolding cell_xml_def assms by (rule refl)

lemma cells_xml_cong:
  assumes "set_rows s' = set_rows s" "col_formats s' = col_formats s"
    "optimization s' = optimization s" "table s' row = table s row"
  shows "cells_xml s' row cols = cells_xml s row cols"
  unfolding cells_xml_def cell_xml_cong[OF assms(1-3)] assms(4) by (rule refl)

lemma col_range_cong:
  assumes "dim_colmin s' = dim_colmin s" "dim_colmax s' = dim_colmax s"
  shows "col_range s' = col_range s"
  unfolding col_range_def assms by (rule refl)

lemma write_row_cong:
  assumes "default_row_height s' = default_row_height s" "excel_version s' = excel_version s"
  shows "write_row s' = write_row s"
  by (intro ext) (simp only: write_row_def assms)

lemma cell_xml_ok:
  assumes "optimization s = 0 \<or> inline_strings s" "table s row col = Some c"
  shows "\<exists>evs. cell_xml s row col c = Inr evs"
proof (cases c)
  case (String sr f)
  show ?thesis
  proof (cases "optimization s = 0")
    case True
    then show ?thesis using String by (simp add: cell_xml_def)
  next
    case False
    then have "inline_strings s" using assms(1) by simp
    then obtain tx where "sr = InlineText tx"
      using assms(2) String unfolding inline_strings_def by (cases sr) auto
    then show ?thesis using String False by (simp add: cell_xml_def)
  qed
qed (simp_all add: cell_xml_def)

lemma write_cells_ok:
  "optimization s = 0 \<or> inline_strings s \<Longrightarrow>
   write_cells row cols s = (None, xml_write (cells_xml s row cols) s)"
proof (induction cols arbitrary: s)
  case Nil
  then show ?case by (simp add: cells_xml_def)
next
  case (Cons col cols)
  show ?case
  proof (cases "table s row col")
    case None
    then show ?thesis using Cons by (simp add: cells_xml_def)
  next
    case (Some c)
    obtain evs where e: "cell_xml s row col c = Inr evs"
      using cell_xml_ok[OF Cons.prems Some] by blast
    let ?s1 = "xml_write evs s"
    have p: "optimization ?s1 = 0 \<or> inline_strings ?s1"
      using Cons.prems by (simp add: inline_strings_def)
    have c: "cells_xml ?s1 row cols = cells_xml s row cols"
      by (rule cells_xml_cong) simp_all
    show ?thesis using Some e Cons.IH[OF p] c
      by (simp add: write_cell_def cells_xml_def xml_write_append)
  qed
qed

lemma write_single_row_unfolded:
  assumes "optimization s = 0 \<or> inline_strings s"
    and "table s (previous_row s) \<noteq> Map.empty \<longrightarrow> col_range s \<noteq> None"
  shows "write_single_row r s =
           (None, (xml_write (single_row_xml s) s)\<lparr>previous_row := r, table := (\<lambda>_. Map.empty)\<rparr>)"
proof -
  define s1 where "s1 = s\<lparr>previous_row := r\<rparr>"
  define p where "p = previous_row s"
  have f1: "table s1 = table s" "set_rows s1 = set_rows s" "comments s1 = comments s"
    "col_formats s1 = col_formats s" "optimization s1 = optimization s"
    "dim_colmin s1 = dim_colmin s" "dim_colmax s1 = dim_colmax s"
    "default_row_height s1 = default_row_height s" "excel_version s1 = excel_version s"
    by (simp_all add: s1_def)
  have wr: "write_row s1 = write_row s" by (rule write_row_cong) (simp_all add: f1)
  have sw: "\<And>evs. (xml_write evs s1)\<lparr>table := (\<lambda>_. Map.empty)\<rparr>
              = (xml_write evs s)\<lparr>previous_row := r, table := (\<lambda>_. Map.empty)\<rparr>"
    by (simp add: s1_def xml_write_def)
  have unf: "write_single_row r s =
     (if set_rows s1 p \<noteq> None \<or> comments s1 p \<noteq> None \<or> table s1 p \<noteq> Map.empty
      then
        (if table s1 p \<noteq> Map.empty
         then
           (case col_range (xml_write [write_row s1 p None (set_rows s1 p) False] s1) of
              None \<Rightarrow> (Some TypeError, xml_write [write_row s1 p None (set_rows s1 p) False] s1)
            | Some cols \<Rightarrow>
                (case write_cells p cols (xml_write [write_row s1 p None (set_rows s1 p) False] s1) of
                   (Some e, s3) \<Rightarrow> (Some e, s3)
                 | (None, s3) \<Rightarrow> (None, (xml_write [EndTag ''row''] s3)\<lparr>table := (\<lambda>_. Map.empty)\<rparr>)))
         else (None, (xml_write [write_row s1 p None (set_rows s1 p) True] s1)
                       \<lparr>table := (\<lambda>_. Map.empty)\<rparr>))
      else (None, s1\<lparr>table := (\<lambda>_. Map.empty)\<rparr>))"
    unfolding write_single_row_def s1_def p_def Let_def by (rule refl)
  show ?thesis
  proof (cases "table s p = Map.empty")
    case True
    have x: "single_row_xml s =
        (if set_rows s p \<noteq> None \<or> comments s p \<noteq> None
         then [write_row s p None (set_rows s p) True] else [])"
      using True by (simp add: single_row_xml_def p_def Let_def)
    show ?thesis
    proof (cases "set_rows s p \<noteq> None \<or> comments s p \<noteq> None")
      case c: True
      then show ?thesis unfolding unf using True x sw[of "[write_row s p None (set_rows s p) True]"]
        by (simp add: f1 wr)
    next
      case c: False
      then show ?thesis unfolding unf using True x sw[of "[]"] by (simp add: f1)
    qed
  next
    case False
    then obtain cols where cr: "col_range s = Some cols" using assms(2) by (auto simp: p_def)
    define s2 where "s2 = xml_write [write_row s p None (set_rows s p) False] s1"
    have p2: "optimization s2 = 0 \<or> inline_strings s2"
      using assms(1) by (simp add: inline_strings_def s2_def f1)
    have c: "cells_xml s2 p cols = cells_xml s p cols"
      by (rule cells_xml_cong) (simp_all add: s2_def f1)
    have cr2: "col_range s2 = Some cols"
      using cr col_range_cong[of s2 s] by (simp add: s2_def f1)
    have wc: "write_cells p cols s2 = (None, xml_write (cells_xml s p cols) s2)"
      using write_cells_ok[OF p2, of p cols] c by simp
    have x: "single_row_xml s =
        [write_row s p None (set_rows s p) False] @ cells_xml s p cols @ [EndTag ''row'']"
      using False cr by (simp add: single_row_xml_def p_def Let_def)
    have fin: "xml_write [EndTag ''row''] (xml_write (cells_xml s p cols) s2)
               = xml_write (single_row_xml s) s1"
      unfolding s2_def x by (simp add: xml_write_append)
    show ?thesis unfolding unf using False cr2 wc fin sw[of "single_row_xml s"]
      by (simp add: f1 wr s2_def[symmetric])
  qed
qed

lemma write_single_row_ok:
  assumes "optimization s = 0 \<or> inline_strings s"
    and "table s (previous_row s) \<noteq> Map.empty \<longrightarrow> col_range s \<noteq> None"
  shows "write_single_row r s = (None, flushed r s)"
  using write_single_row_unfolded[OF assms] by (simp add: flushed_def)

subsection \<open>Error results of the typed writes\<close>

lemma check_dimensions_fail:
  "check_dimensions row col ir ic s = (rc, s1) \<Longrightarrow> rc \<noteq> 0 \<Longrightarrow> s1 = s \<and> rc = -1"
  using check_dimensions_result[of row col ir ic s] by auto

lemma write_previous_row_cases:
  "write_previous_row row s = (if optimization s \<noteq> 0 \<and> row > previous_row s
                               then write_single_row row s else (None, s))"
  by (simp add: write_previous_row_def)

lemma write_number_error:
  assumes "write_number row col x f s = (Return rc, s')" "rc \<noteq> 0"
  shows "s' = s \<and> rc = -1"
proof -
  obtain rc0 s1 where c: "check_dimensions row col False False s = (rc0, s1)"
    by (cases "check_dimensions row col False False s")
  show ?thesis
  proof (cases "rc0 = 0")
    case True
    then show ?thesis using assms c
      by (auto simp: write_number_def split: prod.splits option.splits)
  next
    case False
    then show ?thesis using assms c check_dimensions_fail[OF c False]
      by (auto simp: write_number_def)
  qed
qed

lemma write_datetime_error:
  assumes "write_datetime row col x f s = (Return rc, s')" "rc \<noteq> 0"
  shows "s' = s \<and> rc = -1"
proof -
  obtain rc0 s1 where c: "check_dimensions row col False False s = (rc0, s1)"
    by (cases "check_dimensions row col False False s")
  show ?thesis
  proof (cases "rc0 = 0")
    case True
    then show ?thesis using assms c
      by (auto simp: write_datetime_def split: prod.splits option.splits)
  next
    case False
    then show ?thesis using assms c check_dimensions_fail[OF c False]
      by (auto simp: write_datetime_def)
  qed
qed

lemma write_blank_error:
  assumes "write_blank row col f s = (Return rc, s')" "rc \<noteq> 0"
  shows "s' = s \<and> rc = -1"
proof (cases f)
  case None
  then show ?thesis using assms by (simp add: write_blank_def)
next
  case (Some fm)
  obtain rc0 s1 where c: "check_dimensions row col False False s = (rc0, s1)"
    by (cases "check_dimensions row col False False s")
  show ?thesis
  proof (cases "rc0 = 0")
    case True
    then show ?thesis using assms c Some
      by (auto simp: write_blank_def split: prod.splits option.splits)
  next
    case False
    then show ?thesis using assms c Some check_dimensions_fail[OF c False]
      by (auto simp: write_blank_def)
  qed
qed

lemma write_string_error:
  assumes "write_string row col str f s = (Return rc, s')" "rc \<noteq> 0"
  shows "(rc = -1 \<and> s' = s) \<or> (rc = -2 \<and> length str > xls_strmax)"
proof -
  obtain rc0 s1 where c: "check_dimensions row col False False s = (rc0, s1)"
    by (cases "check_dimensions row col False False s")
  show ?thesis
  proof (cases "rc0 = 0")
    case True
    then show ?thesis using assms c
      by (auto simp: write_string_def Let_def split: prod.splits option.splits if_splits)
  next
    case False
    then show ?thesis using assms c check_dimensions_fail[OF c False]
      by (auto simp: write_string_def)
  qed
qed

lemma write_array_formula_error:
  assumes "write_array_formula fr fc lr lc formula f v s = (Return rc, s')" "rc \<noteq> 0"
  shows "s' = s \<and> rc = -1"
proof -
  define last_row where "last_row = (if fr > lr then fr else lr)"
  define last_col where "last_col = (if fc > lc then fc else lc)"
  obtain rc0 s1 where c: "check_dimensions last_row last_col False False s = (rc0, s1)"
    by (cases "check_dimensions last_row last_col False False s")
  show ?thesis
  proof (cases "rc0 = 0")
    case True
    then show ?thesis using assms c unfolding last_row_def last_col_def
      by (auto simp: write_array_formula_def Let_def
          split: sum.splits prod.splits option.splits if_splits)
  next
    case False
    then show ?thesis using assms c check_dimensions_fail[OF c False]
      unfolding last_row_def last_col_def
      by (auto simp: write_array_formula_def Let_def)
  qed
qed

lemma write_array_formula_single_ok:
  assumes "fst (check_dimensions row col False False s) = 0"
  shows "fst (write_array_formula row col row col formula f v s) \<noteq> Return (-1)"
proof -
  obtain s1 where c: "check_dimensions row col False False s = (0, s1)"
    using assms by (cases "check_dimensions row col False False s") auto
  show ?thesis using c
    by (simp add: write_array_formula_def Let_def
        split: sum.splits prod.splits option.splits)
qed

lemma write_formula_error:
  assumes "write_formula row col formula f v s = (Return rc, s')" "rc \<noteq> 0"
  shows "s' = s \<and> rc = -1"
proof -
  obtain rc0 s1 where c: "check_dimensions row col False False s = (rc0, s1)"
    by (cases "check_dimensions row col False False s")
  show ?thesis
  proof (cases "rc0 = 0")
    case False
    then show ?thesis using assms c check_dimensions_fail[OF c False]
      by (auto simp: write_formula_def)
  next
    case True
    show ?thesis
    proof (cases "startswith formula ''{'' \<and> endswith formula ''}''")
      case a: True
      then have w: "write_array_formula row col row col formula f v s1 = (Return rc, s')"
        using assms(1) c True by (simp add: write_formula_def)
      have s1: "s' = s1 \<and> rc = -1" using write_array_formula_error[OF w assms(2)] .
      have "fst (check_dimensions row col False False s1) = 0"
        using check_dimensions_again c True by blast
      from write_array_formula_single_ok[OF this, of formula f v] have False
        using w s1 by simp
      then show ?thesis ..
    next
      case False
      have "write_formula row col formula f v s =
          (case write_previous_row row s1 of
             (Some e, s2) \<Rightarrow> (Raise e, s2)
           | (None, s2) \<Rightarrow>
               (Return 0, store_cell row col
                  (Formula (if startswith formula ''='' then dropWhile (\<lambda>c. c = CHR ''='') formula
                            else formula) f v) s2))"
        using c True False by (auto simp: write_formula_def Let_def)
      then show ?thesis using assms
        by (simp split: prod.splits option.splits)
    qed
  qed
qed

lemma rich_string_ended:
  "rich_string args = Inl ended \<Longrightarrow>
   ended = Raise IndexError \<or> ended = Return (-3) \<or> ended = Return (-2)"
  by (auto simp: rich_string_def Let_def split: if_splits option.splits prod.splits)

lemma write_rich_string_error:
  assumes "write_rich_string row col args s = (Return rc, s')" "rc \<noteq> 0"
  shows "(rc = -1 \<and> s' = s)
         \<or> ((rc = -2 \<or> rc = -3) \<and> s' = snd (check_dimensions row col False False s))"
proof -
  obtain rc0 s1 where c: "check_dimensions row col False False s = (rc0, s1)"
    by (cases "check_dimensions row col False False s")
  show ?thesis
  proof (cases "rc0 = 0")
    case False
    then show ?thesis using assms c check_dimensions_fail[OF c False]
      by (auto simp: write_rich_string_def)
  next
    case True
    show ?thesis
    proof (cases "rich_string args")
      case (Inl ended)
      then show ?thesis using assms c True rich_string_ended[OF Inl]
        by (auto simp: write_rich_string_def)
    next
      case (Inr p)
      then show ?thesis using assms c True
        by (simp add: write_rich_string_def Let_def split: prod.splits option.splits)
    qed
  qed
qed

lemma write_url_checked:
  assumes "check_dimensions row col False False s = (0, s1)"
    and "url_display u str = (lt, u3, string)"
  shows "write_url row col u f str tp s =
     (if length string > xls_strmax then (Return (-2), s1)
      else
        case url_location lt u3 string of
          Inl e \<Rightarrow> (Raise e, s1)
        | Inr (url, url_str, link_type1) \<Rightarrow>
            if length url > 255 then (Return (-3), s1)
            else
              let s2 = s1\<lparr>hlink_count := hlink_count s1 + 1\<rparr>
              in if hlink_count s2 > 65530 then (Return (-5), s2)
                 else
                   case (if optimization s2 = 1 \<and> row > previous_row s2
                         then write_single_row row s2 else (None, s2)) of
                     (Some e, s3) \<Rightarrow> (Raise e, s3)
                   | (None, s3) \<Rightarrow>
                       (case write_string row col string f s3 of
                          (Raise e, s4) \<Rightarrow> (Raise e, s4)
                        | (Return _, s4) \<Rightarrow>
                            (Return 0,
                             s4\<lparr>hyperlinks := (hyperlinks s4)
                                   (row := (hyperlinks s4 row)
                                      (col \<mapsto> \<lparr>hl_link_type = link_type1, hl_url = url,
                                               hl_str = url_str, hl_tip = tp\<rparr>))\<rparr>)))"
  using assms by (simp add: write_url_def)

lemma check_dimensions_snd_frame:
  "table (snd (check_dimensions row col ir ic s)) = table s"
  "hyperlinks (snd (check_dimensions row col ir ic s)) = hyperlinks s"
  "str_table (snd (check_dimensions row col ir ic s)) = str_table s"
  "merge (snd (check_dimensions row col ir ic s)) = merge s"
  "files (snd (check_dimensions row col ir ic s)) = files s"
  "previous_row (snd (check_dimensions row col ir ic s)) = previous_row s"
  "hlink_count (snd (check_dimensions row col ir ic s)) = hlink_count s"
  using check_dimensions_frame[of row col ir ic s "fst (check_dimensions row col ir ic s)"
      "snd (check_dimensions row col ir ic s)"]
  by simp_all

lemma write_url_error:
  assumes "write_url row col u f str tp s = (Return rc, s')" "rc \<noteq> 0"
  shows "(rc = -1 \<and> s' = s)
         \<or> ((rc = -2 \<or> rc = -3) \<and> s' = snd (check_dimensions row col False False s))
         \<or> (rc = -5
             \<and> s' = (snd (check_dimensions row col False False s))\<lparr>hlink_count := hlink_count s + 1\<rparr>)"
proof -
  obtain rc0 s1 where c: "check_dimensions row col False False s = (rc0, s1)"
    by (cases "check_dimensions row col False False s")
  obtain lt u3 string where d: "url_display u str = (lt, u3, string)"
    by (cases "url_display u str") auto
  have h: "hlink_count s1 = hlink_count s" using check_dimensions_frame[OF c] by simp
  show ?thesis
  proof (cases "rc0 = 0")
    case False
    have "s1 = s \<and> rc0 = -1" using check_dimensions_fail[OF c False] .
    then have "write_url row col u f str tp s = (Return (-1), s)"
      using c d by (simp add: write_url_def)
    then show ?thesis using assms by simp
  next
    case True
    then have c0: "check_dimensions row col False False s = (0, s1)" using c by simp
    note u = write_url_checked[OF c0 d, of f tp]
    show ?thesis
    proof (cases "length string > xls_strmax")
      case True
      then show ?thesis using assms c0 unfolding u by simp
    next
      case long: False
      show ?thesis
      proof (cases "url_location lt u3 string")
        case (Inl e)
        then show ?thesis using assms long unfolding u by simp
      next
        case (Inr q)
        obtain url url_str lt1 where q: "q = (url, url_str, lt1)" by (cases q) auto
        show ?thesis
        proof (cases "length url > 255")
          case True
          then show ?thesis using assms c0 long Inr q unfolding u by simp
        next
          case short: False
          define s2 where "s2 = s1\<lparr>hlink_count := hlink_count s1 + 1\<rparr>"
          show ?thesis
          proof (cases "hlink_count s2 > 65530")
            case True
            then show ?thesis using assms c0 long Inr q short h unfolding u
              by (simp add: Let_def s2_def)
          next
            case False
            obtain fl s3 where fl: "(if optimization s2 = 1 \<and> row > previous_row s2
                         then write_single_row row s2 else (None, s2)) = (fl, s3)"
              by (cases "if optimization s2 = 1 \<and> row > previous_row s2
                         then write_single_row row s2 else (None, s2)")
            obtain oc s4 where ws: "write_string row col string f s3 = (oc, s4)"
              by (cases "write_string row col string f s3")
            have "write_url row col u f str tp s =
                (case fl of Some e \<Rightarrow> (Raise e, s3)
                 | None \<Rightarrow> (case oc of Raise e \<Rightarrow> (Raise e, s4)
                    | Return _ \<Rightarrow> (Return 0,
                             s4\<lparr>hyperlinks := (hyperlinks s4)
                                   (row := (hyperlinks s4 row)
                                      (col \<mapsto> \<lparr>hl_link_type = lt1, hl_url = url,
                                               hl_str = url_str, hl_tip = tp\<rparr>))\<rparr>)))"
              unfolding u using long Inr q short False fl ws
              by (simp add: Let_def s2_def[symmetric] split: option.splits outcome.splits)
            then have "fst (write_url row col u f str tp s) \<noteq> Return rc"
              using assms(2) by (cases fl; cases oc) simp_all
            then show ?thesis using assms(1) by simp
          qed
        qed
      qed
    qed
  qed
qed

subsection \<open>Writes that pass the bounds check\<close>

lemma check_dimensions_ok:
  assumes "row < xls_rowmax" "col < xls_colmax" "optimization s = 1 \<longrightarrow> previous_row s \<le> row"
  shows "fst (check_dimensions row col False False s) = 0"
  using assms by (auto simp: check_dimensions_def Let_def)

lemma check_dimensions_okE:
  assumes "row < xls_rowmax" "col < xls_colmax" "optimization s = 1 \<longrightarrow> previous_row s \<le> row"
  obtains s1 where "check_dimensions row col False False s = (0, s1)"
  using check_dimensions_ok[OF assms] by (cases "check_dimensions row col False False s") auto

lemma write_previous_row_ok:
  assumes "optimization s = 0 \<or> inline_strings s" "col_range s \<noteq> None"
  shows "write_previous_row row s =
           (None, if optimization s \<noteq> 0 \<and> row > previous_row s then flushed row s else s)"
  using write_single_row_ok[OF assms(1), of row] assms(2)
  by (simp add: write_previous_row_def)

lemma index_of_nth: "x \<in> set xs \<Longrightarrow> index_of x xs < length xs \<and> xs ! index_of x xs = x"
  by (induction xs) auto

lemma get_shared_string_index_nth:
  "fst (get_shared_string_index x strs) < length (snd (get_shared_string_index x strs))
   \<and> snd (get_shared_string_index x strs) ! fst (get_shared_string_index x strs) = x"
  using index_of_nth[of x strs] by (simp add: get_shared_string_index_def)

lemma store_cell_fields [simp]:
  "table (store_cell row col c s) = (table s)(row := (table s row)(col \<mapsto> c))"
  "optimization (store_cell row col c s) = optimization s"
  "previous_row (store_cell row col c s) = previous_row s"
  "str_table (store_cell row col c s) = str_table s"
  "files (store_cell row col c s) = files s" "fh (store_cell row col c s) = fh s"
  "hyperlinks (store_cell row col c s) = hyperlinks s"
  "merge (store_cell row col c s) = merge s"
  "hlink_count (store_cell row col c s) = hlink_count s"
  "set_rows (store_cell row col c s) = set_rows s" "comments (store_cell row col c s) = comments s"
  "col_formats (store_cell row col c s) = col_formats s"
  "dim_rowmin (store_cell row col c s) = dim_rowmin s"
  "dim_rowmax (store_cell row col c s) = dim_rowmax s"
  "dim_colmin (store_cell row col c s) = dim_colmin s"
  "dim_colmax (store_cell row col c s) = dim_colmax s"
  "default_row_height (store_cell row col c s) = default_row_height s"
  "excel_version (store_cell row col c s) = excel_version s"
  by (simp_all add: store_cell_def)

lemma flushed_fields [simp]:
  "table (flushed r s) = (\<lambda>_. Map.empty)" "previous_row (flushed r s) = r"
  "optimization (flushed r s) = optimization s" "str_table (flushed r s) = str_table s"
  "fh (flushed r s) = fh s" "hyperlinks (flushed r s) = hyperlinks s"
  "merge (flushed r s) = merge s" "hlink_count (flushed r s) = hlink_count s"
  "set_rows (flushed r s) = set_rows s" "comments (flushed r s) = comments s"
  "col_formats (flushed r s) = col_formats s"
  "dim_rowmin (flushed r s) = dim_rowmin s" "dim_rowmax (flushed r s) = dim_rowmax s"
  "dim_colmin (flushed r s) = dim_colmin s" "dim_colmax (flushed r s) = dim_colmax s"
  "default_row_height (flushed r s) = default_row_height s"
  "excel_version (flushed r s) = excel_version s"
  "files (flushed r s) = (files s)(fh s := files s (fh s) @ single_row_xml s)"
  by (simp_all add: flushed_def)

lemma write_string_checked:
  assumes "check_dimensions row col False False s = (0, s1)"
  shows "write_string row col string f s =
     (let string1 = (if length string > xls_strmax then take xls_strmax string else string);
          str_error = (if length string > xls_strmax then -2 else 0);
          new_index = get_shared_string_index string1 (str_table s1);
          string_index = (if optimization s1 = 0 then SharedIndex (fst new_index)
                          else InlineText string1);
          s2 = (if optimization s1 = 0 then s1\<lparr>str_table := snd new_index\<rparr> else s1)
      in case write_previous_row row s2 of
           (Some e, s3) \<Rightarrow> (Raise e, s3)
         | (None, s3) \<Rightarrow>
             (Return str_error, store_cell row col (String string_index f) s3))"
  using assms by (simp add: write_string_def)

lemma write_string_ok:
  assumes c: "check_dimensions row col False False s = (0, s1)"
    and i: "optimization s = 0 \<or> inline_strings s"
  shows "write_string row col string f s =
     (Return (if length string > xls_strmax then -2 else 0),
      store_cell row col
        (String (if optimization s = 0
                 then SharedIndex (fst (get_shared_string_index
                        (if length string > xls_strmax then take xls_strmax string else string)
                        (str_table s)))
                 else InlineText (if length string > xls_strmax then take xls_strmax string
                                  else string)) f)
        (if optimization s = 0
         then s1\<lparr>str_table := snd (get_shared_string_index
                        (if length string > xls_strmax then take xls_strmax string else string)
                        (str_table s))\<rparr>
         else if row > previous_row s then flushed row s1 else s1))"
proof -
  note fr = check_dimensions_frame[OF c]
  have cr: "col_range s1 \<noteq> None" using check_dimensions_col_range[OF c] .
  show ?thesis
  proof (cases "optimization s = 0")
    case True
    define s2 where "s2 = s1\<lparr>str_table := snd (get_shared_string_index
                        (if length string > xls_strmax then take xls_strmax string else string)
                        (str_table s))\<rparr>"
    have "write_previous_row row s2 = (None, s2)"
      using True fr by (simp add: write_previous_row_def s2_def)
    then show ?thesis unfolding write_string_checked[OF c] using True fr
      by (simp add: Let_def s2_def)
  next
    case False
    then have "inline_strings s1" using i fr by (simp add: inline_strings_def)
    then have "write_previous_row row s1 =
           (None, if optimization s1 \<noteq> 0 \<and> row > previous_row s1 then flushed row s1 else s1)"
      using write_previous_row_ok[of s1 row] cr by simp
    then show ?thesis unfolding write_string_checked[OF c] using False fr
      by (simp add: Let_def)
  qed
qed

lemma replace_from_absent:
  "c \<notin> set s \<Longrightarrow> replace_from (c # old) new 0 s = s"
  by (induction s) auto

lemma replace_absent: "c \<notin> set s \<Longrightarrow> replace s (c # old) new = s"
  by (simp add: replace_def replace_from_absent)

lemma url_display_plain:
  "url_display ''http://a'' (Some (replicate n (CHR ''a''))) = (1, ''http://a'', replicate n (CHR ''a''))"
proof -
  have "replace (replicate n (CHR ''a'')) ''mailto:'' [] = replicate n (CHR ''a'')"
    by (rule replace_absent) simp
  then show ?thesis by (simp add: url_display_def startswith_def Let_def)
qed

lemma check_dimensions_init:
  "check_dimensions 0 0 False False Worksheet_init
     = (0, Worksheet_init\<lparr>dim_rowmin := Some 0, dim_rowmax := Some 0,
                           dim_colmin := Some 0, dim_colmax := Some 0\<rparr>)"
  by (simp add: check_dimensions_def Worksheet_init_def xls_rowmax_def xls_colmax_def Let_def)

lemma check_dimensions_idem:
  assumes c: "check_dimensions row col False False s = (0, s1)"
    and d: "dim_rowmin s' = dim_rowmin s1" "dim_rowmax s' = dim_rowmax s1"
      "dim_colmin s' = dim_colmin s1" "dim_colmax s' = dim_colmax s1"
    and o: "optimization s' = 1 \<longrightarrow> previous_row s' \<le> row"
  shows "check_dimensions row col False False s' = (0, s')"
proof -
  have b: "row < xls_rowmax" "col < xls_colmax"
    using c by (auto simp: check_dimensions_def Let_def split: if_splits)
  have m: "\<exists>a b. dim_rowmin s1 = Some a \<and> dim_rowmax s1 = Some b \<and> a \<le> row \<and> row \<le> b"
    "\<exists>a b. dim_colmin s1 = Some a \<and> dim_colmax s1 = Some b \<and> a \<le> col \<and> col \<le> b"
    using c by (auto simp: check_dimensions_def Let_def split: if_splits option.splits)
  then obtain a1 b1 a2 b2 where
    e: "dim_rowmin s' = Some a1" "dim_rowmax s' = Some b1" "a1 \<le> row" "row \<le> b1"
       "dim_colmin s' = Some a2" "dim_colmax s' = Some b2" "a2 \<le> col" "col \<le> b2"
    using d by auto
  have "s'\<lparr>dim_rowmin := Some a1, dim_rowmax := Some b1, dim_colmin := Some a2,
            dim_colmax := Some b2\<rparr> = s'"
    using e by simp
  moreover have "\<not> (optimization s' = 1 \<and> row < previous_row s')" using o by auto
  ultimately show ?thesis using b e
    by (simp add: check_dimensions_def Let_def)
qed

lemma check_dimensions_before:
  "optimization s = 1 \<Longrightarrow> row < previous_row s \<Longrightarrow> check_dimensions row col False False s = (-1, s)"
  by (auto simp: check_dimensions_def)

lemma after_previous_row_fields [simp]:
  "optimization (after_previous_row r s) = optimization s"
  "str_table (after_previous_row r s) = str_table s"
  "fh (after_previous_row r s) = fh s" "hyperlinks (after_previous_row r s) = hyperlinks s"
  "merge (after_previous_row r s) = merge s" "hlink_count (after_previous_row r s) = hlink_count s"
  "set_rows (after_previous_row r s) = set_rows s" "comments (after_previous_row r s) = comments s"
  "col_formats (after_previous_row r s) = col_formats s"
  "dim_rowmin (after_previous_row r s) = dim_rowmin s"
  "dim_rowmax (after_previous_row r s) = dim_rowmax s"
  "dim_colmin (after_previous_row r s) = dim_colmin s"
  "dim_colmax (after_previous_row r s) = dim_colmax s"
  "default_row_height (after_previous_row r s) = default_row_height s"
  "excel_version (after_previous_row r s) = excel_version s"
  by (simp_all add: after_previous_row_def)

lemma write_previous_row_after:
  assumes "optimization s = 0 \<or> inline_strings s" "col_range s \<noteq> None"
  shows "write_previous_row row s = (None, after_previous_row row s)"
  using write_previous_row_ok[OF assms] by (simp add: after_previous_row_def)

lemma checked_ok:
  assumes c: "check_dimensions row col False False s = (0, s1)"
    and i: "optimization s = 0 \<or> inline_strings s"
  shows "write_previous_row r s1 = (None, after_previous_row r s1)"
proof -
  note fr = check_dimensions_frame[OF c]
  have "optimization s1 = 0 \<or> inline_strings s1" using i fr by (simp add: inline_strings_def)
  then show ?thesis using write_previous_row_after check_dimensions_col_range[OF c] by blast
qed

lemma write_number_ok:
  assumes c: "check_dimensions row col False False s = (0, s1)"
    and i: "optimization s = 0 \<or> inline_strings s"
  shows "write_number row col x f s
           = (Return 0, store_cell row col (Number x f) (after_previous_row row s1))"
  using c checked_ok[OF c i, of row] by (simp add: write_number_def)

lemma write_datetime_ok:
  assumes c: "check_dimensions row col False False s = (0, s1)"
    and i: "optimization s = 0 \<or> inline_strings s"
  shows "write_datetime row col d f s
           = (Return 0, store_cell row col
                (Number (convert_date_time (after_previous_row row s1) d) f)
                (after_previous_row row s1))"
  using c checked_ok[OF c i, of row] by (simp add: write_datetime_def)

lemma write_blank_ok:
  assumes c: "check_dimensions row col False False s = (0, s1)"
    and i: "optimization s = 0 \<or> inline_strings s"
  shows "write_blank row col (Some f) s
           = (Return 0, store_cell row col (Blank (Some f)) (after_previous_row row s1))"
  using c checked_ok[OF c i, of row] by (simp add: write_blank_def)

lemma write_formula_plain_ok:
  assumes c: "check_dimensions row col False False s = (0, s1)"
    and i: "optimization s = 0 \<or> inline_strings s"
    and n: "\<not> (startswith formula ''{'' \<and> endswith formula ''}'')"
  shows "write_formula row col formula f v s
           = (Return 0, store_cell row col
                (Formula (if startswith formula ''='' then dropWhile (\<lambda>c. c = CHR ''='') formula
                          else formula) f v)
                (after_previous_row row s1))"
  using c n checked_ok[OF c i, of row] by (auto simp: write_formula_def Let_def)

lemma range_cells_single: "range_cells row col row col = []"
  by (simp add: range_cells_def)

lemma write_array_formula_one_row_ok:
  assumes c: "check_dimensions row (max fc lc) False False s = (0, s1)"
    and i: "optimization s = 1 \<and> inline_strings s \<or> optimization s = 0 \<and> fc = lc"
    and f: "strip_array_formula formula = Inr formula3"
  shows "write_array_formula row fc row lc formula cf v s
           = (Return 0, store_cell row (min fc lc)
                (ArrayFormula formula3 cf v
                   (if fc = lc then xl_rowcol_to_cell row fc
                    else xl_rowcol_to_cell row (min fc lc) @ '':'' @ xl_rowcol_to_cell row (max fc lc)))
                (after_previous_row row s1))"
proof -
  note fr = check_dimensions_frame[OF c]
  have i': "optimization s = 0 \<or> inline_strings s" using i by auto
  have w: "write_previous_row row s1 = (None, after_previous_row row s1)"
    using checked_ok[OF c i'] .
  have mx: "(if fc > lc then fc else lc) = max fc lc" "(if fc > lc then lc else fc) = min fc lc"
    by auto
  show ?thesis
  proof (cases "optimization s = 0")
    case True
    then have e: "fc = lc" using i by auto
    show ?thesis using c f w True fr e
      by (simp add: write_array_formula_def Let_def range_cells_single)
  next
    case False
    then show ?thesis using c f w fr
      by (simp add: write_array_formula_def Let_def mx)
  qed
qed

lemma write_rich_string_ok:
  assumes c: "check_dimensions row col False False s = (0, s1)"
    and i: "optimization s = 0 \<or> inline_strings s"
    and r: "rich_string args = Inr (string, cf)"
  shows "write_rich_string row col args s =
     (Return 0,
      store_cell row col
        (String (if optimization s = 0
                 then SharedIndex (fst (get_shared_string_index string (str_table s)))
                 else InlineText string) cf)
        (if optimization s = 0
         then s1\<lparr>str_table := snd (get_shared_string_index string (str_table s))\<rparr>
         else after_previous_row row s1))"
proof -
  note fr = check_dimensions_frame[OF c]
  have cr: "col_range s1 \<noteq> None" using check_dimensions_col_range[OF c] .
  show ?thesis
  proof (cases "optimization s = 0")
    case True
    define s2 where "s2 = s1\<lparr>str_table := snd (get_shared_string_index string (str_table s))\<rparr>"
    have "write_previous_row row s2 = (None, s2)"
      using True fr by (simp add: write_previous_row_def s2_def)
    then show ?thesis using c r True fr
      by (simp add: write_rich_string_def Let_def s2_def)
  next
    case False
    then show ?thesis using c r fr checked_ok[OF c i, of row]
      by (simp add: write_rich_string_def Let_def)
  qed
qed

lemma write_string_ok2:
  assumes c: "check_dimensions row col False False s = (0, s1)"
    and i: "optimization s = 0 \<or> inline_strings s"
  shows "write_string row col string f s =
     (Return (if length string > xls_strmax then -2 else 0),
      store_cell row col
        (String (if optimization s = 0
                 then SharedIndex (fst (get_shared_string_index (take xls_strmax string)
                        (str_table s)))
                 else InlineText (take xls_strmax string)) f)
        (if optimization s = 0
         then s1\<lparr>str_table := snd (get_shared_string_index (take xls_strmax string)
                        (str_table s))\<rparr>
         else after_previous_row row s1))"
proof -
  have t: "(if length string > xls_strmax then take xls_strmax string else string)
             = take xls_strmax string" by simp
  note fr = check_dimensions_frame[OF c]
  show ?thesis using write_string_ok[OF c i, of string f] fr unfolding t
    by (simp add: after_previous_row_def)
qed

lemma after_previous_row_more_fields [simp]:
  "previous_row (after_previous_row r s) = (if optimization s \<noteq> 0 \<and> r > previous_row s then r else previous_row s)"
  "table (after_previous_row r s) = (if optimization s \<noteq> 0 \<and> r > previous_row s then (\<lambda>_. Map.empty) else table s)"
  "files (after_previous_row r s) =
     (if optimization s \<noteq> 0 \<and> r > previous_row s
      then (files s)(fh s := files s (fh s) @ single_row_xml s) else files s)"
  by (simp_all add: after_previous_row_def)

lemma inline_strings_after:
  "optimization s = 0 \<or> inline_strings s \<Longrightarrow>
   optimization (after_previous_row r s) = 0 \<or> inline_strings (after_previous_row r s)"
  by (auto simp: after_previous_row_def inline_strings_def)

lemma write_url_stored:
  assumes c: "check_dimensions row col False False s = (0, s1)"
    and d: "url_display u str = (lt, u3, string)"
    and len: "length string \<le> xls_strmax"
    and loc: "url_location lt u3 string = Inr (url, url_str, lt1)"
    and short: "length url \<le> 255"
    and h: "hlink_count s + 1 \<le> 65530"
    and fl: "(if optimization s = 1 \<and> row > previous_row s
              then write_single_row row (s1\<lparr>hlink_count := hlink_count s + 1\<rparr>)
              else (None, s1\<lparr>hlink_count := hlink_count s + 1\<rparr>)) = (None, s3)"
    and ws: "write_string row col string f s3 = (Return rc, s4)"
  shows "write_url row col u f str tp s =
     (Return 0,
      s4\<lparr>hyperlinks := (hyperlinks s4)
           (row := (hyperlinks s4 row)
              (col \<mapsto> \<lparr>hl_link_type = lt1, hl_url = url, hl_str = url_str, hl_tip = tp\<rparr>))\<rparr>)"
proof -
  note fr = check_dimensions_frame[OF c]
  define s2 where "s2 = s1\<lparr>hlink_count := hlink_count s + 1\<rparr>"
  have s2: "hlink_count s2 = hlink_count s + 1" "optimization s2 = optimization s"
    "previous_row s2 = previous_row s" using fr by (simp_all add: s2_def)
  have hl: "hlink_count s1 = hlink_count s" using fr by simp
  have h2: "\<not> hlink_count s + 1 > 65530" using h by simp
  have l2: "\<not> length string > xls_strmax" "\<not> length url > 255" using len short by simp_all
  show ?thesis
    unfolding write_url_checked[OF c d] Let_def hl s2_def[symmetric]
    by (simp only: l2 loc h2 s2 fl[unfolded s2_def[symmetric]] ws if_False sum.case prod.case
        option.case outcome.case)
qed

lemma after_previous_row_idem:
  "after_previous_row row (after_previous_row row s) = after_previous_row row s"
  by (simp add: after_previous_row_def)

lemma write_url_streaming_ok:
  assumes c: "check_dimensions row col False False s = (0, s1)"
    and o: "optimization s = 1"
    and i: "inline_strings s"
    and d: "url_display u str = (lt, u3, string)"
    and len: "length string \<le> xls_strmax"
    and loc: "url_location lt u3 string = Inr (url, url_str, lt1)"
    and short: "length url \<le> 255"
    and h: "hlink_count s + 1 \<le> 65530"
  shows "write_url row col u f str tp s =
     (Return 0,
      (store_cell row col (String (InlineText string) f)
         (after_previous_row row (s1\<lparr>hlink_count := hlink_count s + 1\<rparr>)))
      \<lparr>hyperlinks := (hyperlinks s)
           (row := (hyperlinks s row)
              (col \<mapsto> \<lparr>hl_link_type = lt1, hl_url = url, hl_str = url_str, hl_tip = tp\<rparr>))\<rparr>)"
proof -
  note fr = check_dimensions_frame[OF c]
  define s2 where "s2 = s1\<lparr>hlink_count := hlink_count s + 1\<rparr>"
  have f2: "optimization s2 = 1" "previous_row s2 = previous_row s" "table s2 = table s"
    "hyperlinks s2 = hyperlinks s"
    "dim_rowmin s2 = dim_rowmin s1" "dim_rowmax s2 = dim_rowmax s1"
    "dim_colmin s2 = dim_colmin s1" "dim_colmax s2 = dim_colmax s1"
    using fr o by (simp_all add: s2_def)
  have cr: "col_range s2 \<noteq> None"
    using check_dimensions_col_range[OF c] col_range_cong[OF f2(7,8)] by simp
  have i2: "optimization s2 = 0 \<or> inline_strings s2"
    using i f2(3) by (simp add: inline_strings_def)
  define s3 where "s3 = after_previous_row row s2"
  have wp: "write_previous_row row s2 = (None, s3)"
    unfolding s3_def using write_previous_row_after[OF i2 cr] .
  have fl: "(if optimization s = 1 \<and> row > previous_row s
              then write_single_row row (s1\<lparr>hlink_count := hlink_count s + 1\<rparr>)
              else (None, s1\<lparr>hlink_count := hlink_count s + 1\<rparr>)) = (None, s3)"
    using wp f2(1,2) o unfolding write_previous_row_cases s2_def[symmetric] by simp
  have b: "previous_row s \<le> row"
    using c o by (auto simp: check_dimensions_def Let_def split: if_splits)
  have f3: "optimization s3 = 1" "previous_row s3 = row \<or> previous_row s3 = previous_row s"
    "previous_row s3 \<le> row" "previous_row s3 \<ge> row"
    "hyperlinks s3 = hyperlinks s"
    "dim_rowmin s3 = dim_rowmin s1" "dim_rowmax s3 = dim_rowmax s1"
    "dim_colmin s3 = dim_colmin s1" "dim_colmax s3 = dim_colmax s1"
    using f2 b by (simp_all add: s3_def)
  have c3: "check_dimensions row col False False s3 = (0, s3)"
    using check_dimensions_idem[OF c f3(6-9)] f3(3) by simp
  have i3: "optimization s3 = 0 \<or> inline_strings s3"
    unfolding s3_def using inline_strings_after[OF i2] .
  have a3: "after_previous_row row s3 = s3"
    unfolding s3_def by (rule after_previous_row_idem)
  have t: "take xls_strmax string = string" using len by simp
  have n: "\<not> xls_strmax < length string" using len by simp
  have ws: "write_string row col string f s3 =
      (Return 0, store_cell row col (String (InlineText string) f) s3)"
    using write_string_ok2[OF c3 i3, of string f] f3(1) unfolding a3 t by (simp add: n)
  have "write_url row col u f str tp s =
     (Return 0,
      (store_cell row col (String (InlineText string) f) s3)
        \<lparr>hyperlinks := (hyperlinks (store_cell row col (String (InlineText string) f) s3))
           (row := (hyperlinks (store_cell row col (String (InlineText string) f) s3) row)
              (col \<mapsto> \<lparr>hl_link_type = lt1, hl_url = url, hl_str = url_str, hl_tip = tp\<rparr>))\<rparr>)"
    by (rule write_url_stored[OF c d len loc short h fl ws])
  then have "write_url row col u f str tp s =
     (Return 0,
      (store_cell row col (String (InlineText string) f) s3)
        \<lparr>hyperlinks := (hyperlinks s)
           (row := (hyperlinks s row)
              (col \<mapsto> \<lparr>hl_link_type = lt1, hl_url = url, hl_str = url_str, hl_tip = tp\<rparr>))\<rparr>)"
    unfolding store_cell_fields f3(5) .
  then show ?thesis
    unfolding s3_def s2_def .
qed

lemma apply_write_rejected:
  assumes "check_dimensions (op_row w) (op_col w) False False s = (rc, s1)" "rc \<noteq> 0"
  shows "apply_write w s = (if blank_without_format w then Return 0 else Return (-1), s)"
proof -
  have c: "check_dimensions (op_row w) (op_col w) False False s = (-1, s)"
    using check_dimensions_fail[OF assms] assms(1) by simp
  show ?thesis
  proof (cases w)
    case (WriteBlank row col f)
    then show ?thesis using c by (cases f) (auto simp: write_blank_def)
  next
    case (WriteArrayFormula fr fc lr lc formula f v)
    then show ?thesis using c
      by (auto simp: write_array_formula_def Let_def max_def)
  qed (use c in \<open>auto simp: write_string_def write_number_def write_formula_def
      write_datetime_def write_url_def write_rich_string_def Let_def\<close>)
qed

lemma single_row_xml_cong:
  assumes "previous_row s' = previous_row s" "table s' = table s" "set_rows s' = set_rows s"
    "comments s' = comments s" "col_formats s' = col_formats s"
    "optimization s' = optimization s" "dim_colmin s' = dim_colmin s"
    "dim_colmax s' = dim_colmax s" "default_row_height s' = default_row_height s"
    "excel_version s' = excel_version s"
  shows "single_row_xml s' = single_row_xml s"
proof -
  have a: "col_range s' = col_range s" using col_range_cong[OF assms(7,8)] .
  have b: "write_row s' = write_row s" using write_row_cong[OF assms(9,10)] .
  have c: "\<And>row cols. cells_xml s' row cols = cells_xml s row cols"
    using cells_xml_cong[OF assms(3,5,6)] assms(2) by simp
  show ?thesis unfolding single_row_xml_def a b c assms(1-4) by (rule refl)
qed

lemma after_previous_row_hlink:
  "after_previous_row row (s\<lparr>hlink_count := n\<rparr>) = (after_previous_row row s)\<lparr>hlink_count := n\<rparr>"
proof -
  have "single_row_xml (s\<lparr>hlink_count := n\<rparr>) = single_row_xml s"
    by (rule single_row_xml_cong) simp_all
  then show ?thesis
    by (simp add: after_previous_row_def flushed_def xml_write_def)
qed

lemma check_dimensions_streaming_le:
  "check_dimensions row col False False s = (0, s1) \<Longrightarrow> optimization s = 1
   \<Longrightarrow> previous_row s \<le> row"
  by (auto simp: check_dimensions_def Let_def split: if_splits)

lemma write_formula_array_ok:
  assumes c: "check_dimensions row col False False s = (0, s1)"
    and i: "optimization s = 1 \<and> inline_strings s \<or> optimization s = 0"
    and a: "startswith formula ''{'' \<and> endswith formula ''}''"
    and f: "strip_array_formula formula = Inr formula3"
  shows "write_formula row col formula cf v s
           = (Return 0, store_cell row col
                (ArrayFormula formula3 cf v (xl_rowcol_to_cell row col))
                (after_previous_row row s1))"
proof -
  note fr = check_dimensions_frame[OF c]
  have b: "optimization s1 = 1 \<longrightarrow> previous_row s1 \<le> row"
    using check_dimensions_streaming_le[OF c] fr by simp
  have c1: "check_dimensions row (max col col) False False s1 = (0, s1)"
    using check_dimensions_idem[OF c _ _ _ _ b] by simp
  have i1: "optimization s1 = 1 \<and> inline_strings s1 \<or> optimization s1 = 0 \<and> col = col"
    using i fr by (auto simp: inline_strings_def)
  have "write_formula row col formula cf v s
          = write_array_formula row col row col formula cf v s1"
    using c a by (simp add: write_formula_def)
  then show ?thesis
    using write_array_formula_one_row_ok[OF c1 i1 f, of cf v] by simp
qed

lemma write_formula_array_raise:
  assumes c: "check_dimensions row col False False s = (0, s1)"
    and a: "startswith formula ''{'' \<and> endswith formula ''}''"
    and f: "strip_array_formula formula = Inl e"
  shows "write_formula row col formula cf v s = (Raise e, s1)"
proof -
  note fr = check_dimensions_frame[OF c]
  have c1: "check_dimensions row col False False s1 = (0, s1)"
    apply (rule check_dimensions_idem[OF c])
    using c fr by (auto simp: check_dimensions_def Let_def split: if_splits)
  have "write_formula row col formula cf v s
          = write_array_formula row col row col formula cf v s1"
    using c a by (simp add: write_formula_def)
  then show ?thesis using c1 f
    by (simp add: write_array_formula_def Let_def)
qed

lemma write_array_formula_raise:
  assumes c: "check_dimensions (max fr lr) (max fc lc) False False s = (0, s1)"
    and f: "strip_array_formula formula = Inl e"
  shows "write_array_formula fr fc lr lc formula cf v s = (Raise e, s1)"
proof -
  have mx: "(if fr > lr then fr else lr) = max fr lr" "(if fc > lc then fc else lc) = max fc lc"
    by auto
  show ?thesis using c f unfolding write_array_formula_def Let_def mx
    by simp
qed

lemma write_rich_string_ended:
  assumes c: "check_dimensions row col False False s = (0, s1)"
    and r: "rich_string args = Inl ended"
  shows "write_rich_string row col args s = (ended, s1)"
  using c r by (simp add: write_rich_string_def)

lemma write_url_streaming_cases:
  assumes c: "check_dimensions row col False False s = (0, s1)"
    and o: "optimization s = 1"
    and i: "inline_strings s"
    and d: "url_display u str = (lt, u3, string)"
  shows "write_url row col u f str tp s =
     (if length string > xls_strmax then (Return (-2), s1)
      else
        case url_location lt u3 string of
          Inl e \<Rightarrow> (Raise e, s1)
        | Inr (url, url_str, lt1) \<Rightarrow>
            if length url > 255 then (Return (-3), s1)
            else if hlink_count s + 1 > 65530
            then (Return (-5), s1\<lparr>hlink_count := hlink_count s + 1\<rparr>)
            else
              (Return 0,
               (store_cell row col (String (InlineText string) f)
                  (after_previous_row row (s1\<lparr>hlink_count := hlink_count s + 1\<rparr>)))
               \<lparr>hyperlinks := (hyperlinks s)
                    (row := (hyperlinks s row)
                       (col \<mapsto> \<lparr>hl_link_type = lt1, hl_url = url, hl_str = url_str,
                                hl_tip = tp\<rparr>))\<rparr>))"
proof (cases "length string > xls_strmax")
  case True
  then show ?thesis unfolding write_url_checked[OF c d] by simp
next
  case long: False
  show ?thesis
  proof (cases "url_location lt u3 string")
    case (Inl e)
    then show ?thesis using long unfolding write_url_checked[OF c d] by simp
  next
    case (Inr q)
    obtain url url_str lt1 where q: "q = (url, url_str, lt1)" by (cases q) auto
    note loc = Inr[unfolded q]
    show ?thesis
    proof (cases "length url > 255")
      case True
      then show ?thesis using long loc unfolding write_url_checked[OF c d] by simp
    next
      case short: False
      have hl: "hlink_count s1 = hlink_count s" using check_dimensions_frame[OF c] by simp
      show ?thesis
      proof (cases "hlink_count s + 1 > 65530")
        case True
        then show ?thesis using long loc short hl unfolding write_url_checked[OF c d]
          by (simp add: Let_def)
      next
        case False
        have "write_url row col u f str tp s =
           (Return 0,
            (store_cell row col (String (InlineText string) f)
               (after_previous_row row (s1\<lparr>hlink_count := hlink_count s + 1\<rparr>)))
            \<lparr>hyperlinks := (hyperlinks s)
                 (row := (hyperlinks s row)
                    (col \<mapsto> \<lparr>hl_link_type = lt1, hl_url = url, hl_str = url_str,
                             hl_tip = tp\<rparr>))\<rparr>)"
          using write_url_streaming_ok[OF c o i d _ loc, of f tp] long short False by simp
        then show ?thesis using long loc short False by simp
      qed
    qed
  qed
qed

lemma streaming_step:
  assumes o: "optimization s = 1" and i: "inline_strings s" and sr: "single_row_op w"
    and r: "apply_write w s = (out, s')"
  shows "(\<not> accepted w out \<and> table s' = table s \<and> previous_row s' = previous_row s
            \<and> files s' = files s \<and> fh s' = fh s \<and> optimization s' = 1)
       \<or> (accepted w out \<and> previous_row s \<le> op_row w \<and> optimization s' = 1 \<and> fh s' = fh s
            \<and> previous_row s' = op_row w
            \<and> files s' = files (after_previous_row (op_row w)
                  (snd (check_dimensions (op_row w) (op_col w) False False s)))
            \<and> (\<exists>c. (\<forall>k f. c \<noteq> String (SharedIndex k) f)
                 \<and> table s' = table (store_cell (op_row w) (anchor_col w) c
                      (after_previous_row (op_row w)
                         (snd (check_dimensions (op_row w) (op_col w) False False s))))))"
    (is "?early \<or> ?stored")
proof -
  obtain rc s1 where c0: "check_dimensions (op_row w) (op_col w) False False s = (rc, s1)"
    by (cases "check_dimensions (op_row w) (op_col w) False False s")
  note fr = check_dimensions_frame[OF c0]
  have i': "optimization s = 0 \<or> inline_strings s" using i by simp
  have i'': "optimization s = 0 \<or> optimization s = 1 \<and> inline_strings s" using i o by simp
  show ?thesis
  proof (cases "rc = 0")
    case False
    have a: "apply_write w s = (if blank_without_format w then Return 0 else Return (-1), s)"
      using apply_write_rejected[OF c0 False] .
    have "\<not> accepted w (if blank_without_format w then Return 0 else Return (-1))"
      by (cases "(w, Return 0 :: outcome)" rule: accepted.cases) auto
    then have ?early using a r o by auto
    then show ?thesis ..
  next
    case True
    then have c: "check_dimensions (op_row w) (op_col w) False False s = (0, s1)"
      using c0 by simp
    have le: "previous_row s \<le> op_row w" using check_dimensions_streaming_le[OF c o] .
    define A where "A = after_previous_row (op_row w) s1"
    have A: "optimization A = 1" "fh A = fh s" "previous_row A = op_row w"
      using fr o le by (auto simp: A_def)
    have s1: "snd (check_dimensions (op_row w) (op_col w) False False s) = s1"
      using c by simp
    have early: "\<not> accepted w out \<Longrightarrow> table s' = table s1 \<Longrightarrow> previous_row s' = previous_row s1
        \<Longrightarrow> files s' = files s1 \<Longrightarrow> fh s' = fh s1 \<Longrightarrow> optimization s' = optimization s1
        \<Longrightarrow> ?thesis"
      using fr o by simp
    have stored: "accepted w out \<Longrightarrow> (\<forall>k f. cl \<noteq> String (SharedIndex k) f)
        \<Longrightarrow> table s' = table (store_cell (op_row w) (anchor_col w) cl A)
        \<Longrightarrow> previous_row s' = previous_row A \<Longrightarrow> files s' = files A \<Longrightarrow> fh s' = fh A
        \<Longrightarrow> optimization s' = optimization A \<Longrightarrow> ?thesis" for cl
      unfolding s1 A_def[symmetric] using A le
      by (intro disjI2 conjI exI[of _ cl]) simp_all
    show ?thesis
    proof (cases w)
      case (WriteString row col string f)
      have "write_string row col string f s
              = (Return (if length string > xls_strmax then -2 else 0),
                 store_cell row col (String (InlineText (take xls_strmax string)) f) A)"
        using write_string_ok2[OF c[unfolded WriteString op_row.simps op_col.simps] i', of string f]
          o by (simp add: A_def WriteString)
      then have "out = Return (if length string > xls_strmax then -2 else 0)"
        "s' = store_cell row col (String (InlineText (take xls_strmax string)) f) A"
        using r WriteString by simp_all
      then show ?thesis
        using stored[of "String (InlineText (take xls_strmax string)) f"] WriteString by simp
    next
      case (WriteNumber row col x f)
      have "write_number row col x f s = (Return 0, store_cell row col (Number x f) A)"
        using write_number_ok[OF c[unfolded WriteNumber op_row.simps op_col.simps] i', of x f]
        by (simp add: A_def WriteNumber)
      then have "out = Return 0" "s' = store_cell row col (Number x f) A"
        using r WriteNumber by simp_all
      then show ?thesis using stored[of "Number x f"] WriteNumber by simp
    next
      case (WriteBlank row col fo)
      show ?thesis
      proof (cases fo)
        case None
        then have "out = Return 0" "s' = s" using r WriteBlank by (simp_all add: write_blank_def)
        then show ?thesis using early fr WriteBlank None by simp
      next
        case (Some f)
        have "write_blank row col (Some f) s = (Return 0, store_cell row col (Blank (Some f)) A)"
          using write_blank_ok[OF c[unfolded WriteBlank op_row.simps op_col.simps] i', of f]
          by (simp add: A_def WriteBlank)
        then have "out = Return 0" "s' = store_cell row col (Blank (Some f)) A"
          using r WriteBlank Some by simp_all
        then show ?thesis using stored[of "Blank (Some f)"] WriteBlank Some by simp
      qed
    next
      case (WriteFormula row col formula f v)
      note c' = c[unfolded WriteFormula op_row.simps op_col.simps]
      show ?thesis
      proof (cases "startswith formula ''{'' \<and> endswith formula ''}''")
        case False
        define cl where "cl = Formula (if startswith formula ''=''
                                then dropWhile (\<lambda>c. c = CHR ''='') formula else formula) f v"
        have "write_formula row col formula f v s = (Return 0, store_cell row col cl A)"
          using write_formula_plain_ok[OF c' i' False, of f v]
          by (simp add: A_def WriteFormula cl_def)
        then have "out = Return 0" "s' = store_cell row col cl A"
          using r WriteFormula by simp_all
        then show ?thesis using stored[of cl] WriteFormula by (simp add: cl_def)
      next
        case True
        show ?thesis
        proof (cases "strip_array_formula formula")
          case (Inl e)
          have "write_formula row col formula f v s = (Raise e, s1)"
            using write_formula_array_raise[OF c' True Inl] .
          then have "out = Raise e" "s' = s1" using r WriteFormula by simp_all
          then show ?thesis using early WriteFormula by simp
        next
          case (Inr f3)
          define cl where "cl = ArrayFormula f3 f v (xl_rowcol_to_cell row col)"
          have "write_formula row col formula f v s = (Return 0, store_cell row col cl A)"
            using write_formula_array_ok[OF c' _ True Inr, of f v] i o
            by (simp add: A_def WriteFormula cl_def)
          then have "out = Return 0" "s' = store_cell row col cl A"
            using r WriteFormula by simp_all
          then show ?thesis using stored[of cl] WriteFormula by (simp add: cl_def)
        qed
      qed
    next
      case (WriteArrayFormula fr0 fc lr0 lc formula f v)
      then have e: "lr0 = fr0" using sr by simp
      note c' = c[unfolded WriteArrayFormula op_row.simps op_col.simps e max.idem]
      show ?thesis
      proof (cases "strip_array_formula formula")
        case (Inl e')
        have "write_array_formula fr0 fc fr0 lc formula f v s = (Raise e', s1)"
          using write_array_formula_raise[of fr0 fr0 fc lc s s1 formula e' f v] c' Inl by simp
        then have "out = Raise e'" "s' = s1" using r WriteArrayFormula e by simp_all
        then show ?thesis using early WriteArrayFormula by simp
      next
        case (Inr f3)
        define cl where "cl = ArrayFormula f3 f v
                   (if fc = lc then xl_rowcol_to_cell fr0 fc
                    else xl_rowcol_to_cell fr0 (min fc lc) @ '':'' @ xl_rowcol_to_cell fr0 (max fc lc))"
        have "write_array_formula fr0 fc fr0 lc formula f v s
                = (Return 0, store_cell fr0 (min fc lc) cl A)"
          using write_array_formula_one_row_ok[OF c' _ Inr, of f v] i o
          by (simp add: A_def WriteArrayFormula cl_def e)
        then have "out = Return 0" "s' = store_cell fr0 (min fc lc) cl A"
          using r WriteArrayFormula e by simp_all
        then show ?thesis using stored[of cl] WriteArrayFormula e by (simp add: cl_def)
      qed
    next
      case (WriteDatetime row col d f)
      have "write_datetime row col d f s
              = (Return 0, store_cell row col (Number (convert_date_time A d) f) A)"
        using write_datetime_ok[OF c[unfolded WriteDatetime op_row.simps op_col.simps] i', of d f]
        by (simp add: A_def WriteDatetime)
      then have "out = Return 0" "s' = store_cell row col (Number (convert_date_time A d) f) A"
        using r WriteDatetime by simp_all
      then show ?thesis using stored[of "Number (convert_date_time A d) f"] WriteDatetime by simp
    next
      case (WriteUrl row col u f str tp)
      note c' = c[unfolded WriteUrl op_row.simps op_col.simps]
      obtain lt u3 string where d: "url_display u str = (lt, u3, string)"
        by (cases "url_display u str") auto
      note u = write_url_streaming_cases[OF c' o i d, of f tp,
          unfolded after_previous_row_hlink]
      have r': "write_url row col u f str tp s = (out, s')" using r WriteUrl by simp
      show ?thesis
      proof (cases "length string > xls_strmax")
        case True
        then have "out = Return (-2)" "s' = s1" using r' unfolding u by simp_all
        then show ?thesis using early WriteUrl by simp
      next
        case long: False
        show ?thesis
        proof (cases "url_location lt u3 string")
          case (Inl e)
          then have "out = Raise e" "s' = s1" using r' long unfolding u by simp_all
          then show ?thesis using early WriteUrl by simp
        next
          case (Inr q)
          obtain url url_str lt1 where q: "q = (url, url_str, lt1)" by (cases q) auto
          note loc = Inr[unfolded q]
          show ?thesis
          proof (cases "length url > 255")
            case True
            then have "out = Return (-3)" "s' = s1" using r' long loc unfolding u by simp_all
            then show ?thesis using early WriteUrl by simp
          next
            case short: False
            show ?thesis
            proof (cases "hlink_count s + 1 > 65530")
              case True
              then have "out = Return (-5)" "s' = s1\<lparr>hlink_count := hlink_count s + 1\<rparr>"
                using r' long loc short unfolding u by simp_all
              then show ?thesis using early WriteUrl by simp
            next
              case False
              then have "out = Return 0"
                "s' = (store_cell row col (String (InlineText string) f)
                         (A\<lparr>hlink_count := hlink_count s + 1\<rparr>))
                      \<lparr>hyperlinks := (hyperlinks s)
                         (row := (hyperlinks s row)
                            (col \<mapsto> \<lparr>hl_link_type = lt1, hl_url = url, hl_str = url_str,
                                     hl_tip = tp\<rparr>))\<rparr>"
                using r' long loc short unfolding u A_def WriteUrl op_row.simps by simp_all
              then show ?thesis using stored[of "String (InlineText string) f"] WriteUrl
                by simp
            qed
          qed
        qed
      qed
    next
      case (WriteRichString row col args)
      note c' = c[unfolded WriteRichString op_row.simps op_col.simps]
      show ?thesis
      proof (cases "rich_string args")
        case (Inl ended)
        have "write_rich_string row col args s = (ended, s1)"
          using write_rich_string_ended[OF c' Inl] .
        then have e: "out = ended" "s' = s1" using r WriteRichString by simp_all
        have "ended \<noteq> Return 0" using rich_string_ended[OF Inl] by auto
        then show ?thesis using early WriteRichString e by simp
      next
        case (Inr p)
        obtain string cf where p: "p = (string, cf)" by (cases p) auto
        have "write_rich_string row col args s
                = (Return 0, store_cell row col (String (InlineText string) cf) A)"
          using write_rich_string_ok[OF c' i' Inr[unfolded p]] o
          by (simp add: A_def WriteRichString)
        then have "out = Return 0" "s' = store_cell row col (String (InlineText string) cf) A"
          using r WriteRichString by simp_all
        then show ?thesis using stored[of "String (InlineText string) cf"] WriteRichString by simp
      qed
    qed
  qed
qed

lemma initialize_streaming:
  "initialize 1 False [] Worksheet_init = Worksheet_init\<lparr>optimization := 1, fh := RowDataFile\<rparr>"
  by (simp add: initialize_def Worksheet_init_def Let_def)

lemma streaming_fresh:
  "optimization (initialize 1 False [] Worksheet_init) = 1"
  "previous_row (initialize 1 False [] Worksheet_init) = 0"
  "table (initialize 1 False [] Worksheet_init) = (\<lambda>_. Map.empty)"
  "fh (initialize 1 False [] Worksheet_init) = RowDataFile"
  "files (initialize 1 False [] Worksheet_init) = (\<lambda>_. [])"
  "set_rows (initialize 1 False [] Worksheet_init) = Map.empty"
  "comments (initialize 1 False [] Worksheet_init) = Map.empty"
  "inline_strings (initialize 1 False [] Worksheet_init)"
  "one_row_retained (initialize 1 False [] Worksheet_init)"
  unfolding initialize_streaming
  by (simp_all add: Worksheet_init_def inline_strings_def one_row_retained_def)

lemma streaming_two_numbers:
  "\<exists>c1 c2. check_dimensions 3 0 False False (initialize 1 False [] Worksheet_init) = (0, c1)
     \<and> write_number 3 0 1 None (initialize 1 False [] Worksheet_init)
         = (Return 0, store_cell 3 0 (Number 1 None) (after_previous_row 3 c1))
     \<and> check_dimensions 5 0 False False
          (store_cell 3 0 (Number 1 None) (after_previous_row 3 c1)) = (0, c2)
     \<and> write_number 5 0 2 None (store_cell 3 0 (Number 1 None) (after_previous_row 3 c1))
         = (Return 0, store_cell 5 0 (Number 2 None) (after_previous_row 5 c2))"
proof -
  define s0 where "s0 = initialize 1 False [] Worksheet_init"
  have b: "(3::int) < xls_rowmax" "(5::int) < xls_rowmax" "(0::int) < xls_colmax"
    by (simp_all add: xls_rowmax_def xls_colmax_def)
  obtain c1 where c1: "check_dimensions 3 0 False False s0 = (0, c1)"
    using check_dimensions_okE[OF b(1,3), of s0] by (auto simp: s0_def streaming_fresh)
  note f1 = check_dimensions_frame[OF c1]
  have w1: "write_number 3 0 1 None s0
         = (Return 0, store_cell 3 0 (Number 1 None) (after_previous_row 3 c1))"
    using write_number_ok[OF c1] by (simp add: s0_def streaming_fresh)
  define sA where "sA = store_cell 3 0 (Number 1 None) (after_previous_row 3 c1)"
  have A: "optimization sA = 1" "previous_row sA = 3"
    "table sA = (\<lambda>_. Map.empty)(3 := [0 \<mapsto> Number 1 None])"
    using f1 by (simp_all add: sA_def s0_def streaming_fresh)
  obtain c2 where c2: "check_dimensions 5 0 False False sA = (0, c2)"
    using check_dimensions_okE[OF b(2,3), of sA] A by auto
  have "inline_strings sA" using A(3) by (simp add: inline_strings_def)
  then have w2: "write_number 5 0 2 None sA
         = (Return 0, store_cell 5 0 (Number 2 None) (after_previous_row 5 c2))"
    using write_number_ok[OF c2] by simp
  show ?thesis using c1 w1 c2 w2 unfolding sA_def s0_def by blast
qed

lemma for_cells_blank_none:
  "for_cells cells (\<lambda>row col. write_blank row col None) s = (None, s)"
  by (induction cells) (auto simp: write_blank_def)

lemma after_previous_row_buffered:
  "optimization s = 0 \<Longrightarrow> after_previous_row row s = s"
  by (simp add: after_previous_row_def)

lemma write_blank_buffered:
  assumes o: "optimization s = 0" and b: "row < xls_rowmax" "col < xls_colmax"
  shows "write_blank row col (Some f) s
           = (Return 0, store_cell row col (Blank (Some f))
                (snd (check_dimensions row col False False s)))"
proof -
  obtain s1 where c: "check_dimensions row col False False s = (0, s1)"
    using check_dimensions_okE[OF b, of s] o by auto
  have "optimization s1 = 0" using check_dimensions_frame[OF c] o by simp
  then show ?thesis using write_blank_ok[OF c, of f] o c
    by (simp add: after_previous_row_buffered)
qed

lemma for_cells_blank:
  assumes "optimization s = 0" "\<forall>(row, col) \<in> set cells. row < xls_rowmax \<and> col < xls_colmax"
  shows "\<exists>s'. for_cells cells (\<lambda>row col. write_blank row col (Some f)) s = (None, s')
     \<and> optimization s' = 0 \<and> merge s' = merge s \<and> str_table s' = str_table s
     \<and> (\<forall>row col. table s' row col
            = (if (row, col) \<in> set cells then Some (Blank (Some f)) else table s row col))"
  using assms
proof (induction cells arbitrary: s)
  case Nil
  then show ?case by simp
next
  case (Cons p cells)
  obtain r c where p: "p = (r, c)" by (cases p)
  define s1 where "s1 = store_cell r c (Blank (Some f)) (snd (check_dimensions r c False False s))"
  have b: "r < xls_rowmax" "c < xls_colmax" using Cons.prems(2) p by auto
  have w: "write_blank r c (Some f) s = (Return 0, s1)"
    using write_blank_buffered[OF Cons.prems(1) b] by (simp add: s1_def)
  have fr: "optimization s1 = 0" "merge s1 = merge s" "str_table s1 = str_table s"
    "table s1 = (table s)(r := (table s r)(c \<mapsto> Blank (Some f)))"
    using check_dimensions_frame[of r c False False s
        "fst (check_dimensions r c False False s)" "snd (check_dimensions r c False False s)"]
      Cons.prems(1)
    by (simp_all add: s1_def)
  have "\<forall>(row, col) \<in> set cells. row < xls_rowmax \<and> col < xls_colmax"
    using Cons.prems(2) by simp
  from Cons.IH[OF fr(1) this] obtain s' where
    s': "for_cells cells (\<lambda>row col. write_blank row col (Some f)) s1 = (None, s')"
      "optimization s' = 0" "merge s' = merge s1" "str_table s' = str_table s1"
      "\<forall>row col. table s' row col
            = (if (row, col) \<in> set cells then Some (Blank (Some f)) else table s1 row col)"
    by blast
  have "for_cells (p # cells) (\<lambda>row col. write_blank row col (Some f)) s = (None, s')"
    using w s'(1) p by simp
  moreover have "\<forall>row col. table s' row col
            = (if (row, col) \<in> set (p # cells) then Some (Blank (Some f)) else table s row col)"
    using s'(5) fr(4) p by auto
  ultimately show ?case using s'(2-4) fr by auto
qed

lemma range_cells_iff:
  "(row, col) \<in> set (range_cells first_row first_col last_row last_col)
     \<longleftrightarrow> first_row \<le> row \<and> row \<le> last_row \<and> first_col \<le> col \<and> col \<le> last_col
          \<and> (row \<noteq> first_row \<or> col \<noteq> first_col)"
  by (auto simp: range_cells_def)

lemma write_previous_row_buffered:
  "optimization s = 0 \<Longrightarrow> write_previous_row row s = (None, s)"
  by (simp add: write_previous_row_def)

lemma write_number_buffered_frame:
  assumes o: "optimization s = 0" and r: "write_number row col x f s = (out, s')"
  shows "optimization s' = 0 \<and> merge s' = merge s"
proof -
  obtain rc s1 where c: "check_dimensions row col False False s = (rc, s1)"
    by (cases "check_dimensions row col False False s")
  note fr = check_dimensions_frame[OF c]
  have "optimization s1 = 0" using fr o by simp
  then show ?thesis using r c fr o
    by (auto simp: write_number_def write_previous_row_buffered split: if_splits)
qed

lemma for_cells_frame:
  assumes "\<And>row col s out s'. optimization s = 0 \<Longrightarrow> f row col s = (out, s')
             \<Longrightarrow> optimization s' = 0 \<and> merge s' = merge s"
    and "optimization s = 0" "for_cells cells f s = (e, s')"
  shows "optimization s' = 0 \<and> merge s' = merge s"
  using assms(2,3)
proof (induction cells arbitrary: s)
  case Nil
  then show ?case by simp
next
  case (Cons p cells)
  obtain r c where p: "p = (r, c)" by (cases p)
  obtain out s1 where w: "f r c s = (out, s1)" by (cases "f r c s")
  note f1 = assms(1)[OF Cons.prems(1) w]
  show ?case
  proof (cases out)
    case (Return x)
    then have "for_cells cells f s1 = (e, s')" using Cons.prems(2) p w by simp
    from Cons.IH[OF _ this] f1 show ?thesis by simp
  next
    case (Raise x)
    then have "s' = s1" using Cons.prems(2) p w by simp
    then show ?thesis using f1 by simp
  qed
qed

lemma write_array_formula_buffered_frame:
  assumes o: "optimization s = 0"
    and r: "write_array_formula fr0 fc0 lr0 lc0 formula f v s = (out, s')"
  shows "optimization s' = 0 \<and> merge s' = merge s"
proof -
  define first_row where "first_row = (if fr0 > lr0 then lr0 else fr0)"
  define last_row where "last_row = (if fr0 > lr0 then fr0 else lr0)"
  define first_col where "first_col = (if fc0 > lc0 then lc0 else fc0)"
  define last_col where "last_col = (if fc0 > lc0 then fc0 else lc0)"
  obtain rc s1 where c: "check_dimensions last_row last_col False False s = (rc, s1)"
    by (cases "check_dimensions last_row last_col False False s")
  note fr = check_dimensions_frame[OF c]
  have o1: "optimization s1 = 0" "merge s1 = merge s" using fr o by simp_all
  show ?thesis
  proof (cases "rc = 0")
    case False
    then show ?thesis using r c o1
      unfolding write_array_formula_def Let_def first_row_def[symmetric] last_row_def[symmetric]
        first_col_def[symmetric] last_col_def[symmetric]
      by auto
  next
    case True
    show ?thesis
    proof (cases "strip_array_formula formula")
      case (Inl e)
      then show ?thesis using r c o1 True
        unfolding write_array_formula_def Let_def first_row_def[symmetric] last_row_def[symmetric]
          first_col_def[symmetric] last_col_def[symmetric]
        by auto
    next
      case (Inr f3)
      define s3 where "s3 = store_cell first_row first_col
          (ArrayFormula f3 f v
             (if first_row = last_row \<and> first_col = last_col
              then xl_rowcol_to_cell first_row first_col
              else xl_rowcol_to_cell first_row first_col @ '':''
                   @ xl_rowcol_to_cell last_row last_col)) s1"
      have o3: "optimization s3 = 0" "merge s3 = merge s" using o1 by (simp_all add: s3_def)
      obtain e s4 where fc: "for_cells (range_cells first_row first_col last_row last_col)
                               (\<lambda>row col. write_number row col 0 f) s3 = (e, s4)"
        by (cases "for_cells (range_cells first_row first_col last_row last_col)
                               (\<lambda>row col. write_number row col 0 f) s3")
      have f4: "optimization s4 = 0 \<and> merge s4 = merge s3"
        by (rule for_cells_frame[OF _ o3(1) fc]) (rule write_number_buffered_frame)
      have "write_array_formula fr0 fc0 lr0 lc0 formula f v s
              = (case e of Some e \<Rightarrow> (Raise e, s4) | None \<Rightarrow> (Return 0, s4))"
        using c True Inr o1 fc
        unfolding write_array_formula_def Let_def first_row_def[symmetric] last_row_def[symmetric]
          first_col_def[symmetric] last_col_def[symmetric] s3_def[symmetric]
        by (simp add: write_previous_row_buffered s3_def[symmetric] split: option.splits)
      then have "s' = s4" using r by (cases e) simp_all
      then show ?thesis using f4 o3 by simp
    qed
  qed
qed

lemma write_string_buffered_frame:
  assumes o: "optimization s = 0" and r: "write_string row col string f s = (out, s')"
  shows "optimization s' = 0 \<and> merge s' = merge s"
proof -
  obtain rc s1 where c: "check_dimensions row col False False s = (rc, s1)"
    by (cases "check_dimensions row col False False s")
  note fr = check_dimensions_frame[OF c]
  have o1: "optimization s1 = 0" using fr o by simp
  show ?thesis
  proof (cases "rc = 0")
    case False
    then show ?thesis using r c fr o by (auto simp: write_string_def)
  next
    case True
    then have c0: "check_dimensions row col False False s = (0, s1)" using c by simp
    show ?thesis using r fr o write_string_ok[OF c0, of string f] by auto
  qed
qed

lemma write_datetime_buffered_frame:
  assumes o: "optimization s = 0" and r: "write_datetime row col d f s = (out, s')"
  shows "optimization s' = 0 \<and> merge s' = merge s"
proof -
  obtain rc s1 where c: "check_dimensions row col False False s = (rc, s1)"
    by (cases "check_dimensions row col False False s")
  note fr = check_dimensions_frame[OF c]
  have "optimization s1 = 0" using fr o by simp
  then show ?thesis using r c fr o
    by (auto simp: write_datetime_def write_previous_row_buffered split: if_splits)
qed

lemma write_blank_buffered_frame:
  assumes o: "optimization s = 0" and r: "write_blank row col f s = (out, s')"
  shows "optimization s' = 0 \<and> merge s' = merge s"
proof (cases f)
  case None
  then show ?thesis using r o by (simp add: write_blank_def)
next
  case (Some fm)
  obtain rc s1 where c: "check_dimensions row col False False s = (rc, s1)"
    by (cases "check_dimensions row col False False s")
  note fr = check_dimensions_frame[OF c]
  have "optimization s1 = 0" using fr o by simp
  then show ?thesis using r c fr o Some
    by (auto simp: write_blank_def write_previous_row_buffered split: if_splits)
qed

lemma write_formula_buffered_frame:
  assumes o: "optimization s = 0" and r: "write_formula row col formula f v s = (out, s')"
  shows "optimization s' = 0 \<and> merge s' = merge s"
proof -
  obtain rc s1 where c: "check_dimensions row col False False s = (rc, s1)"
    by (cases "check_dimensions row col False False s")
  note fr = check_dimensions_frame[OF c]
  have o1: "optimization s1 = 0" "merge s1 = merge s" using fr o by simp_all
  show ?thesis
  proof (cases "rc = 0")
    case False
    then show ?thesis using r c o1 by (auto simp: write_formula_def)
  next
    case True
    show ?thesis
    proof (cases "startswith formula ''{'' \<and> endswith formula ''}''")
      case a: True
      then have "write_array_formula row col row col formula f v s1 = (out, s')"
        using r c True by (simp add: write_formula_def)
      from write_array_formula_buffered_frame[OF o1(1) this] o1 show ?thesis by simp
    next
      case False
      then show ?thesis using r c True o1
        by (auto simp: write_formula_def Let_def write_previous_row_buffered)
    qed
  qed
qed

lemma write_rich_string_buffered_frame:
  assumes o: "optimization s = 0" and r: "write_rich_string row col args s = (out, s')"
  shows "optimization s' = 0 \<and> merge s' = merge s"
proof -
  obtain rc s1 where c: "check_dimensions row col False False s = (rc, s1)"
    by (cases "check_dimensions row col False False s")
  note fr = check_dimensions_frame[OF c]
  have o1: "optimization s1 = 0" "merge s1 = merge s" using fr o by simp_all
  show ?thesis
  proof (cases "rc = 0")
    case False
    then show ?thesis using r c o1 by (auto simp: write_rich_string_def)
  next
    case True
    then have c0: "check_dimensions row col False False s = (0, s1)" using c by simp
    show ?thesis
    proof (cases "rich_string args")
      case (Inl ended)
      then show ?thesis using r o1 write_rich_string_ended[OF c0 Inl] by simp
    next
      case (Inr p)
      obtain string cf where p: "p = (string, cf)" by (cases p) auto
      show ?thesis using r o o1 write_rich_string_ok[OF c0 _ Inr[unfolded p]] by auto
    qed
  qed
qed

lemma write_url_buffered_frame:
  assumes o: "optimization s = 0" and r: "write_url row col u f str tp s = (out, s')"
  shows "optimization s' = 0 \<and> merge s' = merge s"
proof -
  obtain rc s1 where c: "check_dimensions row col False False s = (rc, s1)"
    by (cases "check_dimensions row col False False s")
  obtain lt u3 string where d: "url_display u str = (lt, u3, string)"
    by (cases "url_display u str") auto
  note fr = check_dimensions_frame[OF c]
  have o1: "optimization s1 = 0" "merge s1 = merge s" using fr o by simp_all
  show ?thesis
  proof (cases "rc = 0")
    case False
    then show ?thesis using r c d o1 by (auto simp: write_url_def)
  next
    case True
    then have c0: "check_dimensions row col False False s = (0, s1)" using c by simp
    note u = write_url_checked[OF c0 d, of f tp]
    show ?thesis
    proof (cases "length string > xls_strmax")
      case True
      then show ?thesis using r o1 unfolding u by auto
    next
      case long: False
      show ?thesis
      proof (cases "url_location lt u3 string")
        case (Inl e)
        then show ?thesis using r long o1 unfolding u by auto
      next
        case (Inr q)
        obtain url url_str lt1 where q: "q = (url, url_str, lt1)" by (cases q) auto
        show ?thesis
        proof (cases "length url > 255")
          case True
          then show ?thesis using r long Inr q o1 unfolding u by auto
        next
          case short: False
          define s2 where "s2 = s1\<lparr>hlink_count := hlink_count s1 + 1\<rparr>"
          have o2: "optimization s2 = 0" "merge s2 = merge s" using o1 by (simp_all add: s2_def)
          show ?thesis
          proof (cases "hlink_count s2 > 65530")
            case True
            then show ?thesis using r long Inr q short o2 unfolding u
              by (auto simp: Let_def s2_def)
          next
            case False
            obtain oc s4 where ws: "write_string row col string f s2 = (oc, s4)"
              by (cases "write_string row col string f s2")
            note f4 = write_string_buffered_frame[OF o2(1) ws]
            have "write_url row col u f str tp s =
                (case oc of Raise e \<Rightarrow> (Raise e, s4)
                    | Return _ \<Rightarrow> (Return 0,
                             s4\<lparr>hyperlinks := (hyperlinks s4)
                                   (row := (hyperlinks s4 row)
                                      (col \<mapsto> \<lparr>hl_link_type = lt1, hl_url = url,
                                               hl_str = url_str, hl_tip = tp\<rparr>))\<rparr>))"
              unfolding u using long Inr q short False ws o2
              by (simp add: Let_def s2_def[symmetric] split: outcome.splits)
            then show ?thesis using r f4 o2 by (cases oc) auto
          qed
        qed
      qed
    qed
  qed
qed

lemma buffered_frame:
  assumes o: "optimization s = 0" and r: "apply_write w s = (out, s')"
  shows "optimization s' = 0 \<and> merge s' = merge s"
proof (cases w)
  case (WriteString row col string f)
  then show ?thesis using write_string_buffered_frame[OF o, of row col string f out s'] r by simp
next
  case (WriteNumber row col x f)
  then show ?thesis using write_number_buffered_frame[OF o, of row col x f out s'] r by simp
next
  case (WriteBlank row col f)
  then show ?thesis using write_blank_buffered_frame[OF o, of row col f out s'] r by simp
next
  case (WriteFormula row col formula f v)
  then show ?thesis using write_formula_buffered_frame[OF o, of row col formula f v out s'] r
    by simp
next
  case (WriteArrayFormula fr fc lr lc formula f v)
  then show ?thesis
    using write_array_formula_buffered_frame[OF o, of fr fc lr lc formula f v out s'] r by simp
next
  case (WriteDatetime row col d f)
  then show ?thesis using write_datetime_buffered_frame[OF o, of row col d f out s'] r by simp
next
  case (WriteUrl row col u f str tp)
  then show ?thesis using write_url_buffered_frame[OF o, of row col u f str tp out s'] r by simp
next
  case (WriteRichString row col args)
  then show ?thesis using write_rich_string_buffered_frame[OF o, of row col args out s'] r
    by simp
qed

lemma write_generic_op:
  "\<exists>w. write_generic row col tok cf s = apply_write w s \<and> op_row w = row \<and> op_col w = col"
proof -
  have 1: "\<exists>w. write_datetime row col d cf s = apply_write w s \<and> op_row w = row \<and> op_col w = col" for d
    by (rule exI[of _ "WriteDatetime row col d cf"]) auto
  have 2: "\<exists>w. write_number row col x cf s = apply_write w s \<and> op_row w = row \<and> op_col w = col" for x
    by (rule exI[of _ "WriteNumber row col x cf"]) auto
  have 3: "\<exists>w. write_blank row col cf s = apply_write w s \<and> op_row w = row \<and> op_col w = col"
    by (rule exI[of _ "WriteBlank row col cf"]) auto
  have 4: "\<exists>w. write_formula row col x cf v s = apply_write w s \<and> op_row w = row \<and> op_col w = col" for x v
    by (rule exI[of _ "WriteFormula row col x cf v"]) auto
  have 5: "\<exists>w. write_url row col x cf a b s = apply_write w s \<and> op_row w = row \<and> op_col w = col" for x a b
    by (rule exI[of _ "WriteUrl row col x cf a b"]) auto
  have 6: "\<exists>w. write_string row col x cf s = apply_write w s \<and> op_row w = row \<and> op_col w = col" for x
    by (rule exI[of _ "WriteString row col x cf"]) auto
  show ?thesis
  proof (cases tok)
    case TokNone
    then show ?thesis using 3 by (simp add: write_generic_def)
  next
    case (TokDatetime d)
    then show ?thesis using 1 by (simp add: write_generic_def)
  next
    case (TokNumeric x)
    then show ?thesis using 2 by (simp add: write_generic_def)
  next
    case (TokText tx)
    then show ?thesis using 3 4 5 6 by (simp add: write_generic_def)
  qed
qed

lemma merge_range_buffered:
  assumes o: "optimization s = 0"
    and n: "first_row \<noteq> last_row \<or> first_col \<noteq> last_col"
    and b: "max first_row last_row < xls_rowmax" "max first_col last_col < xls_colmax"
    and w: "write_generic (min first_row last_row) (min first_col last_col) data (Some f)
              ((snd (check_dimensions (max first_row last_row) (min first_col last_col)
                       False False s))
               \<lparr>merge := merge s @ [(min first_row last_row, min first_col last_col,
                                      max first_row last_row, max first_col last_col)]\<rparr>)
            = (out, s3)"
  shows "optimization s3 = 0
     \<and> merge s3 = merge s @ [(min first_row last_row, min first_col last_col,
                              max first_row last_row, max first_col last_col)]
     \<and> (\<forall>e. out = Raise e \<longrightarrow>
           merge_range first_row first_col last_row last_col data (Some f) s = (Some e, s3))
     \<and> (\<forall>rc. out = Return rc \<longrightarrow>
          (\<exists>s'. merge_range first_row first_col last_row last_col data (Some f) s = (None, s')
             \<and> merge s' = merge s3 \<and> str_table s' = str_table s3
             \<and> (\<forall>row col. table s' row col
                  = (if min first_row last_row \<le> row \<and> row \<le> max first_row last_row
                        \<and> min first_col last_col \<le> col \<and> col \<le> max first_col last_col
                        \<and> (row \<noteq> min first_row last_row \<or> col \<noteq> min first_col last_col)
                     then Some (Blank (Some f)) else table s3 row col))))"
proof -
  define ar where "ar = min first_row last_row"
  define ac where "ac = min first_col last_col"
  define zr where "zr = max first_row last_row"
  define zc where "zc = max first_col last_col"
  have mm: "(if first_row > last_row then last_row else first_row) = ar"
    "(if first_row > last_row then first_row else last_row) = zr"
    "(if first_col > last_col then last_col else first_col) = ac"
    "(if first_col > last_col then first_col else last_col) = zc"
    by (auto simp: ar_def ac_def zr_def zc_def)
  have bb: "zr < xls_rowmax" "ac < xls_colmax" "zc < xls_colmax"
    using b by (auto simp: ac_def zr_def zc_def)
  obtain s1 where c: "check_dimensions zr ac False False s = (0, s1)"
    using check_dimensions_okE[OF bb(1,2), of s] o by auto
  note fr = check_dimensions_frame[OF c]
  define s2 where "s2 = s1\<lparr>merge := merge s1 @ [(ar, ac, zr, zc)]\<rparr>"
  have o2: "optimization s2 = 0" "merge s2 = merge s @ [(ar, ac, zr, zc)]"
    using fr o by (simp_all add: s2_def)
  have w': "write_generic ar ac data (Some f) s2 = (out, s3)"
    using w c fr unfolding ar_def[symmetric] ac_def[symmetric] zr_def[symmetric]
      zc_def[symmetric] by (simp add: s2_def)
  obtain wo where "write_generic ar ac data (Some f) s2 = apply_write wo s2"
    using write_generic_op[of ar ac data "Some f" s2] by blast
  then have f3: "optimization s3 = 0 \<and> merge s3 = merge s2"
    using buffered_frame[OF o2(1), of wo out s3] w' by simp
  have m: "merge_range first_row first_col last_row last_col data (Some f) s
      = (case out of Raise e \<Rightarrow> (Some e, s3)
         | Return _ \<Rightarrow> for_cells (range_cells ar ac zr zc)
                          (\<lambda>row col. write_blank row col (Some f)) s3)"
  proof -
    have n': "\<not> (first_row = last_row \<and> first_col = last_col)" using n by simp
    show ?thesis
      unfolding merge_range_def Let_def mm using c w'
      by (simp add: n' s2_def[symmetric] split: outcome.splits)
  qed
  have inb: "\<forall>(row, col) \<in> set (range_cells ar ac zr zc). row < xls_rowmax \<and> col < xls_colmax"
    using bb by (auto simp: range_cells_iff)
  from for_cells_blank[OF _ inb, of s3 f] f3 obtain s' where
    s': "for_cells (range_cells ar ac zr zc) (\<lambda>row col. write_blank row col (Some f)) s3
           = (None, s')"
      "merge s' = merge s3" "str_table s' = str_table s3"
      "\<forall>row col. table s' row col
            = (if (row, col) \<in> set (range_cells ar ac zr zc) then Some (Blank (Some f))
               else table s3 row col)"
    by blast
  have 1: "\<forall>e. out = Raise e \<longrightarrow>
           merge_range first_row first_col last_row last_col data (Some f) s = (Some e, s3)"
    using m by simp
  have 2: "\<forall>rc. out = Return rc \<longrightarrow>
          (\<exists>s'. merge_range first_row first_col last_row last_col data (Some f) s = (None, s')
             \<and> merge s' = merge s3 \<and> str_table s' = str_table s3
             \<and> (\<forall>row col. table s' row col
                  = (if ar \<le> row \<and> row \<le> zr \<and> ac \<le> col \<and> col \<le> zc
                        \<and> (row \<noteq> ar \<or> col \<noteq> ac)
                     then Some (Blank (Some f)) else table s3 row col)))"
    using m s' by (auto simp: range_cells_iff)
  show ?thesis
    unfolding ar_def[symmetric] ac_def[symmetric] zr_def[symmetric] zc_def[symmetric]
    using f3 o2 1 2 by simp
qed

lemma write_generic_number:
  "write_generic row col (TokNumeric x) cf s = write_number row col x cf s"
  by (simp add: write_generic_def)

lemma write_generic_none:
  "write_generic row col TokNone cf s = write_blank row col cf s"
  by (simp add: write_generic_def)

lemma write_number_buffered:
  assumes o: "optimization s = 0" and b: "row < xls_rowmax" "col < xls_colmax"
  shows "write_number row col x f s
           = (Return 0, store_cell row col (Number x f)
                (snd (check_dimensions row col False False s)))"
proof -
  obtain s1 where c: "check_dimensions row col False False s = (0, s1)"
    using check_dimensions_okE[OF b, of s] o by auto
  have "optimization s1 = 0" using check_dimensions_frame[OF c] o by simp
  then show ?thesis using write_number_ok[OF c, of x f] o c
    by (simp add: after_previous_row_buffered)
qed

lemma check_dimensions_stored:
  assumes "check_dimensions row col False False s = (0, s1)"
  shows "s1 = s\<lparr>dim_rowmin := Some (case dim_rowmin s of None \<Rightarrow> row | Some m \<Rightarrow> min m row),
                 dim_rowmax := Some (case dim_rowmax s of None \<Rightarrow> row | Some m \<Rightarrow> max m row),
                 dim_colmin := Some (case dim_colmin s of None \<Rightarrow> col | Some m \<Rightarrow> min m col),
                 dim_colmax := Some (case dim_colmax s of None \<Rightarrow> col | Some m \<Rightarrow> max m col)\<rparr>"
proof -
  have a: "(case x of None \<Rightarrow> Some r | Some m \<Rightarrow> if r < m then Some r else Some m)
             = Some (case x of None \<Rightarrow> r | Some m \<Rightarrow> min m r)" for x :: "int option" and r
    by (cases x) (auto simp: min_def)
  have b: "(case x of None \<Rightarrow> Some r | Some m \<Rightarrow> if r > m then Some r else Some m)
             = Some (case x of None \<Rightarrow> r | Some m \<Rightarrow> max m r)" for x :: "int option" and r
    by (cases x) (auto simp: max_def)
  have n: "\<not> (row \<ge> xls_rowmax \<or> col \<ge> xls_colmax)"
    "\<not> (optimization s = 1 \<and> row < previous_row s)"
    using assms by (auto simp: check_dimensions_def Let_def split: if_splits)
  have "check_dimensions row col False False s
      = (0, s\<lparr>dim_rowmin := (case dim_rowmin s of None \<Rightarrow> Some row
                                          | Some m \<Rightarrow> if row < m then Some row else Some m),
                 dim_rowmax := (case dim_rowmax s of None \<Rightarrow> Some row
                                          | Some m \<Rightarrow> if row > m then Some row else Some m),
                 dim_colmin := (case dim_colmin s of None \<Rightarrow> Some col
                                           | Some m \<Rightarrow> if col < m then Some col else Some m),
                 dim_colmax := (case dim_colmax s of None \<Rightarrow> Some col
                                           | Some m \<Rightarrow> if col > m then Some col else Some m)\<rparr>)"
    using n by (simp add: check_dimensions_def Let_def)
  then show ?thesis using assms unfolding a b by simp
qed

lemma check_dimensions_passed:
  assumes "apply_write w s = (Return rc, s')" "rc \<noteq> -1" "\<not> blank_without_format w"
  shows "check_dimensions (op_row w) (op_col w) False False s
           = (0, snd (check_dimensions (op_row w) (op_col w) False False s))"
proof -
  obtain rc0 s1 where c: "check_dimensions (op_row w) (op_col w) False False s = (rc0, s1)"
    by (cases "check_dimensions (op_row w) (op_col w) False False s")
  have "rc0 = 0"
  proof (rule ccontr)
    assume "rc0 \<noteq> 0"
    from apply_write_rejected[OF c this] assms show False by simp
  qed
  then show ?thesis using c by simp
qed

lemma error_result_shape:
  assumes r: "apply_write w s = (Return rc, s')" and e: "rc \<noteq> 0"
  shows "(rc = -1 \<and> s' = s)
     \<or> (rc = -2 \<and> is_write_string w)
     \<or> ((rc = -2 \<or> rc = -3) \<and> (is_write_url w \<or> is_write_rich_string w)
          \<and> s' = snd (check_dimensions (op_row w) (op_col w) False False s))
     \<or> (rc = -5 \<and> is_write_url w)"
proof (cases w)
  case (WriteString row col str f)
  then show ?thesis using r e write_string_error[of row col str f s rc s'] by auto
next
  case (WriteNumber row col x f)
  then show ?thesis using r e write_number_error[of row col x f s rc s'] by auto
next
  case (WriteBlank row col f)
  then show ?thesis using r e write_blank_error[of row col f s rc s'] by auto
next
  case (WriteFormula row col formula f v)
  then show ?thesis using r e write_formula_error[of row col formula f v s rc s'] by auto
next
  case (WriteArrayFormula fr fc lr lc formula f v)
  then show ?thesis using r e write_array_formula_error[of fr fc lr lc formula f v s rc s']
    by auto
next
  case (WriteDatetime row col d f)
  then show ?thesis using r e write_datetime_error[of row col d f s rc s'] by auto
next
  case (WriteUrl row col u f str tp)
  then have "write_url row col u f str tp s = (Return rc, s')" using r by simp
  from write_url_error[OF this e] show ?thesis using WriteUrl by auto
next
  case (WriteRichString row col args)
  then have "write_rich_string row col args s = (Return rc, s')" using r by simp
  from write_rich_string_error[OF this e] show ?thesis using WriteRichString by auto
qed

subsection \<open>Blank cells without a format\<close>

text \<open>
  C10. Whatever the row and the column, also out of bounds, \<open>write_blank\<close> with no
  format returns 0 and leaves the worksheet as it is: the call returns before the
  bounds check. So a call that changes the worksheet passed a format; and with a
  format, in bounds and in buffered mode, the Blank cell is stored.
\<close>

theorem write_blank_no_format:
  "write_blank row col None s = (Return 0, s)
   \<and> (snd (write_blank row col cell_format s) \<noteq> s \<longrightarrow> cell_format \<noteq> None)
   \<and> (cell_format \<noteq> None \<and> row < xls_rowmax \<and> col < xls_colmax \<and> optimization s = 0
        \<longrightarrow> table (snd (write_blank row col cell_format s)) row col = Some (Blank cell_format))"
proof (intro conjI impI)
  show "write_blank row col None s = (Return 0, s)"
    by (simp add: write_blank_def)
  show "cell_format \<noteq> None" if "snd (write_blank row col cell_format s) \<noteq> s"
    using that by (cases cell_format) (simp_all add: write_blank_def)
  show "table (snd (write_blank row col cell_format s)) row col = Some (Blank cell_format)"
    if h: "cell_format \<noteq> None \<and> row < xls_rowmax \<and> col < xls_colmax \<and> optimization s = 0"
  proof -
    obtain rc s1 where c: "check_dimensions row col False False s = (rc, s1)"
      by (cases "check_dimensions row col False False s")
    have "rc = 0" using check_dimensions_buffered[of row col s] h c by simp
    moreover have "optimization s1 = 0" using check_dimensions_frame[OF c] h by simp
    ultimately show ?thesis using h c
      by (cases cell_format) (simp_all add: write_blank_def write_previous_row_def store_cell_def)
  qed
qed

theorem write_blank_no_format_witness:
  "write_blank 1048576 0 None Worksheet_init = (Return 0, Worksheet_init)
   \<and> table (snd (write_blank 0 0 (Some default_format) Worksheet_init)) 0 0
       = Some (Blank (Some default_format))
   \<and> snd (write_blank 0 0 (Some default_format) Worksheet_init) \<noteq> Worksheet_init"
proof -
  have a: "write_blank 1048576 0 None Worksheet_init = (Return 0, Worksheet_init)"
    using write_blank_no_format[of 1048576 0 Worksheet_init None] by simp
  have pre: "Some default_format \<noteq> None \<and> (0::int) < xls_rowmax \<and> (0::int) < xls_colmax
             \<and> optimization Worksheet_init = 0"
    by (simp add: xls_rowmax_def xls_colmax_def Worksheet_init_def)
  have b: "table (snd (write_blank 0 0 (Some default_format) Worksheet_init)) 0 0
             = Some (Blank (Some default_format))"
    using write_blank_no_format[of 0 0 Worksheet_init "Some default_format"] pre by blast
  have "table Worksheet_init 0 0 = None" by (simp add: Worksheet_init_def)
  with b have c: "snd (write_blank 0 0 (Some default_format) Worksheet_init) \<noteq> Worksheet_init"
    by auto
  show ?thesis using a b c by blast
qed

subsection \<open>Writes out of bounds\<close>

text \<open>
  C2, as stated, fails: \<open>write_blank\<close> with no format, at a row beyond the last row
  of the sheet, returns 0 and not the out-of-bounds result.
\<close>

theorem out_of_bounds_blank_counterexample:
  "(1048576::int) \<ge> xls_rowmax
   \<and> write_blank 1048576 0 None Worksheet_init = (Return 0, Worksheet_init)
   \<and> Return 0 \<noteq> Return (-1)"
  by (simp add: xls_rowmax_def write_blank_def)

text \<open>
  C2, amended. A typed write whose row is at least 1,048,576 or whose column is at
  least 16,384 (for an array formula: whose range reaches such a row or column) leaves
  the worksheet exactly as it is, and returns -1, except \<open>write_blank\<close> with no
  format, which returns 0.
\<close>

theorem out_of_bounds_write:
  assumes "op_row w \<ge> xls_rowmax \<or> op_col w \<ge> xls_colmax"
  shows "apply_write w s = (if blank_without_format w then Return 0 else Return (-1), s)"
proof (cases w)
  case (WriteBlank row col f)
  then show ?thesis using assms
    by (cases f) (auto simp: write_blank_def check_dimensions_out_of_bounds)
next
  case (WriteArrayFormula fr fc lr lc formula f v)
  then show ?thesis using assms
    by (auto simp: write_array_formula_def check_dimensions_out_of_bounds Let_def max_def)
qed (use assms in \<open>auto simp: write_string_def write_number_def write_formula_def
      write_datetime_def write_url_def write_rich_string_def check_dimensions_out_of_bounds Let_def\<close>)

theorem out_of_bounds_write_witness:
  "apply_write (WriteString 1048576 0 ''abc'' None) Worksheet_init = (Return (-1), Worksheet_init)
   \<and> apply_write (WriteNumber 0 16384 1 None) Worksheet_init = (Return (-1), Worksheet_init)"
proof -
  have "op_row (WriteString 1048576 0 ''abc'' None) \<ge> xls_rowmax
        \<or> op_col (WriteString 1048576 0 ''abc'' None) \<ge> xls_colmax"
    by (simp add: xls_rowmax_def)
  moreover have "op_row (WriteNumber 0 16384 1 None) \<ge> xls_rowmax
        \<or> op_col (WriteNumber 0 16384 1 None) \<ge> xls_colmax"
    by (simp add: xls_colmax_def)
  ultimately show ?thesis
    using out_of_bounds_write[of "WriteString 1048576 0 ''abc'' None" Worksheet_init]
      out_of_bounds_write[of "WriteNumber 0 16384 1 None" Worksheet_init]
    by simp
qed

subsection \<open>Autofilter criteria\<close>

text \<open>
  C8. The three expressions, tokenised by \<open>_extract_filter_tokens\<close> and parsed by
  \<open>_parse_filter_expression\<close>: equal (2) with "2000"; greater than (4) with "2000",
  the and-glue (0), less than (1) with "5000"; the top-rank operator (30) with "10".
\<close>

theorem filter_expression_examples:
  "parse_filter_expression ''x == 2000'' (extract_filter_tokens ''x == 2000'')
     = Inr [FInt 2, FStr ''2000'']
   \<and> parse_filter_expression ''x > 2000 and x < 5000''
         (extract_filter_tokens ''x > 2000 and x < 5000'')
     = Inr [FInt 4, FStr ''2000'', FInt 0, FInt 1, FStr ''5000'']
   \<and> parse_filter_expression ''top 10 items'' (extract_filter_tokens ''top 10 items'')
     = Inr [FInt 30, FStr ''10'']"
  by code_simp

subsection \<open>Synthesised formulas\<close>

text \<open>
  C9. A "last month" rule on the single cell B2: the formula refers to B2 three times
  and once to the fixed cell A1, where the formula of "continue month", built the same
  way, refers to B2 throughout.
\<close>

theorem last_month_formula_fixed_cell:
  "xl_rowcol_to_cell 1 1 = ''B2''
   \<and> conditional_format_formula 1 1 1 1 ''time_period'' (Some ''last month'') None Worksheet_init
     = Inr (Some (''AND(MONTH(B2)=MONTH(TODAY())-1,OR(YEAR(B2)=YEAR(TODAY()),''
                  @ ''AND(MONTH(B2)=1,YEAR(A1)=YEAR(TODAY())-1)))''))
   \<and> conditional_format_formula 1 1 1 1 ''time_period'' (Some ''continue month'') None
       Worksheet_init
     = Inr (Some (''AND(MONTH(B2)=MONTH(TODAY())+1,OR(YEAR(B2)=YEAR(TODAY()),''
                  @ ''AND(MONTH(B2)=12,YEAR(B2)=YEAR(TODAY())+1)))''))"
proof -
  have c: "fst (check_dimensions 1 1 True True Worksheet_init) = 0"
    by (simp add: check_dimensions_def xls_rowmax_def xls_colmax_def)
  have 1: "xl_rowcol_to_cell 1 1 = ''B2''" by code_simp
  have 2: "synthesise_formula ''timePeriod'' (Some ''lastMonth'') None ''B2''
     = Inr (Some (''AND(MONTH(B2)=MONTH(TODAY())-1,OR(YEAR(B2)=YEAR(TODAY()),''
                  @ ''AND(MONTH(B2)=1,YEAR(A1)=YEAR(TODAY())-1)))''))"
    by code_simp
  have 3: "synthesise_formula ''timePeriod'' (Some ''continueMonth'') None ''B2''
     = Inr (Some (''AND(MONTH(B2)=MONTH(TODAY())+1,OR(YEAR(B2)=YEAR(TODAY()),''
                  @ ''AND(MONTH(B2)=12,YEAR(B2)=YEAR(TODAY())+1)))''))"
    by code_simp
  have t: "map_of valid_type ''time_period'' = Some ''timePeriod''" by code_simp
  have k: "(case map_of criteria_type ''last month'' of None \<Rightarrow> Some ''last month''
            | Some c1 \<Rightarrow> Some c1) = Some ''lastMonth''"
    "(case map_of criteria_type ''continue month'' of None \<Rightarrow> Some ''continue month''
      | Some c1 \<Rightarrow> Some c1) = Some ''continueMonth''"
    by code_simp+
  have a: "conditional_format_formula 1 1 1 1 ''time_period'' (Some ''last month'') None
             Worksheet_init
           = synthesise_formula ''timePeriod'' (Some ''lastMonth'') None ''B2''"
    unfolding conditional_format_formula_def Let_def c t option.case k(1) by (simp add: 1)
  have b: "conditional_format_formula 1 1 1 1 ''time_period'' (Some ''continue month'') None
             Worksheet_init
           = synthesise_formula ''timePeriod'' (Some ''continueMonth'') None ''B2''"
    unfolding conditional_format_formula_def Let_def c t option.case k(2) by (simp add: 1)
  show ?thesis unfolding a b 2 3 1 by simp
qed

subsection \<open>Date serials\<close>


lemma div_step:
  fixes y k :: int
  assumes "0 < k"
  shows "y div k = (y - 1) div k + (if y mod k = 0 then 1 else 0)"
proof (cases "y mod k = 0")
  case True
  have "y = k * (y div k)" using True mult_div_mod_eq[of k y] by simp
  then have "y - 1 = k * (y div k - 1) + (k - 1)" by (simp add: algebra_simps)
  then have "(y - 1) div k = y div k - 1"
    using assms by (intro int_div_pos_eq[where r = "k - 1"]) auto
  then show ?thesis using True by simp
next
  case False
  have r: "0 \<le> y mod k" "y mod k < k" using assms by simp_all
  have "y = k * (y div k) + y mod k" by simp
  then have "y - 1 = k * (y div k) + (y mod k - 1)" by linarith
  then have "(y - 1) div k = y div k"
    using assms r False by (intro int_div_pos_eq[where r = "y mod k - 1"]) auto
  then show ?thesis using False by simp
qed

lemma mod_400_100: "(y::int) mod 400 = 0 \<Longrightarrow> y mod 100 = 0"
proof -
  assume "y mod 400 = 0"
  then have "400 dvd y" by (simp add: dvd_eq_mod_eq_0)
  moreover have "(100::int) dvd 400" by simp
  ultimately have "100 dvd y" by (rule dvd_trans[rotated])
  then show ?thesis by (simp add: dvd_eq_mod_eq_0)
qed

lemma mod_100_4: "(y::int) mod 100 = 0 \<Longrightarrow> y mod 4 = 0"
proof -
  assume "y mod 100 = 0"
  then have "100 dvd y" by (simp add: dvd_eq_mod_eq_0)
  moreover have "(4::int) dvd 100" by simp
  ultimately have "4 dvd y" by (rule dvd_trans[rotated])
  then show ?thesis by (simp add: dvd_eq_mod_eq_0)
qed

lemma days_before_year_Suc:
  "days_before_year (y + 1) = days_before_year y + (if is_leap y then 366 else 365)"
proof -
  define a where "a = (y - 1) div 4"
  define b where "b = (y - 1) div 100"
  define c where "c = (y - 1) div 400"
  have a: "y div 4 = a + (if y mod 4 = 0 then 1 else 0)"
    unfolding a_def by (rule div_step) simp
  have b: "y div 100 = b + (if y mod 100 = 0 then 1 else 0)"
    unfolding b_def by (rule div_step) simp
  have c: "y div 400 = c + (if y mod 400 = 0 then 1 else 0)"
    unfolding c_def by (rule div_step) simp
  have l: "days_before_year (y + 1) = y * 365 + y div 4 - y div 100 + y div 400"
    by (simp add: days_before_year_def)
  have r: "days_before_year y = (y - 1) * 365 + a - b + c"
    by (simp add: days_before_year_def a_def b_def c_def)
  show ?thesis
  proof (cases "y mod 4 = 0")
    case False
    then have n100: "y mod 100 \<noteq> 0" using mod_100_4[of y] by auto
    then have n400: "y mod 400 \<noteq> 0" using mod_400_100[of y] by auto
    show ?thesis using False n100 n400 unfolding l r a b c is_leap_def by simp
  next
    case m4: True
    show ?thesis
    proof (cases "y mod 100 = 0")
      case False
      then have "y mod 400 \<noteq> 0" using mod_400_100[of y] by auto
      then show ?thesis using m4 False unfolding l r a b c is_leap_def by simp
    next
      case m100: True
      show ?thesis using m4 m100 unfolding l r a b c is_leap_def by (cases "y mod 400 = 0") simp_all
    qed
  qed
qed


lemma days_before_year_mono_aux:
  "0 \<le> n \<Longrightarrow> days_before_year y + 365 * n \<le> days_before_year (y + n)"
proof (induction n rule: int_ge_induct)
  case base
  then show ?case by simp
next
  case (step i)
  have "days_before_year (y + (i + 1)) = days_before_year ((y + i) + 1)" by (simp add: add.assoc)
  also have "\<dots> \<ge> days_before_year (y + i) + 365"
    using days_before_year_Suc[of "y + i"] by simp
  finally show ?case using step by (simp add: algebra_simps)
qed

lemma days_before_year_mono:
  "y \<le> y' \<Longrightarrow> days_before_year y + 365 * (y' - y) \<le> days_before_year y'"
  using days_before_year_mono_aux[of "y' - y" y] by simp

lemma days_before_year_1900: "days_before_year 1900 = 693595"
  by (simp add: days_before_year_def)

lemma not_leap_1900: "\<not> is_leap 1900"
  by (simp add: is_leap_def)

lemma month_cases:
  "1 \<le> m \<Longrightarrow> m \<le> 12 \<Longrightarrow>
   m = 1 \<or> m = 2 \<or> m = 3 \<or> m = 4 \<or> m = 5 \<or> m = 6 \<or> m = 7 \<or> m = 8 \<or> m = 9 \<or> m = 10 \<or> m = 11
   \<or> m = (12::int)"
  by arith

lemma day_of_year_bounds:
  assumes "valid_date y m d"
  shows "1 \<le> days_before_month y m + d
         \<and> days_before_month y m + d \<le> (if is_leap y then 366 else 365)"
proof -
  have m: "1 \<le> m" "m \<le> 12" and d: "1 \<le> d" "d \<le> days_in_month y m"
    using assms by (auto simp: valid_date_def)
  from month_cases[OF m] show ?thesis
    using d by (elim disjE) (simp_all add: days_before_month_def days_in_month_def split: if_splits)
qed

lemma ymd2ord_before_1900:
  assumes "valid_date y m d" "y \<le> 1899"
  shows "ymd2ord y m d \<le> 693595"
proof -
  have "ymd2ord y m d \<le> days_before_year y + (if is_leap y then 366 else 365)"
    using day_of_year_bounds[OF assms(1)] by (simp add: ymd2ord_def)
  also have "\<dots> = days_before_year (y + 1)" by (simp add: days_before_year_Suc)
  also have "\<dots> \<le> days_before_year 1900"
    using days_before_year_mono[of "y + 1" 1900] assms(2) by simp
  finally show ?thesis by (simp add: days_before_year_1900)
qed

lemma ymd2ord_after_1900:
  assumes "valid_date y m d" "1901 \<le> y"
  shows "693961 \<le> ymd2ord y m d"
proof -
  have "days_before_year 1901 = 693960" by (simp add: days_before_year_def)
  then have "693960 \<le> days_before_year y"
    using days_before_year_mono[of 1901 y] assms(2) by simp
  then show ?thesis using day_of_year_bounds[OF assms(1)] by (simp add: ymd2ord_def)
qed

lemma ymd2ord_in_1900:
  assumes "valid_date 1900 m d"
  shows "ymd2ord 1900 m d = 693595 + days_before_month 1900 m + d"
    and "m = 1 \<Longrightarrow> days_before_month 1900 m = 0"
    and "m = 2 \<Longrightarrow> days_before_month 1900 m = 31 \<and> d \<le> 28"
    and "3 \<le> m \<Longrightarrow> 59 \<le> days_before_month 1900 m"
proof -
  have m: "1 \<le> m" "m \<le> 12" and d: "1 \<le> d" "d \<le> days_in_month 1900 m"
    using assms by (auto simp: valid_date_def)
  show "ymd2ord 1900 m d = 693595 + days_before_month 1900 m + d"
    by (simp add: ymd2ord_def days_before_year_1900)
  show "m = 1 \<Longrightarrow> days_before_month 1900 m = 0"
    by (simp add: days_before_month_def)
  show "m = 2 \<Longrightarrow> days_before_month 1900 m = 31 \<and> d \<le> 28"
    using d not_leap_1900 by (simp add: days_before_month_def days_in_month_def)
  show "3 \<le> m \<Longrightarrow> 59 \<le> days_before_month 1900 m"
    using month_cases[OF m] not_leap_1900
    by (elim disjE) (simp_all add: days_before_month_def)
qed

lemma isoweek1monday_1900: "isoweek1monday 1900 = 693596"
  by (simp add: isoweek1monday_def ymd2ord_def days_before_year_def days_before_month_def Let_def)

lemma isoweek1monday_1901: "isoweek1monday 1901 = 693960"
  by (simp add: isoweek1monday_def ymd2ord_def days_before_year_def days_before_month_def Let_def)

lemma isocalendar_year:
  "fst (isocalendar (Datetime y m d h mi sec us)) = y - 1
   \<or> fst (isocalendar (Datetime y m d h mi sec us)) = y
   \<or> fst (isocalendar (Datetime y m d h mi sec us)) = y + 1"
  by (simp add: isocalendar_def Let_def)

lemma isocalendar_1900_1_1:
  assumes v: "valid_date y m d"
  shows "isocalendar (Datetime y m d h mi sec us) = (1900, 1, 1) \<longleftrightarrow> (y = 1900 \<and> m = 1 \<and> d = 1)"
proof -
  consider "y \<le> 1898" | "y = 1899" | "y = 1900" | "y = 1901" | "1902 \<le> y" by linarith
  then show ?thesis
  proof cases
    case 1
    then show ?thesis using isocalendar_year[of y m d h mi sec us]
      by (cases "isocalendar (Datetime y m d h mi sec us)") auto
  next
    case 2
    have "ymd2ord y m d \<le> 693595" using ymd2ord_before_1900[OF v] 2 by simp
    then show ?thesis using 2
      by (auto simp: isocalendar_def Let_def isoweek1monday_1900)
  next
    case 3
    have o: "ymd2ord 1900 m d = 693595 + days_before_month 1900 m + d"
      using ymd2ord_in_1900(1) v 3 by simp
    have d: "1 \<le> d" using v by (simp add: valid_date_def)
    have m: "1 \<le> m" "m \<le> 12" using v by (auto simp: valid_date_def)
    have dbm: "m = 1 \<or> 31 \<le> days_before_month 1900 m"
    proof -
      consider "m = 1" | "m = 2" | "3 \<le> m" using m by linarith
      then show ?thesis
      proof cases
        case 2
        then show ?thesis using ymd2ord_in_1900(3)[of m d] v 3 by simp
      next
        case 3
        then show ?thesis using ymd2ord_in_1900(4)[of m d] v \<open>y = 1900\<close> by simp
      qed simp
    qed
    have m1: "m = 1 \<Longrightarrow> days_before_month 1900 m = 0" by (simp add: days_before_month_def)
    show ?thesis
    proof (cases "m = 1 \<and> d = 1")
      case True
      then show ?thesis using 3
        by (simp add: isocalendar_def Let_def isoweek1monday_1900 isoweek1monday_1901
            ymd2ord_def days_before_year_def days_before_month_def)
    next
      case False
      then have k: "2 \<le> days_before_month 1900 m + d" using dbm d m1 by auto
      define k where "k = days_before_month 1900 m + d - 1"
      have k1: "1 \<le> k" using k by (simp add: k_def)
      have t: "ymd2ord 1900 m d - 693596 = k" using o by (simp add: k_def)
      have "\<not> (k div 7 = 0 \<and> k mod 7 = 0)"
      proof
        assume "k div 7 = 0 \<and> k mod 7 = 0"
        then have "k = 0" using div_mult_mod_eq[of k 7] by simp
        then show False using k1 by simp
      qed
      moreover have "0 \<le> k div 7" using k1 by (simp add: pos_imp_zdiv_nonneg_iff)
      ultimately show ?thesis using 3 False t
        by (auto simp: isocalendar_def Let_def isoweek1monday_1900)
    qed
  next
    case 4
    have "693961 \<le> ymd2ord y m d" using ymd2ord_after_1900[OF v] 4 by simp
    then have "0 \<le> (ymd2ord 1901 m d - 693960) div 7" using 4
      by (simp add: pos_imp_zdiv_nonneg_iff)
    then show ?thesis using 4
      by (auto simp: isocalendar_def Let_def isoweek1monday_1901)
  next
    case 5
    then show ?thesis using isocalendar_year[of y m d h mi sec us]
      by (cases "isocalendar (Datetime y m d h mi sec us)") auto
  qed
qed

lemma datetime_sub_midnight:
  "datetime_sub (Datetime y m d 0 0 0 0) (Datetime ey em ed 0 0 0 0)
     = (ymd2ord y m d - ymd2ord ey em ed, 0, 0)"
  by (simp add: datetime_sub_def Let_def)

lemma datetime_sub_time:
  assumes "valid_time h mi sec us"
  shows "datetime_sub (Datetime y m d h mi sec us) (Datetime y m d 0 0 0 0)
           = (0, h * 3600 + mi * 60 + sec, us)"
proof -
  have us: "0 \<le> us" "us < 1000000" and s: "0 \<le> h * 3600 + mi * 60 + sec"
    "h * 3600 + mi * 60 + sec < 86400"
    using assms by (auto simp: valid_time_def)
  have "us div 1000000 = 0" "us mod 1000000 = us" using us by simp_all
  moreover have "(h * 3600 + mi * 60 + sec) div 86400 = 0"
    "(h * 3600 + mi * 60 + sec) mod 86400 = h * 3600 + mi * 60 + sec" using s by simp_all
  ultimately show ?thesis by (simp add: datetime_sub_def Let_def)
qed

lemma ymd2ord_epochs:
  "ymd2ord 1899 12 31 = 693595" "ymd2ord 1904 1 1 = 695056"
  by (simp_all add: ymd2ord_def days_before_year_def days_before_month_def is_leap_def)

lemma datetime_sub_epoch:
  assumes "valid_time h mi sec us"
  shows "datetime_sub (Datetime y m d h mi sec us) (Datetime ey em ed 0 0 0 0)
           = (ymd2ord y m d - ymd2ord ey em ed, h * 3600 + mi * 60 + sec, us)"
proof -
  have us: "0 \<le> us" "us < 1000000" and s: "0 \<le> h * 3600 + mi * 60 + sec"
    "h * 3600 + mi * 60 + sec < 86400"
    using assms by (auto simp: valid_time_def)
  have "us div 1000000 = 0" "us mod 1000000 = us" using us by simp_all
  moreover have "(h * 3600 + mi * 60 + sec) div 86400 = 0"
    "(h * 3600 + mi * 60 + sec) mod 86400 = h * 3600 + mi * 60 + sec" using s by simp_all
  ultimately show ?thesis by (simp add: datetime_sub_def Let_def)
qed

lemma day_fraction_bounds:
  assumes "valid_time h mi sec us"
  shows "0 \<le> (real_of_int (h * 3600 + mi * 60 + sec) + real_of_int us / 1000000) / 86400"
    and "(real_of_int (h * 3600 + mi * 60 + sec) + real_of_int us / 1000000) / 86400 \<le> 59"
proof -
  have b: "0 \<le> h * 3600 + mi * 60 + sec" "h * 3600 + mi * 60 + sec < 86400"
    "0 \<le> us" "us < 1000000"
    using assms by (auto simp: valid_time_def)
  have 1: "0 \<le> real_of_int (h * 3600 + mi * 60 + sec)" using b(1) by linarith
  have 2: "real_of_int (h * 3600 + mi * 60 + sec) \<le> 86400" using b(2) by linarith
  have 3: "0 \<le> real_of_int us / 1000000" "real_of_int us / 1000000 \<le> 1" using b(3,4) by simp_all
  show "0 \<le> (real_of_int (h * 3600 + mi * 60 + sec) + real_of_int us / 1000000) / 86400"
    using 1 3 by simp
  show "(real_of_int (h * 3600 + mi * 60 + sec) + real_of_int us / 1000000) / 86400 \<le> 59"
    using 2 3 by simp
qed




subsection \<open>Error results and the state\<close>




subsection \<open>Strings beyond the maximum length\<close>

text \<open>
  C6, as stated, fails for \<open>write_url\<close>: a display string of 32,768 characters
  is not truncated and stored, the call returns -2 and the cell stays empty ("Ignoring
  URL since it exceeds Excel's string limit").
\<close>

theorem long_url_string_counterexample:
  "length (replicate 32768 (CHR ''a'')) > xls_strmax
   \<and> fst (write_url 0 0 ''http://a'' None (Some (replicate 32768 (CHR ''a''))) None Worksheet_init)
       = Return (-2)
   \<and> table (snd (write_url 0 0 ''http://a'' None (Some (replicate 32768 (CHR ''a''))) None
                  Worksheet_init)) 0 0 = None"
  unfolding write_url_checked[OF check_dimensions_init url_display_plain]
  by (simp add: xls_strmax_def Worksheet_init_def)

text \<open>
  C6, amended. In bounds (and, in optimisation mode, not before the row held in
  memory), \<open>write_string\<close> with a text of more than 32,767 characters returns -2
  and stores the first 32,767 characters in the cell: as a shared string in buffered
  mode, as the text itself in optimisation mode. \<open>write_url\<close> whose display string
  is that long returns -2 and stores neither a cell nor a link.
\<close>

theorem string_too_long:
  assumes long: "length string > xls_strmax"
    and b: "row < xls_rowmax" "col < xls_colmax"
    and o: "optimization s = 1 \<longrightarrow> previous_row s \<le> row"
  shows
    "(optimization s = 0 \<longrightarrow>
        (\<exists>i s'. write_string row col string f s = (Return (-2), s')
           \<and> table s' row col = Some (String (SharedIndex i) f)
           \<and> i < length (str_table s') \<and> str_table s' ! i = take xls_strmax string))
     \<and> (optimization s \<noteq> 0 \<and> inline_strings s \<longrightarrow>
        (\<exists>s'. write_string row col string f s = (Return (-2), s')
           \<and> table s' row col = Some (String (InlineText (take xls_strmax string)) f)))
     \<and> (snd (snd (url_display u str)) = string \<longrightarrow>
        fst (write_url row col u f str tp s) = Return (-2)
        \<and> table (snd (write_url row col u f str tp s)) = table s
        \<and> hyperlinks (snd (write_url row col u f str tp s)) = hyperlinks s)"
proof -
  obtain s1 where c: "check_dimensions row col False False s = (0, s1)"
    using check_dimensions_okE[OF b o] .
  note fr = check_dimensions_frame[OF c]
  show ?thesis
  proof (intro conjI impI)
    assume z: "optimization s = 0"
    let ?ix = "get_shared_string_index (take xls_strmax string) (str_table s)"
    have w: "write_string row col string f s =
        (Return (-2), store_cell row col (String (SharedIndex (fst ?ix)) f) (s1\<lparr>str_table := snd ?ix\<rparr>))"
      using write_string_ok[OF c, of string f] z long by simp
    show "\<exists>i s'. write_string row col string f s = (Return (-2), s')
           \<and> table s' row col = Some (String (SharedIndex i) f)
           \<and> i < length (str_table s') \<and> str_table s' ! i = take xls_strmax string"
      unfolding w using get_shared_string_index_nth[of "take xls_strmax string" "str_table s"]
      by simp
  next
    assume z: "optimization s \<noteq> 0 \<and> inline_strings s"
    have w: "write_string row col string f s =
        (Return (-2), store_cell row col (String (InlineText (take xls_strmax string)) f)
           (if row > previous_row s then flushed row s1 else s1))"
      using write_string_ok[OF c, of string f] z long by simp
    show "\<exists>s'. write_string row col string f s = (Return (-2), s')
           \<and> table s' row col = Some (String (InlineText (take xls_strmax string)) f)"
      unfolding w by simp
  next
    assume d: "snd (snd (url_display u str)) = string"
    obtain lt u3 where d': "url_display u str = (lt, u3, string)"
      using d by (cases "url_display u str") auto
    have w: "write_url row col u f str tp s = (Return (-2), s1)"
      unfolding write_url_checked[OF c d'] using long by simp
    show "fst (write_url row col u f str tp s) = Return (-2)" unfolding w by simp
    show "table (snd (write_url row col u f str tp s)) = table s" unfolding w using fr by simp
    show "hyperlinks (snd (write_url row col u f str tp s)) = hyperlinks s"
      unfolding w using fr by simp
  qed
qed

theorem string_too_long_witness:
  "fst (write_string 0 0 (replicate 32768 (CHR ''a'')) None Worksheet_init) = Return (-2)
   \<and> (\<exists>i. table (snd (write_string 0 0 (replicate 32768 (CHR ''a'')) None Worksheet_init)) 0 0
            = Some (String (SharedIndex i) None))
   \<and> fst (write_url 0 0 ''http://a'' None (Some (replicate 32768 (CHR ''a''))) None Worksheet_init)
       = Return (-2)"
proof -
  have l: "length (replicate 32768 (CHR ''a'')) > xls_strmax" by (simp add: xls_strmax_def)
  have b: "(0::int) < xls_rowmax" "(0::int) < xls_colmax"
    by (simp_all add: xls_rowmax_def xls_colmax_def)
  have o: "optimization Worksheet_init = 1 \<longrightarrow> previous_row Worksheet_init \<le> 0"
    by (simp add: Worksheet_init_def)
  have z: "optimization Worksheet_init = 0" by (simp add: Worksheet_init_def)
  have d: "snd (snd (url_display ''http://a'' (Some (replicate 32768 (CHR ''a'')))))
             = replicate 32768 (CHR ''a'')"
    by (simp add: url_display_plain)
  note t = string_too_long[OF l b o, of None "''http://a''" "Some (replicate 32768 (CHR ''a''))" None]
  from t z obtain i s' where
    w: "write_string 0 0 (replicate 32768 (CHR ''a'')) None Worksheet_init = (Return (-2), s')"
      "table s' 0 0 = Some (String (SharedIndex i) None)" by blast
  from t d have "fst (write_url 0 0 ''http://a'' None (Some (replicate 32768 (CHR ''a''))) None
      Worksheet_init) = Return (-2)" by blast
  then show ?thesis using w by auto
qed

subsection \<open>Streaming mode: one row in memory\<close>




subsection \<open>Merged ranges\<close>

text \<open>
  C7 fails on a merge without a format. \<open>merge_range\<close> pads the range with
  \<open>write_blank\<close>, which stores nothing when the call has no format: after a number
  is written at B1, the merge of A1:B2 with no format records the region and writes the
  payload at A1, but B1 keeps its number and A2 and B2 stay empty, where "the others
  should be blank".
\<close>

theorem merge_range_without_format:
  "(let s = snd (write_number 0 1 7 None Worksheet_init);
        r = merge_range 0 0 1 1 (TokNumeric 1) None s
    in fst r = None \<and> merge (snd r) = [(0, 0, 1, 1)]
       \<and> table (snd r) 0 0 = Some (Number 1 None)
       \<and> table (snd r) 0 1 = Some (Number 7 None)
       \<and> table (snd r) 1 0 = None \<and> table (snd r) 1 1 = None)"
proof -
  have b: "(0::int) < xls_rowmax" "(1::int) < xls_rowmax" "(0::int) < xls_colmax"
    "(1::int) < xls_colmax"
    by (simp_all add: xls_rowmax_def xls_colmax_def)
  have o: "optimization Worksheet_init = 0" "table Worksheet_init = (\<lambda>_. Map.empty)"
    "merge Worksheet_init = []"
    by (simp_all add: Worksheet_init_def)
  define s where "s = snd (write_number 0 1 7 None Worksheet_init)"
  have s: "s = store_cell 0 1 (Number 7 None)
                 (snd (check_dimensions 0 1 False False Worksheet_init))"
    unfolding s_def write_number_buffered[OF o(1) b(1,4)] by simp
  have S: "optimization s = 0" "table s = (\<lambda>_. Map.empty)(0 := [1 \<mapsto> Number 7 None])"
    "merge s = []"
    unfolding s using o check_dimensions_frame[of 0 1 False False Worksheet_init
        "fst (check_dimensions 0 1 False False Worksheet_init)"
        "snd (check_dimensions 0 1 False False Worksheet_init)"]
    by simp_all
  obtain s1 where c: "check_dimensions 1 0 False False s = (0, s1)"
    using check_dimensions_okE[OF b(2,3), of s] S by auto
  note f1 = check_dimensions_frame[OF c]
  define s2 where "s2 = s1\<lparr>merge := merge s1 @ [(0, 0, 1, 1)]\<rparr>"
  have S2: "optimization s2 = 0" "table s2 = table s" "merge s2 = [(0, 0, 1, 1)]"
    using f1 S by (simp_all add: s2_def)
  define s3 where "s3 = store_cell 0 0 (Number 1 None)
                 (snd (check_dimensions 0 0 False False s2))"
  have w: "write_generic 0 0 (TokNumeric 1) None s2 = (Return 0, s3)"
    unfolding write_generic_number write_number_buffered[OF S2(1) b(1,3)] s3_def ..
  have S3: "table s3 = (table s)(0 := (table s 0)(0 \<mapsto> Number 1 None))"
    "merge s3 = [(0, 0, 1, 1)]"
    unfolding s3_def using S2 check_dimensions_frame[of 0 0 False False s2
        "fst (check_dimensions 0 0 False False s2)"
        "snd (check_dimensions 0 0 False False s2)"]
    by simp_all
  have m: "merge_range 0 0 1 1 (TokNumeric 1) None s = (None, s3)"
    unfolding merge_range_def Let_def using c w
    by (simp add: s2_def[symmetric] for_cells_blank_none)
  show ?thesis
    unfolding Let_def s_def[symmetric] m using S3 S by simp
qed

text \<open>
  With a format the cells are padded. In buffered mode, for a range of at least two
  cells that lies within the sheet: when \<open>merge_range\<close> returns, one region, the
  range put in order, is appended to the merged ranges, every cell of the range other
  than the first holds a blank cell with the format of the call, and the first cell
  holds what \<open>write()\<close> stored there; a number or \<open>None\<close> as payload does return,
  and the first cell holds the number, or a blank, with the format. A request whose
  first cell is its last cell returns at once and changes nothing.
\<close>

theorem merge_range_cells:
  assumes o: "optimization s = 0"
    and n: "first_row \<noteq> last_row \<or> first_col \<noteq> last_col"
    and b: "max first_row last_row < xls_rowmax" "max first_col last_col < xls_colmax"
    and r: "merge_range first_row first_col last_row last_col data (Some f) s = (e, s')"
  shows "merge_range first_row first_col first_row first_col data cf s = (None, s)
     \<and> (e = None \<longrightarrow>
          merge s' = merge s @ [(min first_row last_row, min first_col last_col,
                                 max first_row last_row, max first_col last_col)]
          \<and> (\<forall>row col. min first_row last_row \<le> row \<and> row \<le> max first_row last_row
                \<and> min first_col last_col \<le> col \<and> col \<le> max first_col last_col
                \<and> (row \<noteq> min first_row last_row \<or> col \<noteq> min first_col last_col)
                \<longrightarrow> table s' row col = Some (Blank (Some f)))
          \<and> table s' (min first_row last_row) (min first_col last_col)
              = table (snd (write_generic (min first_row last_row) (min first_col last_col)
                         data (Some f)
                         ((snd (check_dimensions (max first_row last_row)
                                  (min first_col last_col) False False s))
                          \<lparr>merge := merge s @ [(min first_row last_row, min first_col last_col,
                                        max first_row last_row, max first_col last_col)]\<rparr>)))
                  (min first_row last_row) (min first_col last_col))
     \<and> (data = TokNumeric x \<longrightarrow>
          e = None \<and> table s' (min first_row last_row) (min first_col last_col)
                       = Some (Number x (Some f)))
     \<and> (data = TokNone \<longrightarrow>
          e = None \<and> table s' (min first_row last_row) (min first_col last_col)
                       = Some (Blank (Some f)))"
proof -
  define ar where "ar = min first_row last_row"
  define ac where "ac = min first_col last_col"
  define zr where "zr = max first_row last_row"
  define zc where "zc = max first_col last_col"
  define s2 where "s2 = (snd (check_dimensions zr ac False False s))
                          \<lparr>merge := merge s @ [(ar, ac, zr, zc)]\<rparr>"
  have bb: "ar < xls_rowmax" "ac < xls_colmax"
    using b by (auto simp: ar_def ac_def)
  have o2: "optimization s2 = 0"
    using o check_dimensions_frame[of zr ac False False s
        "fst (check_dimensions zr ac False False s)" "snd (check_dimensions zr ac False False s)"]
    by (simp add: s2_def)
  obtain out s3 where w: "write_generic ar ac data (Some f) s2 = (out, s3)"
    by (cases "write_generic ar ac data (Some f) s2")
  note mr = merge_range_buffered[OF o n b, of data f out s3,
      unfolded ar_def[symmetric] ac_def[symmetric] zr_def[symmetric] zc_def[symmetric]
        s2_def[symmetric], OF w]
  have 0: "merge_range first_row first_col first_row first_col data cf s = (None, s)"
    by (simp add: merge_range_def)
  have ret: "\<exists>rc. out = Return rc" if "e = None"
  proof (cases out)
    case (Raise x)
    then show ?thesis using mr r that by simp
  qed simp
  have 1: "merge s' = merge s @ [(ar, ac, zr, zc)]
          \<and> (\<forall>row col. ar \<le> row \<and> row \<le> zr \<and> ac \<le> col \<and> col \<le> zc
                \<and> (row \<noteq> ar \<or> col \<noteq> ac)
                \<longrightarrow> table s' row col = Some (Blank (Some f)))
          \<and> table s' ar ac = table s3 ar ac" if "out = Return rc" for rc
  proof -
    from mr that obtain s'' where
      s'': "merge_range first_row first_col last_row last_col data (Some f) s = (None, s'')"
        "merge s'' = merge s3"
        "\<forall>row col. table s'' row col
                  = (if ar \<le> row \<and> row \<le> zr \<and> ac \<le> col \<and> col \<le> zc
                        \<and> (row \<noteq> ar \<or> col \<noteq> ac)
                     then Some (Blank (Some f)) else table s3 row col)"
      by blast
    have "s' = s''" using s''(1) r by simp
    then show ?thesis using s''(2,3) mr by simp
  qed
  have e0: "e = None" if "out = Return rc" for rc
    using mr that r by auto
  have 2: "e = None \<and> table s' ar ac = Some (Number x (Some f))" if "data = TokNumeric x"
  proof -
    have "write_generic ar ac data (Some f) s2
            = (Return 0, store_cell ar ac (Number x (Some f))
                 (snd (check_dimensions ar ac False False s2)))"
      unfolding that write_generic_number write_number_buffered[OF o2 bb] ..
    then have "out = Return 0" "table s3 ar ac = Some (Number x (Some f))"
      using w by auto
    then show ?thesis using 1[of 0] e0[of 0] by simp
  qed
  have 3: "e = None \<and> table s' ar ac = Some (Blank (Some f))" if "data = TokNone"
  proof -
    have "write_generic ar ac data (Some f) s2
            = (Return 0, store_cell ar ac (Blank (Some f))
                 (snd (check_dimensions ar ac False False s2)))"
      unfolding that write_generic_none write_blank_buffered[OF o2 bb] ..
    then have "out = Return 0" "table s3 ar ac = Some (Blank (Some f))"
      using w by auto
    then show ?thesis using 1[of 0] e0[of 0] by simp
  qed
  have 4: "e = None \<longrightarrow>
          merge s' = merge s @ [(ar, ac, zr, zc)]
          \<and> (\<forall>row col. ar \<le> row \<and> row \<le> zr \<and> ac \<le> col \<and> col \<le> zc
                \<and> (row \<noteq> ar \<or> col \<noteq> ac)
                \<longrightarrow> table s' row col = Some (Blank (Some f)))
          \<and> table s' ar ac = table (snd (write_generic ar ac data (Some f) s2)) ar ac"
    using ret 1 w by auto
  show ?thesis
    unfolding ar_def[symmetric] ac_def[symmetric] zr_def[symmetric] zc_def[symmetric]
      s2_def[symmetric]
    using 0 2 3 4 by blast
qed

theorem merge_range_cells_witness:
  "optimization Worksheet_init = 0
   \<and> fst (merge_range 0 0 1 1 (TokNumeric 5) (Some default_format) Worksheet_init) = None
   \<and> merge (snd (merge_range 0 0 1 1 (TokNumeric 5) (Some default_format) Worksheet_init))
       = [(0, 0, 1, 1)]
   \<and> table (snd (merge_range 0 0 1 1 (TokNumeric 5) (Some default_format) Worksheet_init)) 0 0
       = Some (Number 5 (Some default_format))
   \<and> table (snd (merge_range 0 0 1 1 (TokNumeric 5) (Some default_format) Worksheet_init)) 0 1
       = Some (Blank (Some default_format))
   \<and> table (snd (merge_range 0 0 1 1 (TokNumeric 5) (Some default_format) Worksheet_init)) 1 0
       = Some (Blank (Some default_format))
   \<and> table (snd (merge_range 0 0 1 1 (TokNumeric 5) (Some default_format) Worksheet_init)) 1 1
       = Some (Blank (Some default_format))
   \<and> merge_range 0 0 0 0 (TokNumeric 5) (Some default_format) Worksheet_init
       = (None, Worksheet_init)"
proof -
  have o: "optimization Worksheet_init = 0" "merge Worksheet_init = []"
    by (simp_all add: Worksheet_init_def)
  have n: "(0::int) \<noteq> 1 \<or> (0::int) \<noteq> 1" by simp
  have b: "max (0::int) 1 < xls_rowmax" "max (0::int) 1 < xls_colmax"
    by (simp_all add: xls_rowmax_def xls_colmax_def)
  obtain e s' where
    r: "merge_range 0 0 1 1 (TokNumeric 5) (Some default_format) Worksheet_init = (e, s')"
    by (cases "merge_range 0 0 1 1 (TokNumeric 5) (Some default_format) Worksheet_init")
  note t = merge_range_cells[OF o(1) n b r, of "Some default_format" 5]
  have e: "e = None" using t by simp
  have 1: "merge s' = [(0, 0, 1, 1)]" using t e o by simp
  have 2: "table s' 0 0 = Some (Number 5 (Some default_format))" using t by simp
  have 3: "\<forall>row col. 0 \<le> row \<and> row \<le> 1 \<and> 0 \<le> col \<and> col \<le> 1 \<and> (row \<noteq> 0 \<or> col \<noteq> 0)
            \<longrightarrow> table s' row col = Some (Blank (Some default_format))"
    using t e by simp
  have 4: "table s' 0 1 = Some (Blank (Some default_format))"
    "table s' 1 0 = Some (Blank (Some default_format))"
    "table s' 1 1 = Some (Blank (Some default_format))"
    using 3 by simp_all
  have 5: "merge_range 0 0 0 0 (TokNumeric 5) (Some default_format) Worksheet_init
       = (None, Worksheet_init)" using t by simp
  show ?thesis unfolding r using o e 1 2 4 5 by simp
qed

end
